theory Spec2Isabelle
  imports
    Main
    "HOL-Library.AList"
    "HOL-Library.Char_ord"
    "HOL-Library.List_Lexorder"
    "HOL-Library.Monad_Syntax"
    "HOL-Library.Multiset"
begin

section \<open>Python values and errors\<close>

text \<open>
  The exceptions of the modelled code paths. A Python \<open>dict\<close> is an association list
  in insertion order: \<open>map_of\<close> is \<open>d.get(k)\<close>, \<open>AList.update\<close> is \<open>d[k] = v\<close>
  (in place for an existing key, appended for a new one) and \<open>AList.delete\<close> is
  \<open>d.pop(k, None)\<close>.
\<close>

datatype py_error = KeyError | ValueError | IndexError | OverflowError

section \<open>Rate limiter (command_handlers/utils.py)\<close>

text \<open>
  A \<open>datetime\<close> is modelled as its number of microseconds (the resolution of Python's
  \<open>datetime\<close>) since 1970-01-01T00:00:00 UTC; a \<open>timedelta\<close> is a number of
  microseconds too. Python's datetimes range over the years 1 to 9999, from
  \<open>datetime_min\<close> to \<open>datetime_max\<close>; datetime arithmetic that leaves this range
  raises \<open>OverflowError\<close> in Python. The functions below compute on all integers: the
  bounds of \<open>datetime\<close> are not modelled, and a result that depends on them assumes
  the values it computes in range (\<open>is_datetime\<close>).
\<close>

definition datetime_min :: int where
  "datetime_min = - 62135596800000000"

definition datetime_max :: int where
  "datetime_max = 253402300799999999"

definition is_datetime :: "int \<Rightarrow> bool" where
  "is_datetime x \<longleftrightarrow> datetime_min \<le> x \<and> x \<le> datetime_max"

definition timedelta :: "int \<Rightarrow> int" where
  "timedelta seconds = seconds * 1000000"

text \<open>
  \<open>timedelta(seconds=...)\<close> raises \<open>OverflowError\<close> when the number of whole days
  exceeds 999999999 in magnitude.
\<close>

definition timedelta_overflows :: "int \<Rightarrow> bool" where
  "timedelta_overflows seconds \<longleftrightarrow>
     999999999 < seconds div 86400 \<or> seconds div 86400 < - 999999999"

text \<open>The greatest power of two that is not above \<open>q\<close>, for \<open>q \<ge> 1\<close>.\<close>

fun pow2_le :: "nat \<Rightarrow> nat" where
  "pow2_le q = (if q < 2 then 1 else 2 * pow2_le (q div 2))"

declare pow2_le.simps [simp del]

text \<open>
  \<open>int(td.total_seconds())\<close>. \<open>total_seconds()\<close> is the double nearest to the
  quotient of the microseconds by \<open>10^6\<close> (the true division of integers is correctly
  rounded), and \<open>int\<close> truncates it toward zero. With \<open>q\<close> whole seconds and \<open>m\<close>
  microseconds left, the double is below \<open>q + 1\<close>, and the result is \<open>q\<close>, unless the
  quotient is nearer to \<open>q + 1\<close> than half the spacing of the doubles below \<open>q + 1\<close>,
  which is \<open>p / 2^52\<close> for the greatest power of two \<open>p \<le> q\<close>; then the result is
  \<open>q + 1\<close>. No quotient of a \<open>timedelta\<close> lies exactly halfway (that needs
  \<open>q \<ge> 2^47\<close>, more than 999999999 days).
\<close>

definition int_total_seconds :: "int \<Rightarrow> int" where
  "int_total_seconds d =
     (let a = \<bar>d\<bar>;
          q = a div 1000000;
          m = a mod 1000000;
          rounded =
            (if m \<noteq> 0 \<and> 1 \<le> q \<and> (1000000 - m) * 2 ^ 53 < 1000000 * int (pow2_le (nat q))
             then q + 1 else q)
      in if 0 \<le> d then rounded else - rounded)"

text \<open>\<open>while timestamps and timestamps[0] < cutoff: timestamps.popleft()\<close>\<close>

fun popleft_while :: "int \<Rightarrow> int list \<Rightarrow> int list" where
  "popleft_while cutoff [] = []"
| "popleft_while cutoff (t # ts) = (if t < cutoff then popleft_while cutoff ts else t # ts)"

text \<open>
  The common body of \<open>check_user_rate_limit\<close> and \<open>check_guild_rate_limit\<close>, on the
  dictionary of deques it is given. \<open>limit\<close> is the pair the configuration getter returns.
  The deque is mutated in place, so the pruning is kept also when the check denies.
\<close>

definition check_rate_limit ::
  "int \<times> int \<Rightarrow> (int \<times> int list) list \<Rightarrow> int \<Rightarrow> int
    \<Rightarrow> (py_error + bool \<times> int) \<times> (int \<times> int list) list" where
  "check_rate_limit limit rate_limits key now =
     (let max_commands = fst limit;
          window_seconds = snd limit
      in if timedelta_overflows window_seconds then (Inl OverflowError, rate_limits)
         else
           (let window = timedelta window_seconds;
                timestamps = (case map_of rate_limits key of None \<Rightarrow> [] | Some ts \<Rightarrow> ts);
                cutoff = now - window;
                pruned = popleft_while cutoff timestamps
            in if max_commands \<le> int (length pruned) then
                 (case pruned of
                    [] \<Rightarrow> (Inl IndexError, AList.update key pruned rate_limits)
                  | oldest # _ \<Rightarrow>
                      (Inr (False, max 0 (int_total_seconds (oldest + window - now))),
                       AList.update key pruned rate_limits))
               else (Inr (True, 0), AList.update key (pruned @ [now]) rate_limits)))"

record limiter =
  user_rate_limits :: "(int \<times> int list) list"
  guild_rate_limits :: "(int \<times> int list) list"

definition check_user_rate_limit ::
  "int \<times> int \<Rightarrow> limiter \<Rightarrow> int \<Rightarrow> int \<Rightarrow> (py_error + bool \<times> int) \<times> limiter" where
  "check_user_rate_limit limit st user_id now =
     (case check_rate_limit limit (user_rate_limits st) user_id now of
        (r, d) \<Rightarrow> (r, st\<lparr>user_rate_limits := d\<rparr>))"

definition check_guild_rate_limit ::
  "int \<times> int \<Rightarrow> limiter \<Rightarrow> int \<Rightarrow> int \<Rightarrow> (py_error + bool \<times> int) \<times> limiter" where
  "check_guild_rate_limit limit st guild_id now =
     (case check_rate_limit limit (guild_rate_limits st) guild_id now of
        (r, d) \<Rightarrow> (r, st\<lparr>guild_rate_limits := d\<rparr>))"

text \<open>
  The wait the specification words describe: the remaining time
  \<open>oldest + window - now\<close> rounded up to whole seconds, clamped at zero.
\<close>

definition spec_wait_seconds :: "int \<Rightarrow> int \<Rightarrow> int \<Rightarrow> int" where
  "spec_wait_seconds oldest window_seconds now =
     max 0 (- ((- (oldest + timedelta window_seconds - now)) div 1000000))"

section \<open>Values in memory and on disk (types.py, storage.py)\<close>

datatype ArchiveReason = MOD | OWNER | NO_ACCESS | KICK

text \<open>The member's \<open>.value\<close>.\<close>

fun reason_value :: "ArchiveReason \<Rightarrow> string" where
  "reason_value MOD = ''MOD''"
| "reason_value OWNER = ''OWNER''"
| "reason_value NO_ACCESS = ''NO_ACCESS''"
| "reason_value KICK = ''KICK''"

text \<open>
  The Python values the storage code handles: \<open>None\<close>, integers, strings, members of
  \<open>ArchiveReason\<close>, lists, and dictionaries with string keys. What \<open>json.load\<close>
  returns is such a value without enum members (JSON booleans and floats, which the bot
  never writes, are left out).
\<close>

datatype pyval =
    PNone
  | PInt int
  | PStr string
  | PReason ArchiveReason
  | PList "pyval list"
  | PDict "(string \<times> pyval) list"

type_synonym pydict = "(string \<times> pyval) list"

text \<open>A \<open>TablesDB\<close> in memory: table id to the table's dictionary.\<close>

type_synonym TablesDB = "(string \<times> pydict) list"

text \<open>
  \<open>ArchiveReason(reason)\<close>: the member with that value, or \<open>ValueError\<close>.
\<close>

fun ArchiveReason_of :: "pyval \<Rightarrow> py_error + ArchiveReason" where
  "ArchiveReason_of (PStr s) =
     (if s = ''MOD'' then Inr MOD
      else if s = ''OWNER'' then Inr OWNER
      else if s = ''NO_ACCESS'' then Inr NO_ACCESS
      else if s = ''KICK'' then Inr KICK
      else Inl ValueError)"
| "ArchiveReason_of (PReason r) = Inr r"
| "ArchiveReason_of _ = Inl ValueError"

text \<open>
  \<open>json.dump\<close> followed by \<open>json.load\<close>: the value read back from the text written.
  An \<open>ArchiveReason\<close> member is a \<open>str\<close> and is written as its value; everything
  else comes back as it was.
\<close>

primrec json_dump :: "pyval \<Rightarrow> pyval" where
  "json_dump PNone = PNone"
| "json_dump (PInt i) = PInt i"
| "json_dump (PStr s) = PStr s"
| "json_dump (PReason r) = PStr (reason_value r)"
| "json_dump (PList xs) = PList (map json_dump xs)"
| "json_dump (PDict d) = PDict (map (map_prod id json_dump) d)"

text \<open>
  A file that exists holds text that either fails to decode (\<open>JSONDecodeError\<close>) or
  decodes to a value. The store is the two partition files; \<open>None\<close> is a file that
  does not exist. Writes are taken to succeed, and the lock files are not modelled.
\<close>

datatype file_content = Corrupt | Doc pyval

record store =
  active_file :: "file_content option"
  archived_file :: "file_content option"

text \<open>
  The loop of \<open>_read_json\<close> over \<open>raw.items()\<close>, with \<open>normalized\<close> as accumulator.
  \<open>entry["archive_reason"]\<close> raises \<open>KeyError\<close> when the key is missing.
\<close>

fun read_entries :: "(string \<times> pyval) list \<Rightarrow> TablesDB \<Rightarrow> py_error + TablesDB" where
  "read_entries [] normalized = Inr normalized"
| "read_entries ((key, PDict entry) # raw) normalized =
     (case map_of entry ''archive_reason'' of
        None \<Rightarrow> Inl KeyError
      | Some reason \<Rightarrow>
          (if reason = PNone
           then read_entries raw
                  (AList.update key (AList.update ''archive_reason'' PNone entry) normalized)
           else (case ArchiveReason_of reason of
                   Inl e \<Rightarrow> Inl e
                 | Inr r \<Rightarrow>
                     read_entries raw
                       (AList.update key (AList.update ''archive_reason'' (PReason r) entry)
                          normalized))))"
| "read_entries ((key, _) # raw) normalized = read_entries raw normalized"

definition read_json :: "file_content option \<Rightarrow> py_error + TablesDB" where
  "read_json path =
     (case path of
        None \<Rightarrow> Inr []
      | Some Corrupt \<Rightarrow> Inr []
      | Some (Doc raw) \<Rightarrow>
          (case raw of PDict items \<Rightarrow> read_entries items [] | _ \<Rightarrow> Inr []))"

text \<open>The loop of \<open>_write_json\<close> that builds \<open>serializable\<close>.\<close>

definition serializable_entry :: "pydict \<Rightarrow> pydict" where
  "serializable_entry entry =
     (case map_of entry ''archive_reason'' of
        Some (PReason reason) \<Rightarrow>
          AList.update ''archive_reason'' (PStr (reason_value reason)) entry
      | _ \<Rightarrow> entry)"

fun write_entries :: "TablesDB \<Rightarrow> pydict \<Rightarrow> pydict" where
  "write_entries [] serializable = serializable"
| "write_entries ((key, value) # data) serializable =
     write_entries data (AList.update key (PDict (serializable_entry value)) serializable)"

definition write_json :: "TablesDB \<Rightarrow> file_content option" where
  "write_json data = Some (Doc (json_dump (PDict (write_entries data []))))"

definition load_tables :: "store \<Rightarrow> py_error + TablesDB \<times> TablesDB" where
  "load_tables st =
     (case read_json (active_file st) of
        Inl e \<Rightarrow> Inl e
      | Inr active \<Rightarrow>
          (case read_json (archived_file st) of
             Inl e \<Rightarrow> Inl e
           | Inr archived \<Rightarrow> Inr (active, archived)))"

fun normalize_active :: "TablesDB \<Rightarrow> TablesDB \<Rightarrow> TablesDB" where
  "normalize_active [] normalized_active = normalized_active"
| "normalize_active ((key, value) # active) normalized_active =
     normalize_active active
       (AList.update key (AList.update ''archive_reason'' PNone value) normalized_active)"

definition save_tables :: "TablesDB \<Rightarrow> TablesDB \<Rightarrow> store" where
  "save_tables active archived =
     \<lparr>active_file = write_json (normalize_active active []),
      archived_file = write_json archived\<rparr>"

text \<open>The loop of \<open>archive_tables\<close> and the function itself.\<close>

fun archive_loop ::
  "string list \<Rightarrow> ArchiveReason \<Rightarrow> TablesDB \<Rightarrow> TablesDB \<Rightarrow> int
    \<Rightarrow> TablesDB \<times> TablesDB \<times> int" where
  "archive_loop [] reason active_tables archived_tables archived_count =
     (active_tables, archived_tables, archived_count)"
| "archive_loop (table_id # table_ids) reason active_tables archived_tables archived_count =
     (case map_of active_tables table_id of
        None \<Rightarrow> archive_loop table_ids reason active_tables archived_tables archived_count
      | Some table \<Rightarrow>
          archive_loop table_ids reason
            (AList.delete table_id active_tables)
            (AList.update table_id
               (AList.update ''archive_reason'' (PReason reason) table) archived_tables)
            (archived_count + 1))"

definition archive_tables ::
  "string list \<Rightarrow> ArchiveReason \<Rightarrow> store \<Rightarrow> (py_error + int) \<times> store" where
  "archive_tables table_ids reason st =
     (case load_tables st of
        Inl e \<Rightarrow> (Inl e, st)
      | Inr (active_tables, archived_tables) \<Rightarrow>
          (case archive_loop table_ids reason active_tables archived_tables 0 of
             (active', archived', archived_count) \<Rightarrow>
               (if archived_count \<noteq> 0
                then (Inr archived_count, save_tables active' archived')
                else (Inr archived_count, st))))"

section \<open>The declared record types (types.py)\<close>

text \<open>
  \<open>PlayerEntry\<close> and \<open>TableData\<close> are \<open>TypedDict\<close>s: dictionaries with the declared
  keys. The records below are their typed reading. \<open>display_name\<close> is \<open>NotRequired\<close>:
  \<open>None\<close> is the absent key. The field \<open>id\<close> of \<open>PlayerEntry\<close> is \<open>player_id\<close> here.
\<close>

record PlayerEntry =
  player_id :: int
  joined_at :: string
  display_name :: "string option"

record TableData =
  system :: string
  infos :: string
  schedule :: string
  created_at :: "string option"
  max_players :: int
  players :: "PlayerEntry list"
  waitlist :: "PlayerEntry list"
  creator_id :: int
  message_id :: int
  channel_id :: int
  guild_id :: int
  archive_reason :: "ArchiveReason option"
  archived_at :: "string option"
  archived_by :: "int option"

text \<open>
  The dictionary of a typed value, with the keys in the order in which the code writes
  them (the literals in \<open>join_callback\<close> and \<open>NewTableModal.on_submit\<close>).
\<close>

definition entry_dict :: "PlayerEntry \<Rightarrow> pyval" where
  "entry_dict e =
     PDict ([(''id'', PInt (player_id e)), (''joined_at'', PStr (joined_at e))]
            @ (case display_name e of
                 None \<Rightarrow> []
               | Some n \<Rightarrow> [(''display_name'', PStr n)]))"

definition opt_str :: "string option \<Rightarrow> pyval" where
  "opt_str x = (case x of None \<Rightarrow> PNone | Some s \<Rightarrow> PStr s)"

definition opt_int :: "int option \<Rightarrow> pyval" where
  "opt_int x = (case x of None \<Rightarrow> PNone | Some i \<Rightarrow> PInt i)"

definition opt_reason :: "ArchiveReason option \<Rightarrow> pyval" where
  "opt_reason x = (case x of None \<Rightarrow> PNone | Some r \<Rightarrow> PReason r)"

definition table_dict :: "TableData \<Rightarrow> pydict" where
  "table_dict t =
     [(''system'', PStr (system t)),
      (''infos'', PStr (infos t)),
      (''schedule'', PStr (schedule t)),
      (''created_at'', opt_str (created_at t)),
      (''max_players'', PInt (max_players t)),
      (''players'', PList (map entry_dict (players t))),
      (''waitlist'', PList (map entry_dict (waitlist t))),
      (''creator_id'', PInt (creator_id t)),
      (''message_id'', PInt (message_id t)),
      (''channel_id'', PInt (channel_id t)),
      (''guild_id'', PInt (guild_id t)),
      (''archive_reason'', opt_reason (archive_reason t)),
      (''archived_at'', opt_str (archived_at t)),
      (''archived_by'', opt_int (archived_by t))]"

text \<open>A collection of typed records as a \<open>TablesDB\<close>.\<close>

definition typed_db :: "(string \<times> TableData) list \<Rightarrow> TablesDB" where
  "typed_db ts = map (\<lambda>(k, t). (k, table_dict t)) ts"

text \<open>
  The typed reading of a dictionary (\<open>cast(TableData, entry)\<close>): defined on the
  dictionaries that are \<open>table_dict\<close> of a record, and only there.
\<close>

fun as_str :: "pyval \<Rightarrow> string option" where
  "as_str (PStr s) = Some s"
| "as_str _ = None"

fun as_int :: "pyval \<Rightarrow> int option" where
  "as_int (PInt i) = Some i"
| "as_int _ = None"

fun as_opt_str :: "pyval \<Rightarrow> string option option" where
  "as_opt_str PNone = Some None"
| "as_opt_str (PStr s) = Some (Some s)"
| "as_opt_str _ = None"

fun as_opt_int :: "pyval \<Rightarrow> int option option" where
  "as_opt_int PNone = Some None"
| "as_opt_int (PInt i) = Some (Some i)"
| "as_opt_int _ = None"

fun as_opt_reason :: "pyval \<Rightarrow> ArchiveReason option option" where
  "as_opt_reason PNone = Some None"
| "as_opt_reason (PReason r) = Some (Some r)"
| "as_opt_reason _ = None"

definition as_entry :: "pyval \<Rightarrow> PlayerEntry option" where
  "as_entry v =
     (case v of
        PDict d \<Rightarrow>
          do {
            i \<leftarrow> map_of d ''id'' \<bind> as_int;
            j \<leftarrow> map_of d ''joined_at'' \<bind> as_str;
            n \<leftarrow> (case map_of d ''display_name'' of
                    None \<Rightarrow> Some None
                  | Some x \<Rightarrow> map_option Some (as_str x));
            (let e = \<lparr>player_id = i, joined_at = j, display_name = n\<rparr>
             in if entry_dict e = v then Some e else None)
          }
      | _ \<Rightarrow> None)"

definition as_entries :: "pyval \<Rightarrow> PlayerEntry list option" where
  "as_entries v = (case v of PList xs \<Rightarrow> those (map as_entry xs) | _ \<Rightarrow> None)"

definition as_table :: "pydict \<Rightarrow> TableData option" where
  "as_table d =
     do {
       v_system \<leftarrow> map_of d ''system'' \<bind> as_str;
       v_infos \<leftarrow> map_of d ''infos'' \<bind> as_str;
       v_schedule \<leftarrow> map_of d ''schedule'' \<bind> as_str;
       v_created_at \<leftarrow> map_of d ''created_at'' \<bind> as_opt_str;
       v_max_players \<leftarrow> map_of d ''max_players'' \<bind> as_int;
       v_players \<leftarrow> map_of d ''players'' \<bind> as_entries;
       v_waitlist \<leftarrow> map_of d ''waitlist'' \<bind> as_entries;
       v_creator_id \<leftarrow> map_of d ''creator_id'' \<bind> as_int;
       v_message_id \<leftarrow> map_of d ''message_id'' \<bind> as_int;
       v_channel_id \<leftarrow> map_of d ''channel_id'' \<bind> as_int;
       v_guild_id \<leftarrow> map_of d ''guild_id'' \<bind> as_int;
       v_archive_reason \<leftarrow> map_of d ''archive_reason'' \<bind> as_opt_reason;
       v_archived_at \<leftarrow> map_of d ''archived_at'' \<bind> as_opt_str;
       v_archived_by \<leftarrow> map_of d ''archived_by'' \<bind> as_opt_int;
       (let t = \<lparr>system = v_system, infos = v_infos, schedule = v_schedule,
                  created_at = v_created_at, max_players = v_max_players,
                  players = v_players, waitlist = v_waitlist,
                  creator_id = v_creator_id, message_id = v_message_id,
                  channel_id = v_channel_id, guild_id = v_guild_id,
                  archive_reason = v_archive_reason, archived_at = v_archived_at,
                  archived_by = v_archived_by\<rparr>
        in if table_dict t = d then Some t else None)
     }"

text \<open>
  What \<open>_write_json\<close> puts on disk for a typed record: the record's dictionary with
  the reason replaced by its value.
\<close>

definition disk_dict :: "TableData \<Rightarrow> pydict" where
  "disk_dict t = serializable_entry (table_dict t)"

definition disk_reason :: "ArchiveReason option \<Rightarrow> pyval" where
  "disk_reason x = (case x of None \<Rightarrow> PNone | Some r \<Rightarrow> PStr (reason_value r))"

text \<open>
  What \<open>save_tables\<close> does to the active collection, on typed records: every
  \<open>archive_reason\<close> is set to \<open>None\<close> before writing.
\<close>

definition clear_reason :: "TableData \<Rightarrow> TableData" where
  "clear_reason t = t\<lparr>archive_reason := None\<rparr>"

definition as_saved :: "(string \<times> TableData) list \<Rightarrow> (string \<times> TableData) list" where
  "as_saved ts = map (\<lambda>(k, t). (k, clear_reason t)) ts"

text \<open>The record of \<open>_sample_table()\<close> in tests/test_storage.py.\<close>

definition sample_table :: TableData where
  "sample_table =
     \<lparr>system = ''Test System'', infos = ''Test'', schedule = ''Soon'',
      created_at = Some ''2025-01-01T00:00:00Z'', max_players = 4, players = [],
      waitlist = [], creator_id = 123, message_id = 456, channel_id = 789,
      guild_id = 101112, archive_reason = None, archived_at = None, archived_by = None\<rparr>"

text \<open>
  The table of the specification's scenario: one seat, taken by user 1, with user 2 on
  the waitlist.
\<close>

definition full_table :: TableData where
  "full_table =
     sample_table\<lparr>max_players := 1,
       players := [\<lparr>player_id = 1, joined_at = ''2025-01-01T10:00:00+00:00'',
                    display_name = Some ''A''\<rparr>],
       waitlist := [\<lparr>player_id = 2, joined_at = ''2025-01-01T11:00:00+00:00'',
                     display_name = Some ''B''\<rparr>]\<rparr>"

text \<open>
  The table of the specification's second scenario: three seats, taken by users 1, 2
  and 3, who joined in that order.
\<close>

definition three_table :: TableData where
  "three_table =
     sample_table\<lparr>max_players := 3,
       players := [\<lparr>player_id = 1, joined_at = ''2025-01-01T10:00:00+00:00'',
                    display_name = Some ''A''\<rparr>,
                   \<lparr>player_id = 2, joined_at = ''2025-01-01T11:00:00+00:00'',
                    display_name = Some ''B''\<rparr>,
                   \<lparr>player_id = 3, joined_at = ''2025-01-01T12:00:00+00:00'',
                    display_name = Some ''C''\<rparr>]\<rparr>"

section \<open>The signup view (views.py)\<close>

text \<open>
  A callback returns what it told the user and leaves the store as written.
  \<open>Raised\<close> is an exception that left the callback. \<open>Untyped\<close> marks a run on a
  stored dictionary that is not a \<open>TableData\<close>: the callbacks are modelled on typed
  records only.
\<close>

datatype 'a reply = Raised py_error | Untyped | Reply 'a

text \<open>
  \<open>_populate_display_names\<close>: an entry whose cached name is missing or empty gets the
  name the platform resolves for its id, when it resolves to a non-empty one.
  \<open>resolve\<close> is the outcome of \<open>_resolve_display_name\<close> per user id.
\<close>

definition populate_entry :: "(int \<Rightarrow> string option) \<Rightarrow> PlayerEntry \<Rightarrow> PlayerEntry" where
  "populate_entry resolve entry =
     (if (case display_name entry of None \<Rightarrow> False | Some n \<Rightarrow> n \<noteq> []) then entry
      else (case resolve (player_id entry) of
              None \<Rightarrow> entry
            | Some name \<Rightarrow> if name \<noteq> [] then entry\<lparr>display_name := Some name\<rparr> else entry))"

definition populate_display_names :: "(int \<Rightarrow> string option) \<Rightarrow> TableData \<Rightarrow> TableData" where
  "populate_display_names resolve data =
     data\<lparr>players := map (populate_entry resolve) (players data),
          waitlist := map (populate_entry resolve) (waitlist data)\<rparr>"

datatype join_reply =
  NoLongerExists | AlreadySignedUp | AlreadyOnWaitlist | Waitlisted | Seated

text \<open>
  \<open>SignupView.join_callback\<close>. \<open>now\<close> is \<open>datetime.now(timezone.utc).isoformat()\<close>
  and \<open>user_display_name\<close> the display name of the interaction's user.
\<close>

definition join_callback ::
  "string \<Rightarrow> int \<Rightarrow> string \<Rightarrow> string \<Rightarrow> (int \<Rightarrow> string option) \<Rightarrow> store
    \<Rightarrow> join_reply reply \<times> store" where
  "join_callback table_id user_id user_display_name now resolve st =
     (case load_tables st of
        Inl e \<Rightarrow> (Raised e, st)
      | Inr (active_tables, archived_tables) \<Rightarrow>
          (case map_of active_tables table_id of
             None \<Rightarrow> (Reply NoLongerExists, st)
           | Some d \<Rightarrow>
               if d = [] then (Reply NoLongerExists, st)
               else
                 (case as_table d of
                    None \<Rightarrow> (Untyped, st)
                  | Some table_data \<Rightarrow>
                      if list_ex (\<lambda>entry. player_id entry = user_id) (players table_data)
                      then (Reply AlreadySignedUp, st)
                      else if list_ex (\<lambda>entry. player_id entry = user_id) (waitlist table_data)
                      then (Reply AlreadyOnWaitlist, st)
                      else if max_players table_data \<le> int (length (players table_data))
                      then
                        (let table_data' = populate_display_names resolve
                               (table_data\<lparr>waitlist := waitlist table_data @
                                  [\<lparr>player_id = user_id, joined_at = now,
                                    display_name = Some user_display_name\<rparr>]\<rparr>)
                         in (Reply Waitlisted,
                             save_tables
                               (AList.update table_id (table_dict table_data') active_tables)
                               archived_tables))
                      else
                        (let table_data' = populate_display_names resolve
                               (table_data\<lparr>players := players table_data @
                                  [\<lparr>player_id = user_id, joined_at = now,
                                    display_name = Some user_display_name\<rparr>]\<rparr>)
                         in (Reply Seated,
                             save_tables
                               (AList.update table_id (table_dict table_data') active_tables)
                               archived_tables)))))"

datatype leave_reply = NotSignedUp | LeftTable "PlayerEntry option" | LeftWaitlist

text \<open>
  \<open>SignupView.leave_callback\<close>. \<open>LeftTable promoted\<close> carries the entry moved from
  the waitlist into the table, if any.
\<close>

definition leave_callback ::
  "string \<Rightarrow> int \<Rightarrow> (int \<Rightarrow> string option) \<Rightarrow> store \<Rightarrow> leave_reply reply \<times> store" where
  "leave_callback table_id user_id resolve st =
     (case load_tables st of
        Inl e \<Rightarrow> (Raised e, st)
      | Inr (active_tables, archived_tables) \<Rightarrow>
          (case map_of active_tables table_id of
             None \<Rightarrow> (Reply NotSignedUp, st)
           | Some d \<Rightarrow>
               if d = [] then (Reply NotSignedUp, st)
               else
                 (case as_table d of
                    None \<Rightarrow> (Untyped, st)
                  | Some table_data \<Rightarrow>
                      if list_ex (\<lambda>entry. player_id entry = user_id) (players table_data)
                      then
                        (let remaining =
                               filter (\<lambda>entry. player_id entry \<noteq> user_id) (players table_data);
                             promoted =
                               (case waitlist table_data of [] \<Rightarrow> None | p # _ \<Rightarrow> Some p);
                             table_data' = populate_display_names resolve
                               (case waitlist table_data of
                                  [] \<Rightarrow> table_data\<lparr>players := remaining\<rparr>
                                | p # rest \<Rightarrow>
                                    table_data\<lparr>players := remaining @ [p], waitlist := rest\<rparr>)
                         in (Reply (LeftTable (map_option (populate_entry resolve) promoted)),
                             save_tables
                               (AList.update table_id (table_dict table_data') active_tables)
                               archived_tables))
                      else if list_ex (\<lambda>entry. player_id entry = user_id) (waitlist table_data)
                      then
                        (let table_data' = populate_display_names resolve
                               (table_data\<lparr>waitlist :=
                                  filter (\<lambda>entry. player_id entry \<noteq> user_id)
                                    (waitlist table_data)\<rparr>)
                         in (Reply LeftWaitlist,
                             save_tables
                               (AList.update table_id (table_dict table_data') active_tables)
                               archived_tables))
                      else (Reply NotSignedUp, st))))"

section \<open>The archive view (views.py)\<close>

datatype archive_reply =
  NotForYou | NoSelection | NoActionTaken | CannotBeArchived | NotAllowed | Archived

text \<open>
  \<open>ArchiveView.select_callback\<close>. \<open>self_user_id\<close> is the user the view was built for,
  \<open>selected\<close> the submitted \<open>values\<close> (empty when there are none), and
  \<open>has_permission\<close> the resolved \<open>manage_messages\<close> permission of the user in the
  table's channel, which the code looks up only for a user who is not the creator.
\<close>

definition select_callback ::
  "int \<Rightarrow> int \<Rightarrow> string list \<Rightarrow> bool \<Rightarrow> store \<Rightarrow> archive_reply reply \<times> store" where
  "select_callback self_user_id user_id selected has_permission st =
     (if user_id \<noteq> self_user_id then (Reply NotForYou, st)
      else
        (case selected of
           [] \<Rightarrow> (Reply NoSelection, st)
         | table_id # _ \<Rightarrow>
             if table_id = ''no_tables'' then (Reply NoActionTaken, st)
             else
               (case load_tables st of
                  Inl e \<Rightarrow> (Raised e, st)
                | Inr (active_tables, archived_tables) \<Rightarrow>
                    (case map_of active_tables table_id of
                       None \<Rightarrow> (Reply CannotBeArchived, st)
                     | Some d \<Rightarrow>
                         if d = [] then (Reply CannotBeArchived, st)
                         else
                           (case as_table d of
                              None \<Rightarrow> (Untyped, st)
                            | Some table_data \<Rightarrow>
                                if user_id \<noteq> creator_id table_data \<and> \<not> has_permission
                                then (Reply NotAllowed, st)
                                else
                                  (let reason =
                                         (if user_id \<noteq> creator_id table_data then MOD else OWNER);
                                       table_data' =
                                         table_data\<lparr>archive_reason := Some reason\<rparr>
                                   in (Reply Archived,
                                       save_tables
                                         (AList.delete table_id active_tables)
                                         (AList.update table_id (table_dict table_data')
                                            archived_tables))))))))"

section \<open>The modals (modals.py)\<close>

datatype form_error =
    InvalidMaxPlayers
  | SystemEmpty
  | ScheduleEmpty
  | InfosEmpty
  | SystemTooLong
  | ScheduleTooLong
  | InfosTooLong

text \<open>
  The checks both \<open>on_submit\<close> methods run, in their order. The text arguments are the
  stripped field values; \<open>max_players_input\<close> is the result of
  \<open>int(self.max_players.value.strip())\<close>, \<open>None\<close> when it raises \<open>ValueError\<close>.
\<close>

definition validate_form ::
  "string \<Rightarrow> string \<Rightarrow> string \<Rightarrow> int option \<Rightarrow> form_error + int" where
  "validate_form system_value schedule_value infos_value max_players_input =
     (case max_players_input of
        None \<Rightarrow> Inl InvalidMaxPlayers
      | Some max_players_int \<Rightarrow>
          if max_players_int \<le> 0 then Inl InvalidMaxPlayers
          else if max_players_int > 20 then Inl InvalidMaxPlayers
          else if system_value = [] then Inl SystemEmpty
          else if schedule_value = [] then Inl ScheduleEmpty
          else if infos_value = [] then Inl InfosEmpty
          else if length system_value > 100 then Inl SystemTooLong
          else if length schedule_value > 120 then Inl ScheduleTooLong
          else if length infos_value > 1024 then Inl InfosTooLong
          else Inr max_players_int)"

text \<open>
  Posting the signup card is the platform's work: the channel is not a text channel,
  the send fails, or the message is posted with its message and channel ids.
\<close>

datatype post = NotTextChannel | SendFailed | Posted int int

datatype create_reply = CreateRejected form_error | NotPosted | Created

text \<open>
  \<open>NewTableModal.on_submit\<close>. \<open>table_id\<close> is the fresh \<open>uuid4\<close> and \<open>guild_id\<close> is
  \<open>interaction.guild_id or 0\<close>.
\<close>

definition new_table_on_submit ::
  "string \<Rightarrow> int \<Rightarrow> int \<Rightarrow> string \<Rightarrow> string \<Rightarrow> string \<Rightarrow> string \<Rightarrow> int option \<Rightarrow> post
    \<Rightarrow> store \<Rightarrow> create_reply reply \<times> store" where
  "new_table_on_submit table_id user_id guild now system_value schedule_value infos_value
       max_players_input posted st =
     (case validate_form system_value schedule_value infos_value max_players_input of
        Inl err \<Rightarrow> (Reply (CreateRejected err), st)
      | Inr max_players_int \<Rightarrow>
          (case load_tables st of
             Inl e \<Rightarrow> (Raised e, st)
           | Inr (active_tables, archived_tables) \<Rightarrow>
               (case posted of
                  NotTextChannel \<Rightarrow> (Reply NotPosted, st)
                | SendFailed \<Rightarrow> (Reply NotPosted, st)
                | Posted message channel \<Rightarrow>
                    (let new_table =
                           \<lparr>system = system_value, infos = infos_value,
                            schedule = schedule_value, created_at = Some now,
                            max_players = max_players_int, players = [], waitlist = [],
                            creator_id = user_id, message_id = message, channel_id = channel,
                            guild_id = guild, archive_reason = None, archived_at = None,
                            archived_by = None\<rparr>
                     in (Reply Created,
                         save_tables
                           (AList.update table_id (table_dict new_table) active_tables)
                           archived_tables)))))"

text \<open>
  The loop \<open>while len(players) > max_players_int: moved_to_waitlist.append(players.pop())\<close>.
  It runs only for a limit that passed the checks, so the list is not empty when it pops.
\<close>

function pop_excess ::
  "int \<Rightarrow> PlayerEntry list \<Rightarrow> PlayerEntry list \<Rightarrow> PlayerEntry list \<times> PlayerEntry list" where
  "pop_excess max_players_int players' moved_to_waitlist =
     (if players' \<noteq> [] \<and> int (length players') > max_players_int
      then pop_excess max_players_int (butlast players') (moved_to_waitlist @ [last players'])
      else (players', moved_to_waitlist))"
  by pat_completeness auto
termination
  by (relation "measure (\<lambda>(m, ps, moved). length ps)") auto

declare pop_excess.simps [simp del]

datatype edit_reply = EditRejected form_error | NoLongerEditable | Updated "PlayerEntry list"

text \<open>
  \<open>EditTableModal.on_submit\<close>. \<open>Updated moved\<close> carries \<open>moved_to_waitlist\<close>, the
  entries the code notifies. \<open>list.sort\<close> is stable, as \<open>sort_key\<close> is; the keys are
  the \<open>joined_at\<close> strings, compared as strings.
\<close>

definition edit_on_submit ::
  "string \<Rightarrow> string \<Rightarrow> string \<Rightarrow> string \<Rightarrow> int option \<Rightarrow> store
    \<Rightarrow> edit_reply reply \<times> store" where
  "edit_on_submit table_id system_value schedule_value infos_value max_players_input st =
     (case validate_form system_value schedule_value infos_value max_players_input of
        Inl err \<Rightarrow> (Reply (EditRejected err), st)
      | Inr max_players_int \<Rightarrow>
          (case load_tables st of
             Inl e \<Rightarrow> (Raised e, st)
           | Inr (active_tables, archived_tables) \<Rightarrow>
               (case map_of active_tables table_id of
                  None \<Rightarrow> (Reply NoLongerEditable, st)
                | Some d \<Rightarrow>
                    if d = [] then (Reply NoLongerEditable, st)
                    else
                      (case as_table d of
                         None \<Rightarrow> (Untyped, st)
                       | Some table_data \<Rightarrow>
                           (let edited = table_data\<lparr>system := system_value,
                                  schedule := schedule_value, infos := infos_value,
                                  max_players := max_players_int\<rparr>;
                                popped = pop_excess max_players_int (players table_data) [];
                                moved_to_waitlist = snd popped;
                                table_data' =
                                  (if int (length (players table_data)) > max_players_int
                                   then edited\<lparr>players := fst popped,
                                          waitlist := sort_key joined_at
                                            (waitlist table_data @ moved_to_waitlist)\<rparr>
                                   else edited)
                            in (Reply (Updated moved_to_waitlist),
                                save_tables
                                  (AList.update table_id (table_dict table_data') active_tables)
                                  archived_tables))))))"

text \<open>
  A sequence of \<open>join_callback\<close> runs on one table; each run has its user, display
  name, clock reading and name resolution.
\<close>

fun join_all ::
  "string \<Rightarrow> (int \<times> string \<times> string \<times> (int \<Rightarrow> string option)) list \<Rightarrow> store \<Rightarrow> store" where
  "join_all table_id [] st = st"
| "join_all table_id ((user_id, user_display_name, now, resolve) # joins) st =
     join_all table_id joins
       (snd (join_callback table_id user_id user_display_name now resolve st))"

text \<open>
  The user ids and join stamps of a table, roster first, then waitlist.
\<close>

definition seat_order :: "TableData \<Rightarrow> (int \<times> string) list" where
  "seat_order t = map (\<lambda>entry. (player_id entry, joined_at entry)) (players t @ waitlist t)"

text \<open>The typed record stored under an id in the active partition, if there is one.\<close>

definition stored_table :: "store \<Rightarrow> string \<Rightarrow> TableData option" where
  "stored_table st table_id =
     (case load_tables st of
        Inl e \<Rightarrow> None
      | Inr (active_tables, archived_tables) \<Rightarrow>
          (case map_of active_tables table_id of None \<Rightarrow> None | Some d \<Rightarrow> as_table d))"

definition archived_table :: "store \<Rightarrow> string \<Rightarrow> TableData option" where
  "archived_table st table_id =
     (case load_tables st of
        Inl e \<Rightarrow> None
      | Inr (active_tables, archived_tables) \<Rightarrow>
          (case map_of archived_tables table_id of None \<Rightarrow> None | Some d \<Rightarrow> as_table d))"

text \<open>No user id occurs twice in the roster and the waitlist taken together.\<close>

definition no_double_signup :: "TableData \<Rightarrow> bool" where
  "no_double_signup t = distinct (map player_id (players t @ waitlist t))"

text \<open>
  The stores the bot can be in: it starts with no partition file, and tables are created,
  joined, left and edited through the callbacks, by any users, in any order.
\<close>

inductive reachable :: "store \<Rightarrow> bool" where
  initial: "reachable \<lparr>active_file = None, archived_file = None\<rparr>"
| create:
    "reachable st \<Longrightarrow>
     new_table_on_submit table_id user_id guild now system_value schedule_value infos_value
       max_players_input posted st = (r, st') \<Longrightarrow>
     reachable st'"
| join:
    "reachable st \<Longrightarrow>
     join_callback table_id user_id user_display_name now resolve st = (r, st') \<Longrightarrow>
     reachable st'"
| leave:
    "reachable st \<Longrightarrow> leave_callback table_id user_id resolve st = (r, st') \<Longrightarrow>
     reachable st'"
| edit:
    "reachable st \<Longrightarrow>
     edit_on_submit table_id system_value schedule_value infos_value max_players_input st
       = (r, st') \<Longrightarrow>
     reachable st'"

text \<open>
  The demotion order in the words of the specification: of the roster, the entries that
  joined most recently, the most recent first, as many as exceed the new capacity.
\<close>

definition spec_demoted :: "int \<Rightarrow> PlayerEntry list \<Rightarrow> PlayerEntry list" where
  "spec_demoted new_capacity roster =
     take (length roster - nat new_capacity) (rev (sort_key joined_at roster))"

text \<open>
  A run of the bot: a table with one seat is created; user 1 joins at 10:00 and is seated;
  user 2 joins at 11:00 and is put on the waitlist; the table is edited to three seats;
  user 3 joins at 12:00 and is seated; user 1 leaves, and user 2 is promoted.
\<close>

definition rejoined_store :: store where
  "rejoined_store =
     snd (leave_callback ''table-1'' 1 (map_of [])
       (snd (join_callback ''table-1'' 3 ''C'' ''2025-01-01T12:00:00+00:00'' (map_of [])
         (snd (edit_on_submit ''table-1'' ''Test System'' ''Soon'' ''Test'' (Some 3)
           (snd (join_callback ''table-1'' 2 ''B'' ''2025-01-01T11:00:00+00:00'' (map_of [])
             (snd (join_callback ''table-1'' 1 ''A'' ''2025-01-01T10:00:00+00:00'' (map_of [])
               (snd (new_table_on_submit ''table-1'' 123 101112 ''2025-01-01T00:00:00+00:00''
                  ''Test System'' ''Soon'' ''Test'' (Some 1) (Posted 456 789)
                  \<lparr>active_file = None, archived_file = None\<rparr>)))))))))))"


section \<open>Rate limiter: results\<close>

lemma popleft_while_ge:
  "popleft_while cutoff ts = t # rest \<Longrightarrow> cutoff \<le> t"
  by (induction ts) (auto split: if_splits)

lemma pow2_le_bound: "q < 2 ^ Suc n \<Longrightarrow> pow2_le q \<le> 2 ^ n"
proof (induction n arbitrary: q)
  case 0
  then show ?case by (subst pow2_le.simps) simp
next
  case (Suc n)
  show ?case
  proof (cases "q < 2")
    case True
    then show ?thesis by (subst pow2_le.simps) simp
  next
    case False
    from Suc.prems have "q div 2 < 2 ^ Suc n" by simp
    then have "pow2_le (q div 2) \<le> 2 ^ n" by (rule Suc.IH)
    with False show ?thesis by (subst pow2_le.simps) simp
  qed
qed

text \<open>
  Below \<open>2^34\<close> seconds the double never reaches the next whole second:
  \<open>int(td.total_seconds())\<close> is the number of whole seconds.
\<close>

lemma int_total_seconds_exact:
  assumes "0 \<le> d" and "d < 17179869184 * 1000000"
  shows "int_total_seconds d = d div 1000000"
proof -
  define q where "q = d div 1000000"
  define m where "m = d mod 1000000"
  have q0: "0 \<le> q" using assms(1) by (simp add: q_def)
  have e: "d = q * 1000000 + m" by (simp add: q_def m_def)
  have m0: "0 \<le> m" by (simp add: m_def)
  have "q * 1000000 < 17179869184 * 1000000" using e m0 assms(2) by linarith
  then have "q < 17179869184" by simp
  then have "nat q < 2 ^ Suc 33" using q0 by simp
  then have "pow2_le (nat q) \<le> 2 ^ 33" by (rule pow2_le_bound)
  then have p: "int (pow2_le (nat q)) \<le> 8589934592" by simp
  have "m < 1000000" by (simp add: m_def)
  then have "1 \<le> 1000000 - m" by simp
  then have "(1::int) * 2 ^ 53 \<le> (1000000 - m) * 2 ^ 53"
    by (intro mult_right_mono) simp_all
  moreover have "1000000 * int (pow2_le (nat q)) \<le> 1000000 * 8589934592"
    using p by simp
  ultimately have "\<not> (1000000 - m) * 2 ^ 53 < 1000000 * int (pow2_le (nat q))"
    by simp
  then show ?thesis
    using assms(1) by (simp add: int_total_seconds_def Let_def q_def m_def)
qed

lemma check_rate_limit_denied:
  assumes "map_of d key = Some ts"
    and "popleft_while (now - timedelta w) ts = oldest # rest"
    and "m \<le> int (length (oldest # rest))"
    and "\<not> timedelta_overflows w"
    and "oldest + timedelta w - now < 17179869184 * 1000000"
  shows "check_rate_limit (m, w) d key now =
           (Inr (False, (oldest + timedelta w - now) div 1000000),
            AList.update key (oldest # rest) d)"
proof -
  from assms(2) have "now - timedelta w \<le> oldest" by (rule popleft_while_ge)
  then have n: "0 \<le> oldest + timedelta w - now" by simp
  then have "0 \<le> (oldest + timedelta w - now) div 1000000" by simp
  then have "max 0 (int_total_seconds (oldest + timedelta w - now))
      = (oldest + timedelta w - now) div 1000000"
    by (simp only: int_total_seconds_exact [OF n assms(5)] max_def if_True)
  with assms(1-4) show ?thesis
    by (simp add: check_rate_limit_def Let_def)
qed

lemma div_bounds:
  fixes r :: int
  assumes "0 \<le> r"
  shows "0 \<le> r div 1000000 \<and> r div 1000000 * 1000000 \<le> r \<and> r < (r div 1000000 + 1) * 1000000"
proof -
  define q where "q = r div 1000000"
  define m where "m = r mod 1000000"
  have e: "r = q * 1000000 + m" by (simp add: q_def m_def)
  have m: "0 \<le> m" "m < 1000000" by (simp_all add: m_def)
  have a: "q * 1000000 \<le> r" using e m by linarith
  have b: "r < (q + 1) * 1000000" using e m by (simp add: algebra_simps)
  have c: "0 \<le> q" using assms by (simp add: q_def)
  from a b c show ?thesis by (simp add: q_def)
qed

text \<open>
  C5, as the code has it: when the pruned window of a key already holds at least
  \<open>max_commands\<close> (a positive number) timestamps, the window is one that
  \<open>timedelta\<close> accepts, the datetimes \<open>now - window\<close> and \<open>oldest + window\<close> are in
  Python's range, and the remaining time \<open>oldest + window - now\<close> is below \<open>2^34\<close>
  seconds (about 544 years; from there on the float of \<open>total_seconds()\<close> can round
  up to the next second), both checks deny, keep the pruned window, and report the
  remaining time truncated to whole seconds: the wait is never negative and
  \<open>wait s \<le> remaining < (wait + 1) s\<close>, so a remainder that is not a whole number
  of seconds is reported as the integer below it.
\<close>

theorem rate_limit_denied_wait_truncates:
  assumes "0 < max_commands"
    and "map_of d key = Some ts"
    and "pruned = popleft_while (now - timedelta window_seconds) ts"
    and "max_commands \<le> int (length pruned)"
    and "remaining = hd pruned + timedelta window_seconds - now"
    and "wait = remaining div 1000000"
    and "\<not> timedelta_overflows window_seconds"
    and "is_datetime (now - timedelta window_seconds)"
    and "is_datetime (hd pruned + timedelta window_seconds)"
    and "remaining < 17179869184 * 1000000"
  shows "check_user_rate_limit (max_commands, window_seconds)
             \<lparr>user_rate_limits = d, guild_rate_limits = g\<rparr> key now
           = (Inr (False, wait),
              \<lparr>user_rate_limits = AList.update key pruned d, guild_rate_limits = g\<rparr>)
       \<and> check_guild_rate_limit (max_commands, window_seconds)
             \<lparr>user_rate_limits = u, guild_rate_limits = d\<rparr> key now
           = (Inr (False, wait),
              \<lparr>user_rate_limits = u, guild_rate_limits = AList.update key pruned d\<rparr>)
       \<and> 0 \<le> wait \<and> wait * 1000000 \<le> remaining \<and> remaining < (wait + 1) * 1000000"
proof -
  from assms(1,4) obtain oldest rest where p: "pruned = oldest # rest"
    by (cases pruned) auto
  have pw: "popleft_while (now - timedelta window_seconds) ts = oldest # rest"
    using p assms(3) by simp
  have len: "max_commands \<le> int (length (oldest # rest))"
    using p assms(4) by simp
  have r: "remaining = oldest + timedelta window_seconds - now"
    using p assms(5) by simp
  have b: "oldest + timedelta window_seconds - now < 17179869184 * 1000000"
    using assms(10) unfolding r .
  have den: "check_rate_limit (max_commands, window_seconds) d key now =
      (Inr (False, wait), AList.update key pruned d)"
    unfolding assms(6) r p
    by (rule check_rate_limit_denied [OF assms(2) pw len assms(7) b])
  have "now - timedelta window_seconds \<le> oldest"
    using pw by (rule popleft_while_ge)
  then have nonneg: "0 \<le> remaining" unfolding r by simp
  have bounds: "0 \<le> wait \<and> wait * 1000000 \<le> remaining \<and> remaining < (wait + 1) * 1000000"
    unfolding assms(6) using nonneg by (rule div_bounds)
  have u: "check_user_rate_limit (max_commands, window_seconds)
             \<lparr>user_rate_limits = d, guild_rate_limits = g\<rparr> key now
           = (Inr (False, wait),
              \<lparr>user_rate_limits = AList.update key pruned d, guild_rate_limits = g\<rparr>)"
    by (simp add: check_user_rate_limit_def den)
  have gd: "check_guild_rate_limit (max_commands, window_seconds)
             \<lparr>user_rate_limits = u, guild_rate_limits = d\<rparr> key now
           = (Inr (False, wait),
              \<lparr>user_rate_limits = u, guild_rate_limits = AList.update key pruned d\<rparr>)"
    by (simp add: check_guild_rate_limit_def den)
  from u gd bounds show ?thesis by blast
qed

text \<open>
  C5 at a concrete input: one admitted timestamp at time 0, one command per 10 seconds,
  a check 1.5 seconds later; 8.5 seconds remain and the wait reported is 8.
\<close>

theorem rate_limit_denied_wait_truncates_witness:
  "check_user_rate_limit (1, 10) \<lparr>user_rate_limits = [(7, [0])], guild_rate_limits = []\<rparr>
       7 1500000
     = (Inr (False, 8), \<lparr>user_rate_limits = [(7, [0])], guild_rate_limits = []\<rparr>)
   \<and> check_guild_rate_limit (1, 10) \<lparr>user_rate_limits = [], guild_rate_limits = [(7, [0])]\<rparr>
       7 1500000
     = (Inr (False, 8), \<lparr>user_rate_limits = [], guild_rate_limits = [(7, [0])]\<rparr>)"
proof -
  have h1: "(0::int) < 1" by simp
  have h2: "map_of [(7::int, [0::int])] 7 = Some [0]" by simp
  have h3: "[0] = popleft_while (1500000 - timedelta 10) [0]" by (simp add: timedelta_def)
  have h4: "(1::int) \<le> int (length [0::int])" by simp
  have h5: "(8500000::int) = hd [0] + timedelta 10 - 1500000" by (simp add: timedelta_def)
  have h6: "(8::int) = 8500000 div 1000000" by simp
  have h7: "\<not> timedelta_overflows 10" by (simp add: timedelta_overflows_def)
  have h8: "is_datetime (1500000 - timedelta 10)"
    by (simp add: is_datetime_def datetime_min_def datetime_max_def timedelta_def)
  have h9: "is_datetime (hd [0] + timedelta 10)"
    by (simp add: is_datetime_def datetime_min_def datetime_max_def timedelta_def)
  have h10: "(8500000::int) < 17179869184 * 1000000" by simp
  from rate_limit_denied_wait_truncates [OF h1 h2 h3 h4 h5 h6 h7 h8 h9 h10, of "[]" "[]"]
  show ?thesis by simp
qed

text \<open>
  C5, as the specification states it, fails at that input: the code reports 8 where
  the remaining time rounded up is 9.
\<close>

theorem rate_limit_wait_not_ceiling:
  "fst (check_user_rate_limit (1, 10)
          \<lparr>user_rate_limits = [(7, [0])], guild_rate_limits = []\<rparr> 7 1500000)
     = Inr (False, 8)
   \<and> spec_wait_seconds 0 10 1500000 = 9"
proof -
  have h2: "map_of [(7::int, [0::int])] 7 = Some [0]" by simp
  have h3: "popleft_while (1500000 - timedelta 10) [0] = 0 # []" by (simp add: timedelta_def)
  have h4: "(1::int) \<le> int (length (0 # ([]::int list)))" by simp
  have h7: "\<not> timedelta_overflows 10" by (simp add: timedelta_overflows_def)
  have h10: "0 + timedelta 10 - 1500000 < 17179869184 * 1000000" by (simp add: timedelta_def)
  have "check_rate_limit (1, 10) [(7, [0])] 7 1500000
      = (Inr (False, (0 + timedelta 10 - 1500000) div 1000000), AList.update 7 (0 # []) [(7, [0])])"
    by (rule check_rate_limit_denied [OF h2 h3 h4 h7 h10])
  then have "fst (check_user_rate_limit (1, 10)
          \<lparr>user_rate_limits = [(7, [0])], guild_rate_limits = []\<rparr> 7 1500000)
     = Inr (False, 8)"
    by (simp add: check_user_rate_limit_def timedelta_def)
  moreover have "spec_wait_seconds 0 10 1500000 = 9"
    by (simp add: spec_wait_seconds_def timedelta_def)
  ultimately show ?thesis by simp
qed

lemma check_rate_limit_allowed:
  assumes "ts = (case map_of d key of None \<Rightarrow> [] | Some xs \<Rightarrow> xs)"
    and "int (length (popleft_while (now - timedelta w) ts)) < m"
    and "\<not> timedelta_overflows w"
  shows "check_rate_limit (m, w) d key now =
           (Inr (True, 0), AList.update key (popleft_while (now - timedelta w) ts @ [now]) d)"
  using assms by (simp add: check_rate_limit_def Let_def)

lemma length_popleft_while: "length (popleft_while c ts) \<le> length ts"
  by (induction ts) auto

lemma ten_seconds_fit: "\<not> timedelta_overflows 10"
  by (simp add: timedelta_overflows_def)

text \<open>
  C8: with \<open>max_commands = 2\<close> and a window of 10 seconds, on a key with no recorded
  timestamps: checks at \<open>t1 \<le> t2\<close> are both allowed; a third check at \<open>t3\<close> with
  \<open>t2 \<le> t3 \<le> t1 + 10 s\<close> is denied with a wait that is not negative; a fourth check
  at \<open>t4 > t1 + 10 s\<close>, after the window has fully elapsed since the oldest admitted
  timestamp, is allowed again.
\<close>

theorem rate_limit_two_per_ten_seconds:
  assumes fresh: "map_of (user_rate_limits s0) k = None"
    and c1: "check_user_rate_limit (2, 10) s0 k t1 = (r1, s1)"
    and c2: "check_user_rate_limit (2, 10) s1 k t2 = (r2, s2)"
    and c3: "check_user_rate_limit (2, 10) s2 k t3 = (r3, s3)"
    and c4: "check_user_rate_limit (2, 10) s3 k t4 = (r4, s4)"
    and t12: "t1 \<le> t2" and t23: "t2 \<le> t3"
    and within: "t3 \<le> t1 + timedelta 10"
    and elapsed: "t1 + timedelta 10 < t4"
  shows "r1 = Inr (True, 0) \<and> r2 = Inr (True, 0)
       \<and> r3 = Inr (False, (t1 + timedelta 10 - t3) div 1000000)
       \<and> 0 \<le> (t1 + timedelta 10 - t3) div 1000000
       \<and> r4 = Inr (True, 0)"
proof -
  let ?u = "user_rate_limits"
  have e0: "[] = (case map_of (?u s0) k of None \<Rightarrow> [] | Some xs \<Rightarrow> xs)"
    using fresh by simp
  have l0: "int (length (popleft_while (t1 - timedelta 10) [])) < 2" by simp
  have a1: "check_rate_limit (2, 10) (?u s0) k t1 =
      (Inr (True, 0), AList.update k [t1] (?u s0))"
    using check_rate_limit_allowed [OF e0 l0 ten_seconds_fit] by simp
  from c1 a1 have r1: "r1 = Inr (True, 0)" and s1: "map_of (?u s1) k = Some [t1]"
    by (auto simp: check_user_rate_limit_def update_conv')
  have p2: "popleft_while (t2 - timedelta 10) [t1] = [t1]"
    using t23 within by simp
  have e1: "[t1] = (case map_of (?u s1) k of None \<Rightarrow> [] | Some xs \<Rightarrow> xs)"
    using s1 by simp
  have l1: "int (length (popleft_while (t2 - timedelta 10) [t1])) < 2"
    by (simp only: p2) simp
  have a2: "check_rate_limit (2, 10) (?u s1) k t2 =
      (Inr (True, 0), AList.update k [t1, t2] (?u s1))"
    by (simp only: check_rate_limit_allowed [OF e1 l1 ten_seconds_fit] p2 append_Cons append_Nil)
  from c2 a2 have r2: "r2 = Inr (True, 0)" and s2: "map_of (?u s2) k = Some [t1, t2]"
    by (auto simp: check_user_rate_limit_def update_conv')
  have p3: "popleft_while (t3 - timedelta 10) [t1, t2] = t1 # [t2]"
    using within by simp
  have b3: "t1 + timedelta 10 - t3 < 17179869184 * 1000000"
    using t12 t23 by (simp add: timedelta_def)
  have l3: "(2::int) \<le> int (length (t1 # [t2]))" by simp
  have a3: "check_rate_limit (2, 10) (?u s2) k t3 =
      (Inr (False, (t1 + timedelta 10 - t3) div 1000000), AList.update k (t1 # [t2]) (?u s2))"
    by (rule check_rate_limit_denied [OF s2 p3 l3 ten_seconds_fit b3])
  from c3 a3 have r3: "r3 = Inr (False, (t1 + timedelta 10 - t3) div 1000000)"
    and s3: "map_of (?u s3) k = Some [t1, t2]"
    by (auto simp: check_user_rate_limit_def update_conv')
  have w: "0 \<le> (t1 + timedelta 10 - t3) div 1000000"
    using within by simp
  have p4: "popleft_while (t4 - timedelta 10) [t1, t2] = popleft_while (t4 - timedelta 10) [t2]"
    using elapsed by simp
  have "length (popleft_while (t4 - timedelta 10) [t2]) \<le> length [t2]"
    by (rule length_popleft_while)
  with p4 have l4: "int (length (popleft_while (t4 - timedelta 10) [t1, t2])) < 2"
    by simp
  have e3: "[t1, t2] = (case map_of (?u s3) k of None \<Rightarrow> [] | Some xs \<Rightarrow> xs)"
    using s3 by simp
  have a4: "fst (check_rate_limit (2, 10) (?u s3) k t4) = Inr (True, 0)"
    by (simp only: check_rate_limit_allowed [OF e3 l4 ten_seconds_fit] fst_conv)
  from c4 a4 have r4: "r4 = Inr (True, 0)"
    by (auto simp: check_user_rate_limit_def split: prod.splits)
  from r1 r2 r3 w r4 show ?thesis by simp
qed

text \<open>C8 at the times 0 s, 1 s, 2 s and 10.000001 s, as in the repository's test.\<close>

theorem rate_limit_two_per_ten_seconds_witness:
  "check_user_rate_limit (2, 10) \<lparr>user_rate_limits = [], guild_rate_limits = []\<rparr> 1 0
     = (Inr (True, 0), \<lparr>user_rate_limits = [(1, [0])], guild_rate_limits = []\<rparr>)
   \<and> check_user_rate_limit (2, 10) \<lparr>user_rate_limits = [(1, [0])], guild_rate_limits = []\<rparr>
         1 1000000
     = (Inr (True, 0), \<lparr>user_rate_limits = [(1, [0, 1000000])], guild_rate_limits = []\<rparr>)
   \<and> check_user_rate_limit (2, 10)
         \<lparr>user_rate_limits = [(1, [0, 1000000])], guild_rate_limits = []\<rparr> 1 2000000
     = (Inr (False, 8), \<lparr>user_rate_limits = [(1, [0, 1000000])], guild_rate_limits = []\<rparr>)
   \<and> check_user_rate_limit (2, 10)
         \<lparr>user_rate_limits = [(1, [0, 1000000])], guild_rate_limits = []\<rparr> 1 10000001
     = (Inr (True, 0),
        \<lparr>user_rate_limits = [(1, [1000000, 10000001])], guild_rate_limits = []\<rparr>)"
proof -
  let ?s0 = "\<lparr>user_rate_limits = [], guild_rate_limits = []\<rparr>"
  let ?s1 = "\<lparr>user_rate_limits = [(1::int, [0::int])], guild_rate_limits = []\<rparr>"
  let ?s2 = "\<lparr>user_rate_limits = [(1::int, [0::int, 1000000])], guild_rate_limits = []\<rparr>"
  let ?s4 = "\<lparr>user_rate_limits = [(1::int, [1000000::int, 10000001])], guild_rate_limits = []\<rparr>"
  have f: "map_of (user_rate_limits ?s0) (1::int) = None" by simp
  have c1: "check_user_rate_limit (2, 10) ?s0 1 0 = (Inr (True, 0), ?s1)"
    by (simp add: check_user_rate_limit_def check_rate_limit_def Let_def timedelta_def
        timedelta_overflows_def)
  have c2: "check_user_rate_limit (2, 10) ?s1 1 1000000 = (Inr (True, 0), ?s2)"
    by (simp add: check_user_rate_limit_def check_rate_limit_def Let_def timedelta_def
        timedelta_overflows_def)
  have m3: "map_of [(1::int, [0::int, 1000000])] 1 = Some [0, 1000000]" by simp
  have p3: "popleft_while (2000000 - timedelta 10) [0, 1000000] = 0 # [1000000]"
    by (simp add: timedelta_def)
  have l3: "(2::int) \<le> int (length (0 # [1000000::int]))" by simp
  have b3: "0 + timedelta 10 - 2000000 < 17179869184 * 1000000"
    by (simp add: timedelta_def)
  have d3: "check_rate_limit (2, 10) [(1, [0, 1000000])] 1 2000000
      = (Inr (False, (0 + timedelta 10 - 2000000) div 1000000),
         AList.update 1 (0 # [1000000]) [(1, [0, 1000000])])"
    by (rule check_rate_limit_denied [OF m3 p3 l3 ten_seconds_fit b3])
  have c3: "check_user_rate_limit (2, 10) ?s2 1 2000000 = (Inr (False, 8), ?s2)"
    by (simp add: check_user_rate_limit_def d3) (simp add: timedelta_def)
  have c4: "check_user_rate_limit (2, 10) ?s2 1 10000001 = (Inr (True, 0), ?s4)"
    by (simp add: check_user_rate_limit_def check_rate_limit_def Let_def timedelta_def
        timedelta_overflows_def)
  have t: "(0::int) \<le> 1000000" "(1000000::int) \<le> 2000000"
    "(2000000::int) \<le> 0 + timedelta 10" "(0::int) + timedelta 10 < 10000001"
    by (simp_all add: timedelta_def)
  from rate_limit_two_per_ten_seconds [OF f c1 c2 c3 c4 t] c1 c2 c3 c4
  show ?thesis by simp
qed


lemma pow2_le_pos: "0 < pow2_le q"
proof (induction q rule: pow2_le.induct)
  case (1 q)
  then show ?case by (subst pow2_le.simps) simp
qed

lemma pow2_le_lower: "2 ^ n \<le> q \<Longrightarrow> 2 ^ n \<le> pow2_le q"
proof (induction n arbitrary: q)
  case 0
  show ?case using pow2_le_pos [of q] by simp
next
  case (Suc n)
  have "(1::nat) \<le> 2 ^ n" by simp
  then have "(2::nat) \<le> 2 ^ Suc n" by simp
  with Suc.prems have q: "\<not> q < 2" by linarith
  from Suc.prems have "2 ^ n \<le> q div 2" by simp
  then have "2 ^ n \<le> pow2_le (q div 2)" by (rule Suc.IH)
  with q show ?case by (subst pow2_le.simps) simp
qed

text \<open>
  From \<open>2^34\<close> seconds on the double can reach the next whole second: for a duration
  of 20000000000 s less one microsecond, \<open>int(td.total_seconds())\<close> is 20000000000.
\<close>

lemma int_total_seconds_rounds_up:
  "int_total_seconds (20000000000 * 1000000 - 1) = 20000000000"
proof -
  have "(2::nat) ^ 34 \<le> pow2_le 19999999999" by (rule pow2_le_lower) simp
  then have "(17179869184::int) \<le> int (pow2_le 19999999999)" by simp
  then have "(1::int) * 2 ^ 53 < 1000000 * int (pow2_le 19999999999)" by simp
  then show ?thesis by (simp add: int_total_seconds_def Let_def)
qed

lemma check_rate_limit_window_overflow:
  "check_rate_limit (m, 86400000000000) d key now = (Inl OverflowError, d)"
  by (simp add: check_rate_limit_def timedelta_overflows_def)


section \<open>Storage: saving and loading typed records\<close>

lemma as_entry_entry_dict [simp]: "as_entry (entry_dict e) = Some e"
  by (cases e; cases "display_name e") (simp_all add: as_entry_def entry_dict_def)

lemma as_entries_map [simp]: "as_entries (PList (map entry_dict es)) = Some es"
  by (induction es) (simp_all add: as_entries_def)

lemma as_table_table_dict [simp]: "as_table (table_dict t) = Some t"
  by (cases t; cases "created_at t"; cases "archive_reason t"; cases "archived_at t"; cases "archived_by t")
     (simp_all add: as_table_def table_dict_def opt_str_def opt_int_def opt_reason_def)

lemma as_table_Some: "as_table d = Some t \<Longrightarrow> d = table_dict t"
  by (auto simp: as_table_def Let_def split: bind_splits if_splits)



lemma update_new: "k \<notin> fst ` set d \<Longrightarrow> AList.update k v d = d @ [(k, v)]"
  by (induction d) auto

lemma ArchiveReason_of_value: "ArchiveReason_of (PStr (reason_value r)) = Inr r"
  by (cases r) simp_all

lemma json_dump_entry_dict [simp]: "json_dump (entry_dict e) = entry_dict e"
  by (cases "display_name e") (simp_all add: entry_dict_def)

lemma json_dump_entries [simp]: "map json_dump (map entry_dict es) = map entry_dict es"
  by (induction es) simp_all


lemma disk_dict_eq:
  "disk_dict t = AList.update ''archive_reason'' (disk_reason (archive_reason t)) (table_dict t)"
  by (cases "archive_reason t")
     (simp_all add: disk_dict_def serializable_entry_def table_dict_def opt_reason_def
        disk_reason_def)

lemma json_dump_disk_dict [simp]: "map (map_prod id json_dump) (disk_dict t) = disk_dict t"
  by (cases "archive_reason t"; cases "created_at t"; cases "archived_at t"; cases "archived_by t")
     (simp_all add: disk_dict_eq disk_reason_def table_dict_def opt_str_def opt_int_def)

lemma map_of_disk_reason:
  "map_of (disk_dict t) ''archive_reason'' = Some (disk_reason (archive_reason t))"
  by (simp add: disk_dict_eq table_dict_def)

lemma update_disk_reason:
  "AList.update ''archive_reason'' (opt_reason (archive_reason t)) (disk_dict t) = table_dict t"
  by (simp add: disk_dict_eq table_dict_def)

lemma read_disk_dict:
  "read_entries ((k, PDict (disk_dict t)) # raw) acc
     = read_entries raw (AList.update k (table_dict t) acc)"
proof (cases "archive_reason t")
  case None
  then show ?thesis
    using update_disk_reason [of t]
    by (simp add: map_of_disk_reason disk_reason_def opt_reason_def)
next
  case (Some r)
  then show ?thesis
    using update_disk_reason [of t]
    by (simp add: map_of_disk_reason disk_reason_def opt_reason_def ArchiveReason_of_value
        del: ArchiveReason_of.simps)
qed

lemma write_entries_typed:
  "distinct (map fst ts) \<Longrightarrow> fst ` set acc \<inter> fst ` set ts = {} \<Longrightarrow>
   write_entries (typed_db ts) acc = acc @ map (\<lambda>(k, t). (k, PDict (disk_dict t))) ts"
proof (induction ts arbitrary: acc)
  case Nil
  then show ?case by (simp add: typed_db_def)
next
  case (Cons p ts)
  obtain k t where p: "p = (k, t)" by (cases p)
  from Cons.prems p have knew: "k \<notin> fst ` set acc" by auto
  have "write_entries (typed_db (p # ts)) acc
      = write_entries (typed_db ts) (acc @ [(k, PDict (disk_dict t))])"
    using knew by (simp add: p typed_db_def update_new disk_dict_def)
  also have "\<dots> = (acc @ [(k, PDict (disk_dict t))]) @ map (\<lambda>(k, t). (k, PDict (disk_dict t))) ts"
    using Cons.prems p by (intro Cons.IH) auto
  finally show ?case by (simp add: p)
qed

lemma read_entries_typed:
  "distinct (map fst ts) \<Longrightarrow> fst ` set acc \<inter> fst ` set ts = {} \<Longrightarrow>
   read_entries (map (\<lambda>(k, t). (k, PDict (disk_dict t))) ts) acc = Inr (acc @ typed_db ts)"
proof (induction ts arbitrary: acc)
  case Nil
  then show ?case by (simp add: typed_db_def)
next
  case (Cons p ts)
  obtain k t where p: "p = (k, t)" by (cases p)
  from Cons.prems p have knew: "k \<notin> fst ` set acc" by auto
  have "read_entries (map (\<lambda>(k, t). (k, PDict (disk_dict t))) (p # ts)) acc
      = read_entries (map (\<lambda>(k, t). (k, PDict (disk_dict t))) ts) (acc @ [(k, table_dict t)])"
    using knew by (simp add: p read_disk_dict update_new del: read_entries.simps)
  also have "\<dots> = Inr ((acc @ [(k, table_dict t)]) @ typed_db ts)"
    using Cons.prems p by (intro Cons.IH) auto
  finally show ?case by (simp add: p typed_db_def)
qed

lemma map_dump_disk:
  "map (map_prod id json_dump) (map (\<lambda>(k, t). (k, PDict (disk_dict t))) ts)
     = map (\<lambda>(k, t). (k, PDict (disk_dict t))) ts"
  by (induction ts) (simp_all add: split_beta)

lemma read_write_typed:
  assumes "distinct (map fst ts)"
  shows "read_json (write_json (typed_db ts)) = Inr (typed_db ts)"
proof -
  have w: "write_entries (typed_db ts) [] = map (\<lambda>(k, t). (k, PDict (disk_dict t))) ts"
    using write_entries_typed [of ts "[]"] assms by simp
  have r: "read_entries (map (\<lambda>(k, t). (k, PDict (disk_dict t))) ts) [] = Inr (typed_db ts)"
    using read_entries_typed [of ts "[]"] assms by simp
  have "json_dump (PDict (write_entries (typed_db ts) []))
      = PDict (map (\<lambda>(k, t). (k, PDict (disk_dict t))) ts)"
    unfolding w json_dump.simps map_dump_disk ..
  then show ?thesis
    by (simp add: read_json_def write_json_def r)
qed


lemma update_reason_None:
  "AList.update ''archive_reason'' PNone (table_dict t) = table_dict (clear_reason t)"
  by (simp add: table_dict_def clear_reason_def opt_reason_def)

lemma normalize_active_typed:
  "distinct (map fst ts) \<Longrightarrow> fst ` set acc \<inter> fst ` set ts = {} \<Longrightarrow>
   normalize_active (typed_db ts) acc = acc @ typed_db (as_saved ts)"
proof (induction ts arbitrary: acc)
  case Nil
  then show ?case by (simp add: typed_db_def as_saved_def)
next
  case (Cons p ts)
  obtain k t where p: "p = (k, t)" by (cases p)
  from Cons.prems p have knew: "k \<notin> fst ` set acc" by auto
  have "normalize_active (typed_db (p # ts)) acc
      = normalize_active (typed_db ts) (acc @ [(k, table_dict (clear_reason t))])"
    using knew by (simp add: p typed_db_def update_new update_reason_None)
  also have "\<dots> = (acc @ [(k, table_dict (clear_reason t))]) @ typed_db (as_saved ts)"
    using Cons.prems p by (intro Cons.IH) auto
  finally show ?case by (simp add: p typed_db_def as_saved_def)
qed

lemma fst_as_saved [simp]: "map fst (as_saved ts) = map fst ts"
  by (induction ts) (auto simp: as_saved_def)

lemma load_save_typed:
  assumes "distinct (map fst active)" and "distinct (map fst archived)"
  shows "load_tables (save_tables (typed_db active) (typed_db archived))
           = Inr (typed_db (as_saved active), typed_db archived)"
proof -
  have n: "normalize_active (typed_db active) [] = typed_db (as_saved active)"
    using normalize_active_typed [of active "[]"] assms(1) by simp
  have d: "distinct (map fst (as_saved active))"
    using assms(1) by simp
  show ?thesis
    by (simp add: load_tables_def save_tables_def n read_write_typed [OF d]
        read_write_typed [OF assms(2)])
qed



section \<open>Storage: results\<close>

lemma as_saved_without_reason:
  "\<forall>(k, t) \<in> set active. archive_reason t = None \<Longrightarrow> as_saved active = active"
  by (induction active) (auto simp: as_saved_def clear_reason_def)

text \<open>
  C9: for collections of typed records (keys unique, as in a Python dictionary) in which
  no active record carries an archive reason (a reason is present exactly on archived
  records; no caller of \<open>save_tables\<close> passes an active record with one), saving and
  then loading gives back both collections exactly, every key of every dictionary
  included: the archive metadata \<open>archive_reason\<close>, \<open>archived_at\<close> and \<open>archived_by\<close>
  of the archived records, values that are \<open>None\<close>, and seat entries without a cached
  display name, which come back without the key \<open>display_name\<close>.
\<close>

theorem save_then_load:
  assumes "distinct (map fst active)" and "distinct (map fst archived)"
    and "\<forall>(k, t) \<in> set active. archive_reason t = None"
  shows "load_tables (save_tables (typed_db active) (typed_db archived))
           = Inr (typed_db active, typed_db archived)"
  using load_save_typed [OF assms(1,2)] as_saved_without_reason [OF assms(3)] by simp

text \<open>
  C9 at the collections of the repository's test, with two seat entries added to the
  archived record, one without a cached display name.
\<close>

theorem save_then_load_witness:
  "load_tables
     (save_tables
        (typed_db [(''table-1'', sample_table)])
        (typed_db [(''table-2'',
           sample_table\<lparr>players :=
               [\<lparr>player_id = 1, joined_at = ''2025-01-02T00:00:00+00:00'', display_name = None\<rparr>,
                \<lparr>player_id = 2, joined_at = ''2025-01-03T00:00:00+00:00'',
                 display_name = Some ''B''\<rparr>],
             archive_reason := Some OWNER, archived_at := Some ''2025-02-01T00:00:00+00:00'',
             archived_by := Some 123\<rparr>)]))
   = Inr (typed_db [(''table-1'', sample_table)],
          typed_db [(''table-2'',
           sample_table\<lparr>players :=
               [\<lparr>player_id = 1, joined_at = ''2025-01-02T00:00:00+00:00'', display_name = None\<rparr>,
                \<lparr>player_id = 2, joined_at = ''2025-01-03T00:00:00+00:00'',
                 display_name = Some ''B''\<rparr>],
             archive_reason := Some OWNER, archived_at := Some ''2025-02-01T00:00:00+00:00'',
             archived_by := Some 123\<rparr>)])"
proof -
  let ?a = "[(''table-1'', sample_table)]"
  let ?r = "[(''table-2'',
           sample_table\<lparr>players :=
               [\<lparr>player_id = 1, joined_at = ''2025-01-02T00:00:00+00:00'', display_name = None\<rparr>,
                \<lparr>player_id = 2, joined_at = ''2025-01-03T00:00:00+00:00'',
                 display_name = Some ''B''\<rparr>],
             archive_reason := Some OWNER, archived_at := Some ''2025-02-01T00:00:00+00:00'',
             archived_by := Some 123\<rparr>)]"
  have d1: "distinct (map fst ?a)" by simp
  have d2: "distinct (map fst ?r)" by simp
  have n: "\<forall>(k, t) \<in> set ?a. archive_reason t = None" by (simp add: sample_table_def)
  show ?thesis by (rule save_then_load [OF d1 d2 n])
qed

text \<open>
  The same on the dictionaries themselves: the absent key \<open>display_name\<close> of the first
  seat entry is absent after loading, while the keys whose value is \<open>None\<close> are present.
\<close>

lemma absent_display_name_stays_absent:
  "entry_dict \<lparr>player_id = 1, joined_at = ''2025-01-02T00:00:00+00:00'', display_name = None\<rparr>
     = PDict [(''id'', PInt 1), (''joined_at'', PStr ''2025-01-02T00:00:00+00:00'')]
   \<and> map_of (table_dict sample_table) ''archived_at'' = Some PNone"
  by (simp add: entry_dict_def table_dict_def sample_table_def opt_str_def)

text \<open>
  C6 fails on the code: a stored entry that is a dictionary without the key
  \<open>archive_reason\<close> makes \<open>_read_json\<close>, and with it \<open>load_tables\<close>, raise
  \<open>KeyError\<close>; an entry whose reason is not a value of \<open>ArchiveReason\<close> makes them raise
  \<open>ValueError\<close>. Neither entry is discarded, and an entry before it is lost with the load.
\<close>

theorem read_json_raises_on_malformed_entry:
  "read_json (Some (Doc (PDict [(''table-1'', PDict [(''system'', PStr ''Test System'')])])))
     = Inl KeyError
   \<and> load_tables
       \<lparr>active_file = Some (Doc (PDict
            [(''table-0'', PDict (disk_dict sample_table)),
             (''table-1'', PDict [(''system'', PStr ''Test System'')])])),
        archived_file = None\<rparr>
     = Inl KeyError
   \<and> read_json (Some (Doc (PDict [(''table-1'', PDict [(''archive_reason'', PStr ''EXPIRED'')])])))
     = Inl ValueError"
  by (simp add: read_json_def load_tables_def read_disk_dict del: read_entries.simps(2))
     simp



section \<open>Callbacks on a store of typed records\<close>

lemmas decode_simps = as_entry_entry_dict as_entries_map as_table_table_dict

lemma read_entries_distinct:
  "read_entries raw acc = Inr db \<Longrightarrow> distinct (map fst acc) \<Longrightarrow> distinct (map fst db)"
proof (induction raw acc rule: read_entries.induct)
  case (1 normalized)
  then show ?case by simp
next
  case (2 key entry raw normalized)
  from "2.prems" show ?case
    by (auto simp: distinct_update split: option.splits if_splits sum.splits
        intro: "2.IH"(1) "2.IH"(2))
qed simp_all

lemma read_json_distinct: "read_json f = Inr db \<Longrightarrow> distinct (map fst db)"
  by (auto simp: read_json_def split: option.splits file_content.splits pyval.splits
      dest: read_entries_distinct)

lemma fst_typed_db [simp]: "map fst (typed_db ts) = map fst ts"
  by (induction ts) (auto simp: typed_db_def)

lemma load_typed_distinct:
  assumes "load_tables st = Inr (typed_db a, typed_db r)"
  shows "distinct (map fst a)" and "distinct (map fst r)"
proof -
  from assms have "read_json (active_file st) = Inr (typed_db a)"
    and "read_json (archived_file st) = Inr (typed_db r)"
    by (auto simp: load_tables_def split: sum.splits)
  then have "distinct (map fst (typed_db a))" and "distinct (map fst (typed_db r))"
    by (auto dest: read_json_distinct)
  then show "distinct (map fst a)" and "distinct (map fst r)" by simp_all
qed

lemma typed_lookup: "map_of (typed_db ts) k = map_option table_dict (map_of ts k)"
  by (induction ts) (auto simp: typed_db_def)

lemma typed_update: "AList.update k (table_dict t) (typed_db ts) = typed_db (AList.update k t ts)"
  by (induction ts) (auto simp: typed_db_def)

lemma typed_delete: "AList.delete k (typed_db ts) = typed_db (AList.delete k ts)"
  by (induction ts) (auto simp: typed_db_def)

lemma table_dict_not_empty [simp]: "table_dict t \<noteq> []"
  by (simp add: table_dict_def)

lemma map_of_as_saved: "map_of (as_saved ts) k = map_option clear_reason (map_of ts k)"
  by (induction ts) (auto simp: as_saved_def)

lemma stored_after_save:
  assumes "distinct (map fst a)" and "distinct (map fst r)"
  shows "stored_table (save_tables (typed_db a) (typed_db r)) k
           = map_option clear_reason (map_of a k)"
    and "archived_table (save_tables (typed_db a) (typed_db r)) k = map_of r k"
  by (simp_all add: stored_table_def archived_table_def load_save_typed [OF assms] typed_lookup
      map_of_as_saved option.map_comp comp_def split: option.splits)

lemma stored_typed:
  assumes "load_tables st = Inr (typed_db a, typed_db r)"
  shows "stored_table st k = map_of a k"
  by (simp add: stored_table_def assms typed_lookup split: option.splits)

lemma join_callback_typed:
  assumes "load_tables st = Inr (typed_db a, typed_db r)" and "map_of a table_id = Some t"
  shows "join_callback table_id user_id name now resolve st =
     (if list_ex (\<lambda>entry. player_id entry = user_id) (players t)
      then (Reply AlreadySignedUp, st)
      else if list_ex (\<lambda>entry. player_id entry = user_id) (waitlist t)
      then (Reply AlreadyOnWaitlist, st)
      else if max_players t \<le> int (length (players t))
      then (Reply Waitlisted,
            save_tables
              (typed_db (AList.update table_id
                 (populate_display_names resolve
                    (t\<lparr>waitlist := waitlist t @
                        [\<lparr>player_id = user_id, joined_at = now, display_name = Some name\<rparr>]\<rparr>))
                 a))
              (typed_db r))
      else (Reply Seated,
            save_tables
              (typed_db (AList.update table_id
                 (populate_display_names resolve
                    (t\<lparr>players := players t @
                        [\<lparr>player_id = user_id, joined_at = now, display_name = Some name\<rparr>]\<rparr>))
                 a))
              (typed_db r)))"
  by (simp add: join_callback_def assms typed_lookup typed_update Let_def decode_simps)

lemma leave_callback_typed:
  assumes "load_tables st = Inr (typed_db a, typed_db r)" and "map_of a table_id = Some t"
  shows "leave_callback table_id user_id resolve st =
     (if list_ex (\<lambda>entry. player_id entry = user_id) (players t)
      then (Reply (LeftTable (map_option (populate_entry resolve)
                     (case waitlist t of [] \<Rightarrow> None | p # _ \<Rightarrow> Some p))),
            save_tables
              (typed_db (AList.update table_id
                 (populate_display_names resolve
                    (case waitlist t of
                       [] \<Rightarrow> t\<lparr>players := filter (\<lambda>entry. player_id entry \<noteq> user_id) (players t)\<rparr>
                     | p # rest \<Rightarrow>
                         t\<lparr>players := filter (\<lambda>entry. player_id entry \<noteq> user_id) (players t) @ [p],
                           waitlist := rest\<rparr>))
                 a))
              (typed_db r))
      else if list_ex (\<lambda>entry. player_id entry = user_id) (waitlist t)
      then (Reply LeftWaitlist,
            save_tables
              (typed_db (AList.update table_id
                 (populate_display_names resolve
                    (t\<lparr>waitlist := filter (\<lambda>entry. player_id entry \<noteq> user_id) (waitlist t)\<rparr>))
                 a))
              (typed_db r))
      else (Reply NotSignedUp, st))"
  by (simp add: leave_callback_def assms typed_lookup typed_update Let_def decode_simps)

lemma drop_snoc_last:
  assumes "n < length ps"
  shows "drop n ps = drop n (butlast ps) @ [last ps]"
proof -
  from assms have ne: "drop n ps \<noteq> []" by simp
  have "drop n ps = butlast (drop n ps) @ [last (drop n ps)]"
    by (rule append_butlast_last_id [OF ne, symmetric])
  also have "butlast (drop n ps) = drop n (butlast ps)"
    by (simp add: drop_butlast)
  also have "last (drop n ps) = last ps"
    using assms by (simp add: last_drop)
  finally show ?thesis .
qed

lemma pop_excess_eq:
  "0 \<le> m \<Longrightarrow> pop_excess m ps moved = (take (nat m) ps, moved @ rev (drop (nat m) ps))"
proof (induction m ps moved rule: pop_excess.induct)
  case (1 m ps moved)
  show ?case
  proof (cases "ps \<noteq> [] \<and> int (length ps) > m")
    case True
    from True "1.prems" have l: "nat m < length ps" by linarith
    have step: "pop_excess m ps moved = pop_excess m (butlast ps) (moved @ [last ps])"
      by (subst pop_excess.simps) (simp only: True if_True simp_thms)
    have ih: "pop_excess m (butlast ps) (moved @ [last ps])
        = (take (nat m) (butlast ps), (moved @ [last ps]) @ rev (drop (nat m) (butlast ps)))"
      by (rule "1.IH" [OF True "1.prems"])
    have t: "take (nat m) (butlast ps) = take (nat m) ps"
      using l by (simp add: take_butlast)
    have d: "drop (nat m) ps = drop (nat m) (butlast ps) @ [last ps]"
      using l by (rule drop_snoc_last)
    have "(moved @ [last ps]) @ rev (drop (nat m) (butlast ps)) = moved @ rev (drop (nat m) ps)"
      by (subst d) simp
    with step ih t show ?thesis by simp
  next
    case False
    have "pop_excess m ps moved = (ps, moved)"
      by (subst pop_excess.simps) (simp only: False if_False simp_thms)
    moreover from False "1.prems" have "length ps \<le> nat m" by (cases ps) auto
    ultimately show ?thesis by simp
  qed
qed



lemma validate_form_range:
  "validate_form sy sc inf1 mp = Inr m \<Longrightarrow> 1 \<le> m \<and> m \<le> 20 \<and> mp = Some m"
  by (auto simp: validate_form_def split: option.splits if_splits)

lemma edit_on_submit_typed:
  assumes "validate_form system_value schedule_value infos_value max_players_input = Inr m"
    and "load_tables st = Inr (typed_db a, typed_db r)"
    and "map_of a table_id = Some t"
  shows "edit_on_submit table_id system_value schedule_value infos_value max_players_input st =
     (Reply (Updated (rev (drop (nat m) (players t)))),
      save_tables
        (typed_db (AList.update table_id
           (if int (length (players t)) > m
            then t\<lparr>system := system_value, schedule := schedule_value, infos := infos_value,
                   max_players := m, players := take (nat m) (players t),
                   waitlist := sort_key joined_at (waitlist t @ rev (drop (nat m) (players t)))\<rparr>
            else t\<lparr>system := system_value, schedule := schedule_value, infos := infos_value,
                   max_players := m\<rparr>)
           a))
        (typed_db r))"
proof -
  from assms(1) have m: "0 \<le> m" using validate_form_range by fastforce
  have p: "pop_excess m (players t) [] = (take (nat m) (players t), rev (drop (nat m) (players t)))"
    using pop_excess_eq [OF m, of "players t" "[]"] by simp
  show ?thesis
    by (simp add: edit_on_submit_def assms typed_lookup Let_def decode_simps p
        typed_update [symmetric])
qed

lemma select_callback_typed:
  assumes "load_tables st = Inr (typed_db a, typed_db r)"
    and "map_of a table_id = Some t"
    and "table_id \<noteq> ''no_tables''"
  shows "select_callback user_id user_id (table_id # others) has_permission st =
     (if user_id \<noteq> creator_id t \<and> \<not> has_permission then (Reply NotAllowed, st)
      else (Reply Archived,
            save_tables
              (typed_db (AList.delete table_id a))
              (typed_db (AList.update table_id
                 (t\<lparr>archive_reason := Some (if user_id \<noteq> creator_id t then MOD else OWNER)\<rparr>)
                 r))))"
  by (simp add: select_callback_def assms typed_lookup Let_def decode_simps
      typed_update [symmetric] typed_delete [symmetric])

lemma update_reason_Some:
  "AList.update ''archive_reason'' (PReason reason) (table_dict t)
     = table_dict (t\<lparr>archive_reason := Some reason\<rparr>)"
  by (simp add: table_dict_def opt_reason_def)

lemma archive_tables_typed:
  assumes "load_tables st = Inr (typed_db a, typed_db r)"
    and "map_of a table_id = Some t"
  shows "archive_tables [table_id] reason st =
     (Inr 1,
      save_tables
        (typed_db (AList.delete table_id a))
        (typed_db (AList.update table_id (t\<lparr>archive_reason := Some reason\<rparr>) r)))"
  by (simp add: archive_tables_def assms typed_lookup update_reason_Some
      typed_update [symmetric] typed_delete [symmetric])

lemma new_table_on_submit_typed:
  assumes "validate_form system_value schedule_value infos_value max_players_input = Inr m"
    and "load_tables st = Inr (typed_db a, typed_db r)"
  shows "new_table_on_submit table_id user_id guild now system_value schedule_value infos_value
       max_players_input (Posted message channel) st =
     (Reply Created,
      save_tables
        (typed_db (AList.update table_id
           \<lparr>system = system_value, infos = infos_value, schedule = schedule_value,
            created_at = Some now, max_players = m, players = [], waitlist = [],
            creator_id = user_id, message_id = message, channel_id = channel,
            guild_id = guild, archive_reason = None, archived_at = None,
            archived_by = None\<rparr> a))
        (typed_db r))"
  by (simp add: new_table_on_submit_def assms Let_def typed_update [symmetric])

lemma load_after_save:
  assumes "distinct (map fst a)" and "distinct (map fst r)"
  shows "load_tables (save_tables (typed_db a) (typed_db r)) = Inr (typed_db (as_saved a), typed_db r)"
  by (rule load_save_typed [OF assms])

lemma load_initial:
  "load_tables \<lparr>active_file = None, archived_file = None\<rparr> = Inr (typed_db [], typed_db [])"
  by (simp add: load_tables_def read_json_def typed_db_def)



section \<open>Archiving: results\<close>

lemma moved_to_archive:
  assumes "distinct (map fst a)" and "distinct (map fst r)"
    and "st' = save_tables (typed_db (AList.delete table_id a))
                 (typed_db (AList.update table_id t' r))"
  shows "stored_table st' table_id = None" and "archived_table st' table_id = Some t'"
proof -
  have da: "distinct (map fst (AList.delete table_id a))"
    using assms(1) by (rule distinct_delete)
  have dr: "distinct (map fst (AList.update table_id t' r))"
    using assms(2) by (simp add: distinct_update)
  show "stored_table st' table_id = None"
    unfolding assms(3) stored_after_save(1) [OF da dr] by (simp add: delete_conv)
  show "archived_table st' table_id = Some t'"
    unfolding assms(3) stored_after_save(2) [OF da dr] by (simp add: update_conv')
qed

lemma select_callback_archives:
  assumes "load_tables st = Inr (typed_db active, typed_db archived)"
    and "map_of active table_id = Some t"
    and "table_id \<noteq> ''no_tables''"
    and "user_id = creator_id t \<or> has_permission"
  shows "fst (select_callback user_id user_id (table_id # others) has_permission st)
           = Reply Archived"
    and "stored_table (snd (select_callback user_id user_id (table_id # others) has_permission st))
           table_id = None"
    and "archived_table (snd (select_callback user_id user_id (table_id # others) has_permission st))
           table_id
           = Some (t\<lparr>archive_reason := Some (if user_id = creator_id t then OWNER else MOD)\<rparr>)"
proof -
  note d = load_typed_distinct [OF assms(1)]
  let ?t' = "t\<lparr>archive_reason := Some (if user_id = creator_id t then OWNER else MOD)\<rparr>"
  have e: "select_callback user_id user_id (table_id # others) has_permission st =
      (Reply Archived,
       save_tables (typed_db (AList.delete table_id active))
         (typed_db (AList.update table_id ?t' archived)))"
    using assms(4) by (auto simp: select_callback_typed [OF assms(1,2,3)])
  show "fst (select_callback user_id user_id (table_id # others) has_permission st)
           = Reply Archived"
    by (simp add: e)
  show "stored_table (snd (select_callback user_id user_id (table_id # others) has_permission st))
           table_id = None"
    by (rule moved_to_archive(1) [OF d]) (simp add: e)
  show "archived_table (snd (select_callback user_id user_id (table_id # others) has_permission st))
           table_id = Some ?t'"
    by (rule moved_to_archive(2) [OF d]) (simp add: e)
qed

lemma archive_tables_archives:
  assumes "load_tables st = Inr (typed_db active, typed_db archived)"
    and "map_of active table_id = Some t"
  shows "fst (archive_tables [table_id] reason st) = Inr 1"
    and "stored_table (snd (archive_tables [table_id] reason st)) table_id = None"
    and "archived_table (snd (archive_tables [table_id] reason st)) table_id
           = Some (t\<lparr>archive_reason := Some reason\<rparr>)"
proof -
  note d = load_typed_distinct [OF assms(1)]
  note e = archive_tables_typed [OF assms, of reason]
  show "fst (archive_tables [table_id] reason st) = Inr 1" by (simp add: e)
  show "stored_table (snd (archive_tables [table_id] reason st)) table_id = None"
    by (rule moved_to_archive(1) [OF d]) (simp add: e)
  show "archived_table (snd (archive_tables [table_id] reason st)) table_id
           = Some (t\<lparr>archive_reason := Some reason\<rparr>)"
    by (rule moved_to_archive(2) [OF d]) (simp add: e)
qed

lemma load_sample_store:
  "load_tables (save_tables (typed_db [(''table-1'', sample_table)]) (typed_db []))
     = Inr (typed_db [(''table-1'', sample_table)], typed_db [])"
proof -
  have d1: "distinct (map fst [(''table-1'', sample_table)])" by simp
  have d2: "distinct (map fst ([] :: (string \<times> TableData) list))" by simp
  show ?thesis
    using load_save_typed [OF d1 d2]
    by (simp add: as_saved_def clear_reason_def sample_table_def)
qed

text \<open>
  C1, as the code has it: on a store of typed records, for every active table and every
  actor permitted to archive it (the creator, or a user with the resolved moderation
  permission), \<open>ArchiveView.select_callback\<close> answers that the table is archived, the
  record is no longer in the active partition, and the archived partition holds it with
  \<open>archive_reason\<close> set (\<open>OWNER\<close> for the creator, \<open>MOD\<close> otherwise) and every other
  field, \<open>archived_at\<close> and \<open>archived_by\<close> included, as it was. \<open>archive_tables\<close> does
  the same with the reason it is given.
\<close>

theorem archive_moves_record_and_sets_reason:
  assumes "load_tables st = Inr (typed_db active, typed_db archived)"
    and "map_of active table_id = Some t"
    and "table_id \<noteq> ''no_tables''"
    and "user_id = creator_id t \<or> has_permission"
  shows "fst (select_callback user_id user_id (table_id # others) has_permission st)
           = Reply Archived
       \<and> stored_table (snd (select_callback user_id user_id (table_id # others) has_permission st))
           table_id = None
       \<and> archived_table (snd (select_callback user_id user_id (table_id # others) has_permission st))
           table_id
           = Some (t\<lparr>archive_reason := Some (if user_id = creator_id t then OWNER else MOD)\<rparr>)
       \<and> fst (archive_tables [table_id] reason st) = Inr 1
       \<and> stored_table (snd (archive_tables [table_id] reason st)) table_id = None
       \<and> archived_table (snd (archive_tables [table_id] reason st)) table_id
           = Some (t\<lparr>archive_reason := Some reason\<rparr>)"
  using select_callback_archives [OF assms] archive_tables_archives [OF assms(1,2)]
  by simp

text \<open>
  C1 at the store of the repository's test: the creator (user 123) archives
  \<open>table-1\<close>, and \<open>archive_tables\<close> archives it with the reason \<open>KICK\<close>.
\<close>

theorem archive_moves_record_and_sets_reason_witness:
  "fst (select_callback 123 123 [''table-1''] False
          (save_tables (typed_db [(''table-1'', sample_table)]) (typed_db [])))
     = Reply Archived
   \<and> stored_table
       (snd (select_callback 123 123 [''table-1''] False
          (save_tables (typed_db [(''table-1'', sample_table)]) (typed_db []))))
       ''table-1'' = None
   \<and> archived_table
       (snd (select_callback 123 123 [''table-1''] False
          (save_tables (typed_db [(''table-1'', sample_table)]) (typed_db []))))
       ''table-1'' = Some (sample_table\<lparr>archive_reason := Some OWNER\<rparr>)
   \<and> fst (archive_tables [''table-1''] KICK
          (save_tables (typed_db [(''table-1'', sample_table)]) (typed_db [])))
     = Inr 1
   \<and> archived_table
       (snd (archive_tables [''table-1''] KICK
          (save_tables (typed_db [(''table-1'', sample_table)]) (typed_db []))))
       ''table-1'' = Some (sample_table\<lparr>archive_reason := Some KICK\<rparr>)"
proof -
  have h2: "map_of [(''table-1'', sample_table)] ''table-1'' = Some sample_table" by simp
  have h3: "''table-1'' \<noteq> ''no_tables''" by simp
  have h4: "(123::int) = creator_id sample_table \<or> False" by (simp add: sample_table_def)
  from archive_moves_record_and_sets_reason [OF load_sample_store h2 h3 h4, of "[]" KICK]
  show ?thesis by (simp add: sample_table_def)
qed

text \<open>
  C1, as the specification states it, fails: after the creator archives the test's table,
  and after \<open>archive_tables\<close> archives it, the archived record has
  \<open>archived_at = None\<close> and \<open>archived_by = None\<close>.
\<close>

theorem archive_leaves_archived_at_and_by_null:
  "fst (select_callback 123 123 [''table-1''] False
          (save_tables (typed_db [(''table-1'', sample_table)]) (typed_db [])))
     = Reply Archived
   \<and> map_option archived_at
       (archived_table
          (snd (select_callback 123 123 [''table-1''] False
             (save_tables (typed_db [(''table-1'', sample_table)]) (typed_db []))))
          ''table-1'') = Some None
   \<and> map_option archived_by
       (archived_table
          (snd (select_callback 123 123 [''table-1''] False
             (save_tables (typed_db [(''table-1'', sample_table)]) (typed_db []))))
          ''table-1'') = Some None
   \<and> map_option archived_at
       (archived_table
          (snd (archive_tables [''table-1''] KICK
             (save_tables (typed_db [(''table-1'', sample_table)]) (typed_db []))))
          ''table-1'') = Some None
   \<and> map_option archived_by
       (archived_table
          (snd (archive_tables [''table-1''] KICK
             (save_tables (typed_db [(''table-1'', sample_table)]) (typed_db []))))
          ''table-1'') = Some None"
proof -
  have h2: "map_of [(''table-1'', sample_table)] ''table-1'' = Some sample_table" by simp
  have h3: "''table-1'' \<noteq> ''no_tables''" by simp
  have h4: "(123::int) = creator_id sample_table \<or> False" by (simp add: sample_table_def)
  from select_callback_archives [OF load_sample_store h2 h3 h4, of "[]"]
    archive_tables_archives [OF load_sample_store h2, of KICK]
  show ?thesis by (simp add: sample_table_def)
qed



section \<open>Rejected signups: results\<close>

lemma list_ex_ids:
  "list_ex (\<lambda>entry. player_id entry = u) es \<longleftrightarrow> u \<in> player_id ` set es"
  by (auto simp: list_ex_iff)

lemma as_table_not_empty: "as_table d = Some t \<Longrightarrow> d \<noteq> []"
  using as_table_Some [of d t] by auto

lemma join_rejected_unchanged:
  "fst (join_callback table_id user_id name now resolve st)
     \<in> {Reply NoLongerExists, Reply AlreadySignedUp, Reply AlreadyOnWaitlist}
   \<Longrightarrow> snd (join_callback table_id user_id name now resolve st) = st"
  by (auto simp: join_callback_def Let_def
      split: sum.splits option.splits prod.splits if_splits)

lemma leave_rejected_unchanged:
  "fst (leave_callback table_id user_id resolve st) = Reply NotSignedUp
   \<Longrightarrow> snd (leave_callback table_id user_id resolve st) = st"
  by (auto simp: leave_callback_def Let_def
      split: sum.splits option.splits prod.splits if_splits)

lemma rejected_replies:
  assumes "load_tables st = Inr (active, archived)"
  shows "map_of active table_id = None \<Longrightarrow>
           join_callback table_id user_id name now resolve st = (Reply NoLongerExists, st)
         \<and> leave_callback table_id user_id resolve st = (Reply NotSignedUp, st)"
    and "map_of active table_id = Some d \<Longrightarrow> as_table d = Some t \<Longrightarrow>
           user_id \<in> player_id ` set (players t) \<Longrightarrow>
           join_callback table_id user_id name now resolve st = (Reply AlreadySignedUp, st)"
    and "map_of active table_id = Some d \<Longrightarrow> as_table d = Some t \<Longrightarrow>
           user_id \<notin> player_id ` set (players t) \<Longrightarrow>
           user_id \<in> player_id ` set (waitlist t) \<Longrightarrow>
           join_callback table_id user_id name now resolve st = (Reply AlreadyOnWaitlist, st)"
    and "map_of active table_id = Some d \<Longrightarrow> as_table d = Some t \<Longrightarrow>
           user_id \<notin> player_id ` set (players t) \<Longrightarrow>
           user_id \<notin> player_id ` set (waitlist t) \<Longrightarrow>
           leave_callback table_id user_id resolve st = (Reply NotSignedUp, st)"
  using assms
  by (simp_all add: join_callback_def leave_callback_def list_ex_ids as_table_not_empty)


lemma load_full_store:
  "load_tables (save_tables (typed_db [(''table-1'', full_table)]) (typed_db []))
     = Inr (typed_db [(''table-1'', full_table)], typed_db [])"
proof -
  have d1: "distinct (map fst [(''table-1'', full_table)])" by simp
  have d2: "distinct (map fst ([] :: (string \<times> TableData) list))" by simp
  show ?thesis
    using load_save_typed [OF d1 d2]
    by (simp add: as_saved_def clear_reason_def full_table_def sample_table_def)
qed

text \<open>
  C10: a run of \<open>join_callback\<close> that answers that the table no longer exists or that
  the user is already signed up or already on the waitlist, and a run of
  \<open>leave_callback\<close> that answers that the user was not signed up, leave the store as
  it was: no partition file is written. These are the answers when the table id is not in
  the loaded active partition, when the actor is in the roster or on the waitlist (join),
  and when the actor is in neither (leave).
\<close>

theorem rejected_join_and_leave_do_not_save:
  "(fst (join_callback table_id user_id name now resolve st)
        \<in> {Reply NoLongerExists, Reply AlreadySignedUp, Reply AlreadyOnWaitlist}
      \<longrightarrow> snd (join_callback table_id user_id name now resolve st) = st)
   \<and> (fst (leave_callback table_id user_id resolve st) = Reply NotSignedUp
      \<longrightarrow> snd (leave_callback table_id user_id resolve st) = st)
   \<and> (load_tables st = Inr (active, archived) \<longrightarrow>
        (map_of active table_id = None \<longrightarrow>
           join_callback table_id user_id name now resolve st = (Reply NoLongerExists, st)
         \<and> leave_callback table_id user_id resolve st = (Reply NotSignedUp, st))
      \<and> (map_of active table_id = Some d \<and> as_table d = Some t \<longrightarrow>
           (user_id \<in> player_id ` set (players t) \<longrightarrow>
              join_callback table_id user_id name now resolve st = (Reply AlreadySignedUp, st))
         \<and> (user_id \<notin> player_id ` set (players t) \<and> user_id \<in> player_id ` set (waitlist t) \<longrightarrow>
              join_callback table_id user_id name now resolve st = (Reply AlreadyOnWaitlist, st))
         \<and> (user_id \<notin> player_id ` set (players t) \<and> user_id \<notin> player_id ` set (waitlist t) \<longrightarrow>
              leave_callback table_id user_id resolve st = (Reply NotSignedUp, st))))"
  using join_rejected_unchanged [of table_id user_id name now resolve st]
    leave_rejected_unchanged [of table_id user_id resolve st]
    rejected_replies(1-3) [where st = st and active = active and archived = archived
      and table_id = table_id and user_id = user_id and name = name and now = now
      and resolve = resolve]
    rejected_replies(4) [where st = st and active = active and archived = archived
      and table_id = table_id and user_id = user_id and resolve = resolve]
  by blast

text \<open>
  C10 on the store holding the one-seat table with user 1 seated and user 2 waiting:
  user 1 and user 2 try to join, user 3 tries to leave, and user 3 tries to join and to
  leave a table that is not stored.
\<close>

theorem rejected_join_and_leave_do_not_save_witness:
  "join_callback ''table-1'' 1 ''A'' ''2025-01-01T12:00:00+00:00'' Map.empty
       (save_tables (typed_db [(''table-1'', full_table)]) (typed_db []))
     = (Reply AlreadySignedUp, save_tables (typed_db [(''table-1'', full_table)]) (typed_db []))
   \<and> join_callback ''table-1'' 2 ''B'' ''2025-01-01T12:00:00+00:00'' Map.empty
       (save_tables (typed_db [(''table-1'', full_table)]) (typed_db []))
     = (Reply AlreadyOnWaitlist, save_tables (typed_db [(''table-1'', full_table)]) (typed_db []))
   \<and> leave_callback ''table-1'' 3 Map.empty
       (save_tables (typed_db [(''table-1'', full_table)]) (typed_db []))
     = (Reply NotSignedUp, save_tables (typed_db [(''table-1'', full_table)]) (typed_db []))
   \<and> join_callback ''table-9'' 3 ''C'' ''2025-01-01T12:00:00+00:00'' Map.empty
       (save_tables (typed_db [(''table-1'', full_table)]) (typed_db []))
     = (Reply NoLongerExists, save_tables (typed_db [(''table-1'', full_table)]) (typed_db []))
   \<and> leave_callback ''table-9'' 3 Map.empty
       (save_tables (typed_db [(''table-1'', full_table)]) (typed_db []))
     = (Reply NotSignedUp, save_tables (typed_db [(''table-1'', full_table)]) (typed_db []))"
proof -
  let ?st = "save_tables (typed_db [(''table-1'', full_table)]) (typed_db [])"
  let ?now = "''2025-01-01T12:00:00+00:00''"
  have m: "map_of (typed_db [(''table-1'', full_table)]) ''table-1'' = Some (table_dict full_table)"
    by (simp add: typed_db_def)
  have n: "map_of (typed_db [(''table-1'', full_table)]) ''table-9'' = None"
    by (simp add: typed_db_def)
  have a: "as_table (table_dict full_table) = Some full_table" by (rule as_table_table_dict)
  have p: "player_id ` set (players full_table) = {1}" "player_id ` set (waitlist full_table) = {2}"
    by (simp_all add: full_table_def)
  have j1: "join_callback ''table-1'' 1 ''A'' ?now Map.empty ?st = (Reply AlreadySignedUp, ?st)"
    using rejected_join_and_leave_do_not_save [where table_id = "''table-1''" and user_id = 1
        and name = "''A''" and now = ?now and resolve = Map.empty and st = ?st
        and active = "typed_db [(''table-1'', full_table)]" and archived = "typed_db []"
        and d = "table_dict full_table" and t = full_table]
      load_full_store m a p by simp
  have j2: "join_callback ''table-1'' 2 ''B'' ?now Map.empty ?st = (Reply AlreadyOnWaitlist, ?st)"
    using rejected_join_and_leave_do_not_save [where table_id = "''table-1''" and user_id = 2
        and name = "''B''" and now = ?now and resolve = Map.empty and st = ?st
        and active = "typed_db [(''table-1'', full_table)]" and archived = "typed_db []"
        and d = "table_dict full_table" and t = full_table]
      load_full_store m a p by simp
  have l3: "leave_callback ''table-1'' 3 Map.empty ?st = (Reply NotSignedUp, ?st)"
    using rejected_join_and_leave_do_not_save [where table_id = "''table-1''" and user_id = 3
        and name = "''C''" and now = ?now and resolve = Map.empty and st = ?st
        and active = "typed_db [(''table-1'', full_table)]" and archived = "typed_db []"
        and d = "table_dict full_table" and t = full_table]
      load_full_store m a p by simp
  have j9: "join_callback ''table-9'' 3 ''C'' ?now Map.empty ?st = (Reply NoLongerExists, ?st)
      \<and> leave_callback ''table-9'' 3 Map.empty ?st = (Reply NotSignedUp, ?st)"
    using rejected_join_and_leave_do_not_save [where table_id = "''table-9''" and user_id = 3
        and name = "''C''" and now = ?now and resolve = Map.empty and st = ?st
        and active = "typed_db [(''table-1'', full_table)]" and archived = "typed_db []"
        and d = "table_dict full_table" and t = full_table]
      load_full_store n by simp
  from j1 j2 l3 j9 show ?thesis by simp
qed



section \<open>Leaving a table: results\<close>

lemma stored_after_update:
  assumes "load_tables st = Inr (typed_db a, typed_db r)"
    and "st' = save_tables (typed_db (AList.update table_id t' a)) (typed_db r)"
  shows "load_tables st' = Inr (typed_db (as_saved (AList.update table_id t' a)), typed_db r)"
    and "stored_table st' table_id = Some (clear_reason t')"
proof -
  note d = load_typed_distinct [OF assms(1)]
  have da: "distinct (map fst (AList.update table_id t' a))"
    using d(1) by (simp add: distinct_update)
  show "load_tables st' = Inr (typed_db (as_saved (AList.update table_id t' a)), typed_db r)"
    unfolding assms(2) by (rule load_save_typed [OF da d(2)])
  show "stored_table st' table_id = Some (clear_reason t')"
    unfolding assms(2) stored_after_save(1) [OF da d(2)] by (simp add: update_conv')
qed

lemma sorted_head_least:
  "sorted (map f (p # rest)) \<Longrightarrow> \<forall>e \<in> set (p # rest). f p \<le> f e"
  by auto

lemma leave_from_roster:
  assumes "load_tables st = Inr (typed_db active, typed_db archived)"
    and "map_of active table_id = Some t"
    and "user_id \<in> player_id ` set (players t)"
  shows "waitlist t = [] \<Longrightarrow>
           fst (leave_callback table_id user_id resolve st) = Reply (LeftTable None)
         \<and> stored_table (snd (leave_callback table_id user_id resolve st)) table_id
             = Some (clear_reason (populate_display_names resolve
                 (t\<lparr>players := filter (\<lambda>entry. player_id entry \<noteq> user_id) (players t)\<rparr>)))"
    and "waitlist t = p # rest \<Longrightarrow>
           fst (leave_callback table_id user_id resolve st)
             = Reply (LeftTable (Some (populate_entry resolve p)))
         \<and> stored_table (snd (leave_callback table_id user_id resolve st)) table_id
             = Some (clear_reason (populate_display_names resolve
                 (t\<lparr>players := filter (\<lambda>entry. player_id entry \<noteq> user_id) (players t) @ [p],
                    waitlist := rest\<rparr>)))"
proof -
  note e = leave_callback_typed [OF assms(1,2), of user_id resolve]
  have i: "list_ex (\<lambda>entry. player_id entry = user_id) (players t)"
    using assms(3) by (simp add: list_ex_ids)
  show "waitlist t = [] \<Longrightarrow>
           fst (leave_callback table_id user_id resolve st) = Reply (LeftTable None)
         \<and> stored_table (snd (leave_callback table_id user_id resolve st)) table_id
             = Some (clear_reason (populate_display_names resolve
                 (t\<lparr>players := filter (\<lambda>entry. player_id entry \<noteq> user_id) (players t)\<rparr>)))"
    using stored_after_update(2) [OF assms(1) refl] by (simp add: e i)
  show "waitlist t = p # rest \<Longrightarrow>
           fst (leave_callback table_id user_id resolve st)
             = Reply (LeftTable (Some (populate_entry resolve p)))
         \<and> stored_table (snd (leave_callback table_id user_id resolve st)) table_id
             = Some (clear_reason (populate_display_names resolve
                 (t\<lparr>players := filter (\<lambda>entry. player_id entry \<noteq> user_id) (players t) @ [p],
                    waitlist := rest\<rparr>)))"
    using stored_after_update(2) [OF assms(1) refl] by (simp add: e i)
qed

lemma leave_from_waitlist:
  assumes "load_tables st = Inr (typed_db active, typed_db archived)"
    and "map_of active table_id = Some t"
    and "user_id \<notin> player_id ` set (players t)"
    and "user_id \<in> player_id ` set (waitlist t)"
  shows "fst (leave_callback table_id user_id resolve st) = Reply LeftWaitlist
       \<and> stored_table (snd (leave_callback table_id user_id resolve st)) table_id
           = Some (clear_reason (populate_display_names resolve
               (t\<lparr>waitlist := filter (\<lambda>entry. player_id entry \<noteq> user_id) (waitlist t)\<rparr>)))"
proof -
  note e = leave_callback_typed [OF assms(1,2), of user_id resolve]
  have i: "\<not> list_ex (\<lambda>entry. player_id entry = user_id) (players t)"
    "list_ex (\<lambda>entry. player_id entry = user_id) (waitlist t)"
    using assms(3,4) by (simp_all add: list_ex_ids)
  show ?thesis
    using stored_after_update(2) [OF assms(1) refl] by (simp add: e i)
qed

lemma populate_entry_keeps [simp]:
  "player_id (populate_entry resolve e) = player_id e"
  "joined_at (populate_entry resolve e) = joined_at e"
  by (simp_all add: populate_entry_def split: option.splits)

lemma populate_keeps_ids [simp]:
  "map player_id (map (populate_entry resolve) es) = map player_id es"
  "map joined_at (map (populate_entry resolve) es) = map joined_at es"
  by (induction es) simp_all


text \<open>
  C2: on a store of typed records, for an active table whose waitlist is sorted by
  \<open>joined_at\<close>, and any actor. If the actor is in the roster, \<open>leave_callback\<close>
  removes the actor's entries from the roster; when the waitlist is empty nothing else
  changes, and when it is \<open>p # rest\<close> the entry \<open>p\<close>, whose \<open>joined_at\<close> is the
  least of the waitlist, is removed from the waitlist, appended to the roster and
  reported as promoted. If the actor is only on the waitlist, the actor's entries are
  removed from it and the roster is unchanged. If the actor is in neither, the callback
  answers that the user was not signed up and the store is unchanged. In every case the
  stored record is the one described, after the display-name cache refresh. In
  particular, with roster \<open>[a]\<close> and waitlist \<open>[b]\<close>, after \<open>a\<close> leaves the roster
  is \<open>[b]\<close> and the waitlist is empty.
\<close>

theorem leave_removes_and_promotes:
  assumes "load_tables st = Inr (typed_db active, typed_db archived)"
    and "map_of active table_id = Some t"
    and "sorted (map joined_at (waitlist t))"
  shows "(user_id \<in> player_id ` set (players t) \<and> waitlist t = [] \<longrightarrow>
            fst (leave_callback table_id user_id resolve st) = Reply (LeftTable None)
          \<and> stored_table (snd (leave_callback table_id user_id resolve st)) table_id
              = Some (clear_reason (populate_display_names resolve
                  (t\<lparr>players := filter (\<lambda>entry. player_id entry \<noteq> user_id) (players t)\<rparr>))))
       \<and> (\<forall>p rest. user_id \<in> player_id ` set (players t) \<and> waitlist t = p # rest \<longrightarrow>
            fst (leave_callback table_id user_id resolve st)
              = Reply (LeftTable (Some (populate_entry resolve p)))
          \<and> (\<forall>e \<in> set (waitlist t). joined_at p \<le> joined_at e)
          \<and> stored_table (snd (leave_callback table_id user_id resolve st)) table_id
              = Some (clear_reason (populate_display_names resolve
                  (t\<lparr>players := filter (\<lambda>entry. player_id entry \<noteq> user_id) (players t) @ [p],
                     waitlist := rest\<rparr>))))
       \<and> (user_id \<notin> player_id ` set (players t) \<and> user_id \<in> player_id ` set (waitlist t) \<longrightarrow>
            fst (leave_callback table_id user_id resolve st) = Reply LeftWaitlist
          \<and> stored_table (snd (leave_callback table_id user_id resolve st)) table_id
              = Some (clear_reason (populate_display_names resolve
                  (t\<lparr>waitlist := filter (\<lambda>entry. player_id entry \<noteq> user_id) (waitlist t)\<rparr>))))
       \<and> (user_id \<notin> player_id ` set (players t) \<and> user_id \<notin> player_id ` set (waitlist t) \<longrightarrow>
            leave_callback table_id user_id resolve st = (Reply NotSignedUp, st))
       \<and> (\<forall>a b. players t = [a] \<and> waitlist t = [b] \<and> player_id a = user_id \<longrightarrow>
            map_option (\<lambda>t'. (map player_id (players t'), waitlist t'))
              (stored_table (snd (leave_callback table_id user_id resolve st)) table_id)
              = Some ([player_id b], []))"
proof -
  have c1: "user_id \<in> player_id ` set (players t) \<and> waitlist t = [] \<longrightarrow>
            fst (leave_callback table_id user_id resolve st) = Reply (LeftTable None)
          \<and> stored_table (snd (leave_callback table_id user_id resolve st)) table_id
              = Some (clear_reason (populate_display_names resolve
                  (t\<lparr>players := filter (\<lambda>entry. player_id entry \<noteq> user_id) (players t)\<rparr>)))"
    using leave_from_roster(1) [OF assms(1,2)] by blast
  have c2: "\<forall>p rest. user_id \<in> player_id ` set (players t) \<and> waitlist t = p # rest \<longrightarrow>
            fst (leave_callback table_id user_id resolve st)
              = Reply (LeftTable (Some (populate_entry resolve p)))
          \<and> (\<forall>e \<in> set (waitlist t). joined_at p \<le> joined_at e)
          \<and> stored_table (snd (leave_callback table_id user_id resolve st)) table_id
              = Some (clear_reason (populate_display_names resolve
                  (t\<lparr>players := filter (\<lambda>entry. player_id entry \<noteq> user_id) (players t) @ [p],
                     waitlist := rest\<rparr>)))"
  proof (intro allI impI)
    fix p rest
    assume h: "user_id \<in> player_id ` set (players t) \<and> waitlist t = p # rest"
    then have w: "waitlist t = p # rest" and u: "user_id \<in> player_id ` set (players t)"
      by simp_all
    have least: "\<forall>e \<in> set (waitlist t). joined_at p \<le> joined_at e"
      using assms(3) sorted_head_least [of joined_at p rest] by (simp add: w)
    from leave_from_roster(2) [OF assms(1,2) u w, of resolve] least
    show "fst (leave_callback table_id user_id resolve st)
              = Reply (LeftTable (Some (populate_entry resolve p)))
          \<and> (\<forall>e \<in> set (waitlist t). joined_at p \<le> joined_at e)
          \<and> stored_table (snd (leave_callback table_id user_id resolve st)) table_id
              = Some (clear_reason (populate_display_names resolve
                  (t\<lparr>players := filter (\<lambda>entry. player_id entry \<noteq> user_id) (players t) @ [p],
                     waitlist := rest\<rparr>)))"
      by blast
  qed
  have c3: "user_id \<notin> player_id ` set (players t) \<and> user_id \<in> player_id ` set (waitlist t) \<longrightarrow>
            fst (leave_callback table_id user_id resolve st) = Reply LeftWaitlist
          \<and> stored_table (snd (leave_callback table_id user_id resolve st)) table_id
              = Some (clear_reason (populate_display_names resolve
                  (t\<lparr>waitlist := filter (\<lambda>entry. player_id entry \<noteq> user_id) (waitlist t)\<rparr>)))"
    using leave_from_waitlist [OF assms(1,2)] by blast
  have c4: "user_id \<notin> player_id ` set (players t) \<and> user_id \<notin> player_id ` set (waitlist t) \<longrightarrow>
            leave_callback table_id user_id resolve st = (Reply NotSignedUp, st)"
    by (simp add: leave_callback_typed [OF assms(1,2)] list_ex_ids)
  have c5: "\<forall>a b. players t = [a] \<and> waitlist t = [b] \<and> player_id a = user_id \<longrightarrow>
            map_option (\<lambda>t'. (map player_id (players t'), waitlist t'))
              (stored_table (snd (leave_callback table_id user_id resolve st)) table_id)
              = Some ([player_id b], [])"
  proof (intro allI impI)
    fix a b
    assume h: "players t = [a] \<and> waitlist t = [b] \<and> player_id a = user_id"
    then have u: "user_id \<in> player_id ` set (players t)" and w: "waitlist t = b # []"
      by simp_all
    from leave_from_roster(2) [OF assms(1,2) u w, of resolve] h
    show "map_option (\<lambda>t'. (map player_id (players t'), waitlist t'))
              (stored_table (snd (leave_callback table_id user_id resolve st)) table_id)
              = Some ([player_id b], [])"
      by (simp add: clear_reason_def populate_display_names_def)
  qed
  from c1 c2 c3 c4 c5 show ?thesis by blast
qed

text \<open>
  C2 at the specification's scenario: one seat, roster \<open>[A]\<close>, waitlist \<open>[B]\<close>, and
  \<open>A\<close> (user 1) leaves; \<open>B\<close> is promoted, the roster is \<open>[B]\<close> and the waitlist is
  empty.
\<close>

theorem leave_removes_and_promotes_witness:
  "fst (leave_callback ''table-1'' 1 Map.empty
          (save_tables (typed_db [(''table-1'', full_table)]) (typed_db [])))
     = Reply (LeftTable (Some \<lparr>player_id = 2, joined_at = ''2025-01-01T11:00:00+00:00'',
                              display_name = Some ''B''\<rparr>))
   \<and> stored_table
       (snd (leave_callback ''table-1'' 1 Map.empty
          (save_tables (typed_db [(''table-1'', full_table)]) (typed_db []))))
       ''table-1''
     = Some (full_table\<lparr>players := [\<lparr>player_id = 2, joined_at = ''2025-01-01T11:00:00+00:00'',
                                       display_name = Some ''B''\<rparr>],
                        waitlist := []\<rparr>)"
proof -
  have m: "map_of [(''table-1'', full_table)] ''table-1'' = Some full_table" by simp
  have s: "sorted (map joined_at (waitlist full_table))" by (simp add: full_table_def)
  have u: "(1::int) \<in> player_id ` set (players full_table)" by (simp add: full_table_def)
  have w: "waitlist full_table = [\<lparr>player_id = 2, joined_at = ''2025-01-01T11:00:00+00:00'',
                              display_name = Some ''B''\<rparr>]"
    by (simp add: full_table_def)
  from leave_removes_and_promotes [OF load_full_store m s, of 1 Map.empty] u w
  show ?thesis
    by (simp add: full_table_def sample_table_def clear_reason_def populate_display_names_def
        populate_entry_def)
qed


section \<open>Joining a table: results\<close>

lemma join_seated:
  assumes "load_tables st = Inr (typed_db active, typed_db archived)"
    and "map_of active table_id = Some t"
    and "user_id \<notin> player_id ` set (players t)"
    and "user_id \<notin> player_id ` set (waitlist t)"
    and "int (length (players t)) < max_players t"
  shows "join_callback table_id user_id name now resolve st =
           (Reply Seated,
            save_tables
              (typed_db (AList.update table_id
                 (populate_display_names resolve
                    (t\<lparr>players := players t @
                        [\<lparr>player_id = user_id, joined_at = now, display_name = Some name\<rparr>]\<rparr>))
                 active))
              (typed_db archived))"
  using assms(3,4,5) by (simp add: join_callback_typed [OF assms(1,2)] list_ex_ids)

lemma join_waitlisted:
  assumes "load_tables st = Inr (typed_db active, typed_db archived)"
    and "map_of active table_id = Some t"
    and "user_id \<notin> player_id ` set (players t)"
    and "user_id \<notin> player_id ` set (waitlist t)"
    and "max_players t \<le> int (length (players t))"
  shows "join_callback table_id user_id name now resolve st =
           (Reply Waitlisted,
            save_tables
              (typed_db (AList.update table_id
                 (populate_display_names resolve
                    (t\<lparr>waitlist := waitlist t @
                        [\<lparr>player_id = user_id, joined_at = now, display_name = Some name\<rparr>]\<rparr>))
                 active))
              (typed_db archived))"
  using assms(3,4,5) by (simp add: join_callback_typed [OF assms(1,2)] list_ex_ids)

lemma sorted_snoc_stamp:
  assumes "sorted (map joined_at ws)" and "\<forall>e \<in> set ws. joined_at e \<le> now"
  shows "sorted (map joined_at (ws @ [\<lparr>player_id = u, joined_at = now, display_name = n\<rparr>]))"
  using assms by (simp add: sorted_append)

lemma seat_order_populate [simp]:
  "seat_order (clear_reason (populate_display_names resolve t)) = seat_order t"
  by (simp add: seat_order_def clear_reason_def populate_display_names_def comp_def)

text \<open>One join by a user who is not in the table, and what the next run will load.\<close>

lemma join_step:
  assumes "load_tables st = Inr (typed_db a, typed_db r)"
    and "map_of a table_id = Some t"
    and "user_id \<notin> player_id ` set (players t @ waitlist t)"
    and "int (length (players t)) \<le> max_players t"
    and "waitlist t \<noteq> [] \<longrightarrow> int (length (players t)) = max_players t"
  shows "\<exists>a' t'. load_tables (snd (join_callback table_id user_id name now resolve st))
                   = Inr (typed_db a', typed_db r)
           \<and> map_of a' table_id = Some t'
           \<and> max_players t' = max_players t
           \<and> seat_order t' = seat_order t @ [(user_id, now)]
           \<and> int (length (players t')) \<le> max_players t
           \<and> (waitlist t' \<noteq> [] \<longrightarrow> int (length (players t')) = max_players t)"
proof -
  let ?e = "\<lparr>player_id = user_id, joined_at = now, display_name = Some name\<rparr>"
  from assms(3) have u: "user_id \<notin> player_id ` set (players t)"
    "user_id \<notin> player_id ` set (waitlist t)" by auto
  show ?thesis
  proof (cases "int (length (players t)) < max_players t")
    case True
    let ?t1 = "populate_display_names resolve (t\<lparr>players := players t @ [?e]\<rparr>)"
    have w: "waitlist t = []" using True assms(5) by auto
    have j: "snd (join_callback table_id user_id name now resolve st)
        = save_tables (typed_db (AList.update table_id ?t1 a)) (typed_db r)"
      by (simp add: join_seated [OF assms(1,2) u True])
    have l: "load_tables (snd (join_callback table_id user_id name now resolve st))
        = Inr (typed_db (as_saved (AList.update table_id ?t1 a)), typed_db r)"
      by (rule stored_after_update(1) [OF assms(1) j])
    have m: "map_of (as_saved (AList.update table_id ?t1 a)) table_id = Some (clear_reason ?t1)"
      by (simp add: map_of_as_saved update_conv')
    have s: "seat_order (clear_reason ?t1) = seat_order t @ [(user_id, now)]"
      unfolding seat_order_populate by (simp add: seat_order_def w)
    have p: "max_players (clear_reason ?t1) = max_players t"
      "int (length (players (clear_reason ?t1))) \<le> max_players t"
      "waitlist (clear_reason ?t1) = []"
      using True by (simp_all add: clear_reason_def populate_display_names_def w)
    from l m s p show ?thesis by blast
  next
    case False
    then have full: "max_players t \<le> int (length (players t))" by simp
    with assms(4) have eq: "int (length (players t)) = max_players t" by simp
    let ?t1 = "populate_display_names resolve (t\<lparr>waitlist := waitlist t @ [?e]\<rparr>)"
    have j: "snd (join_callback table_id user_id name now resolve st)
        = save_tables (typed_db (AList.update table_id ?t1 a)) (typed_db r)"
      by (simp add: join_waitlisted [OF assms(1,2) u full])
    have l: "load_tables (snd (join_callback table_id user_id name now resolve st))
        = Inr (typed_db (as_saved (AList.update table_id ?t1 a)), typed_db r)"
      by (rule stored_after_update(1) [OF assms(1) j])
    have m: "map_of (as_saved (AList.update table_id ?t1 a)) table_id = Some (clear_reason ?t1)"
      by (simp add: map_of_as_saved update_conv')
    have s: "seat_order (clear_reason ?t1) = seat_order t @ [(user_id, now)]"
      unfolding seat_order_populate by (simp add: seat_order_def)
    have p: "max_players (clear_reason ?t1) = max_players t"
      "int (length (players (clear_reason ?t1))) \<le> max_players t"
      "int (length (players (clear_reason ?t1))) = max_players t"
      using eq by (simp_all add: clear_reason_def populate_display_names_def)
    from l m s p show ?thesis by blast
  qed
qed

lemma seat_order_ids:
  "map fst (seat_order t) = map player_id (players t @ waitlist t)"
  by (simp add: seat_order_def comp_def)

lemma join_all_typed:
  assumes "load_tables st = Inr (typed_db a, typed_db r)"
    and "map_of a table_id = Some t"
    and "distinct (map player_id (players t @ waitlist t) @ map fst joins)"
    and "int (length (players t)) \<le> max_players t"
    and "waitlist t \<noteq> [] \<longrightarrow> int (length (players t)) = max_players t"
  shows "\<exists>a' t'. load_tables (join_all table_id joins st) = Inr (typed_db a', typed_db r)
           \<and> map_of a' table_id = Some t'
           \<and> max_players t' = max_players t
           \<and> seat_order t' = seat_order t @ map (\<lambda>(u, n, now, res). (u, now)) joins
           \<and> int (length (players t')) \<le> max_players t
           \<and> (waitlist t' \<noteq> [] \<longrightarrow> int (length (players t')) = max_players t)"
  using assms
proof (induction joins arbitrary: st a t)
  case Nil
  then show ?case by auto
next
  case (Cons j joins)
  obtain u n now res where j: "j = (u, n, now, res)" by (cases j) auto
  from Cons.prems(3) j have un: "u \<notin> player_id ` set (players t @ waitlist t)"
    by auto
  from join_step [OF Cons.prems(1,2) un Cons.prems(4,5), of n now res]
  obtain a1 t1 where
    l1: "load_tables (snd (join_callback table_id u n now res st)) = Inr (typed_db a1, typed_db r)"
    and m1: "map_of a1 table_id = Some t1"
    and c1: "max_players t1 = max_players t"
    and s1: "seat_order t1 = seat_order t @ [(u, now)]"
    and p1: "int (length (players t1)) \<le> max_players t"
    and w1: "waitlist t1 \<noteq> [] \<longrightarrow> int (length (players t1)) = max_players t"
    by blast
  have ids1: "map player_id (players t1 @ waitlist t1)
      = map player_id (players t @ waitlist t) @ [u]"
    using arg_cong [OF s1, of "map fst"] by (simp add: seat_order_ids)
  have d1: "distinct (map player_id (players t1 @ waitlist t1) @ map fst joins)"
    using Cons.prems(3) j unfolding ids1 by auto
  from Cons.IH [OF l1 m1 d1] p1 w1 c1
  obtain a' t' where
    "load_tables (join_all table_id joins (snd (join_callback table_id u n now res st)))
       = Inr (typed_db a', typed_db r)"
    "map_of a' table_id = Some t'"
    "max_players t' = max_players t1"
    "seat_order t' = seat_order t1 @ map (\<lambda>(u, n, now, res). (u, now)) joins"
    "int (length (players t')) \<le> max_players t1"
    "waitlist t' \<noteq> [] \<longrightarrow> int (length (players t')) = max_players t1"
    by auto
  then show ?case
    using c1 s1 by (auto simp: j)
qed




lemma events_fst: "map fst (map (\<lambda>(u, n, now, res). (u, now)) joins) = map fst joins"
  by (induction joins) auto

lemma events_snd:
  "map snd (map (\<lambda>(u, n, now, res). (u, now)) joins) = map (\<lambda>(u, n, now, res). now) joins"
  by (induction joins) auto

lemma split_at_length:
  "xs @ ys = zs \<Longrightarrow> length xs = n \<Longrightarrow> xs = take n zs \<and> ys = drop n zs"
  by auto

lemma joins_beyond_capacity:
  assumes "load_tables st = Inr (typed_db active, typed_db archived)"
    and "map_of active table_id = Some t"
    and "players t = []" and "waitlist t = []"
    and "0 \<le> max_players t"
    and "distinct (map fst joins)"
    and "max_players t < int (length joins)"
  shows "\<exists>t'. stored_table (join_all table_id joins st) table_id = Some t'
           \<and> int (length (players t')) = max_players t
           \<and> map player_id (players t') = take (nat (max_players t)) (map fst joins)
           \<and> map player_id (waitlist t') = drop (nat (max_players t)) (map fst joins)
           \<and> map joined_at (waitlist t')
               = drop (nat (max_players t)) (map (\<lambda>(u, n, now, res). now) joins)
           \<and> (sorted (map (\<lambda>(u, n, now, res). now) joins)
                \<longrightarrow> sorted (map joined_at (waitlist t')))"
proof -
  let ?f = "\<lambda>entry. (player_id entry, joined_at entry)"
  let ?E = "map (\<lambda>(u, n, now, res). (u, now)) joins"
  let ?c = "nat (max_players t)"
  have d: "distinct (map player_id (players t @ waitlist t) @ map fst joins)"
    using assms(3,4,6) by simp
  have p0: "int (length (players t)) \<le> max_players t"
    "waitlist t \<noteq> [] \<longrightarrow> int (length (players t)) = max_players t"
    using assms(3,4,5) by simp_all
  from join_all_typed [OF assms(1,2) d p0]
  obtain a' t' where
    l: "load_tables (join_all table_id joins st) = Inr (typed_db a', typed_db archived)"
    and m: "map_of a' table_id = Some t'"
    and s: "seat_order t' = seat_order t @ ?E"
    and p: "int (length (players t')) \<le> max_players t"
    and w: "waitlist t' \<noteq> [] \<longrightarrow> int (length (players t')) = max_players t"
    by blast
  have st: "stored_table (join_all table_id joins st) table_id = Some t'"
    by (simp add: stored_typed [OF l] m)
  have e: "map ?f (players t') @ map ?f (waitlist t') = ?E"
    using s by (simp add: seat_order_def assms(3,4))
  have "length (players t') + length (waitlist t') = length joins"
    using arg_cong [OF e, of length] by simp
  with p assms(7) have "waitlist t' \<noteq> []" by auto
  with w have len: "int (length (players t')) = max_players t" by simp
  then have lc: "length (map ?f (players t')) = ?c" by simp
  have tk: "map ?f (players t') = take ?c ?E" and dr: "map ?f (waitlist t') = drop ?c ?E"
    using split_at_length [OF e lc] by simp_all
  have f1: "map fst (map ?f xs) = map player_id xs" for xs by (induction xs) auto
  have f2: "map snd (map ?f xs) = map joined_at xs" for xs by (induction xs) auto
  have "map fst (map ?f (players t')) = map fst (take ?c ?E)" by (simp only: tk)
  then have i1: "map player_id (players t') = take ?c (map fst joins)"
    by (simp only: f1 take_map [symmetric] events_fst)
  have "map fst (map ?f (waitlist t')) = map fst (drop ?c ?E)" by (simp only: dr)
  then have i2: "map player_id (waitlist t') = drop ?c (map fst joins)"
    by (simp only: f1 drop_map [symmetric] events_fst)
  have "map snd (map ?f (waitlist t')) = map snd (drop ?c ?E)" by (simp only: dr)
  then have i3: "map joined_at (waitlist t') = drop ?c (map (\<lambda>(u, n, now, res). now) joins)"
    by (simp only: f2 drop_map [symmetric] events_snd)
  have i4: "sorted (map (\<lambda>(u, n, now, res). now) joins) \<longrightarrow> sorted (map joined_at (waitlist t'))"
    unfolding i3 by (simp add: sorted_wrt_drop)
  from st len i1 i2 i3 i4 show ?thesis by blast
qed


text \<open>
  C3, as the code has it: on a store of typed records, for an active table and an actor.
  \<open>join_callback\<close> rejects an actor who is in the roster or on the waitlist and
  leaves the store unchanged. Otherwise, when the roster is shorter than the capacity the
  actor is appended to the roster with \<open>joined_at = now\<close> and the answer is
  \<open>Seated\<close>; when the roster is full the actor is appended to the waitlist and the
  answer is \<open>Waitlisted\<close>. The waitlist is appended to, not sorted: it stays sorted by
  \<open>joined_at\<close> when it was sorted and \<open>now\<close> is not earlier than the stamps already
  on it. For a table with empty roster and waitlist and any sequence of joins by distinct
  actors that is longer than the capacity, the stored roster has exactly capacity many
  entries, the first actors in the order of their joins, the waitlist holds the remaining
  actors in the order of their joins with their clock readings as stamps, and it is
  sorted by \<open>joined_at\<close> when the clock readings of the sequence do not decrease.
\<close>

theorem join_seats_or_waitlists:
  assumes "load_tables st = Inr (typed_db active, typed_db archived)"
    and "map_of active table_id = Some t"
  shows "(user_id \<in> player_id ` set (players t) \<longrightarrow>
            join_callback table_id user_id name now resolve st = (Reply AlreadySignedUp, st))
       \<and> (user_id \<notin> player_id ` set (players t) \<and> user_id \<in> player_id ` set (waitlist t) \<longrightarrow>
            join_callback table_id user_id name now resolve st = (Reply AlreadyOnWaitlist, st))
       \<and> (user_id \<notin> player_id ` set (players t) \<and> user_id \<notin> player_id ` set (waitlist t)
            \<and> int (length (players t)) < max_players t \<longrightarrow>
            fst (join_callback table_id user_id name now resolve st) = Reply Seated
          \<and> stored_table (snd (join_callback table_id user_id name now resolve st)) table_id
              = Some (clear_reason (populate_display_names resolve
                  (t\<lparr>players := players t @
                      [\<lparr>player_id = user_id, joined_at = now, display_name = Some name\<rparr>]\<rparr>))))
       \<and> (user_id \<notin> player_id ` set (players t) \<and> user_id \<notin> player_id ` set (waitlist t)
            \<and> max_players t \<le> int (length (players t)) \<longrightarrow>
            fst (join_callback table_id user_id name now resolve st) = Reply Waitlisted
          \<and> stored_table (snd (join_callback table_id user_id name now resolve st)) table_id
              = Some (clear_reason (populate_display_names resolve
                  (t\<lparr>waitlist := waitlist t @
                      [\<lparr>player_id = user_id, joined_at = now, display_name = Some name\<rparr>]\<rparr>)))
          \<and> (sorted (map joined_at (waitlist t)) \<and> (\<forall>e \<in> set (waitlist t). joined_at e \<le> now)
              \<longrightarrow> sorted (map joined_at (map (populate_entry resolve)
                    (waitlist t @
                      [\<lparr>player_id = user_id, joined_at = now, display_name = Some name\<rparr>])))))
       \<and> (\<forall>joins. players t = [] \<and> waitlist t = [] \<and> 0 \<le> max_players t
              \<and> distinct (map fst joins) \<and> max_players t < int (length joins) \<longrightarrow>
            (\<exists>t'. stored_table (join_all table_id joins st) table_id = Some t'
               \<and> int (length (players t')) = max_players t
               \<and> map player_id (players t') = take (nat (max_players t)) (map fst joins)
               \<and> map player_id (waitlist t') = drop (nat (max_players t)) (map fst joins)
               \<and> map joined_at (waitlist t')
                   = drop (nat (max_players t)) (map (\<lambda>(u, n, now, res). now) joins)
               \<and> (sorted (map (\<lambda>(u, n, now, res). now) joins)
                    \<longrightarrow> sorted (map joined_at (waitlist t')))))"
proof -
  let ?e = "\<lparr>player_id = user_id, joined_at = now, display_name = Some name\<rparr>"
  let ?j = "join_callback table_id user_id name now resolve st"
  have c1: "user_id \<in> player_id ` set (players t) \<longrightarrow> ?j = (Reply AlreadySignedUp, st)"
    by (simp add: join_callback_typed [OF assms] list_ex_ids)
  have c2: "user_id \<notin> player_id ` set (players t) \<and> user_id \<in> player_id ` set (waitlist t) \<longrightarrow>
      ?j = (Reply AlreadyOnWaitlist, st)"
    by (simp add: join_callback_typed [OF assms] list_ex_ids)
  have c3: "user_id \<notin> player_id ` set (players t) \<and> user_id \<notin> player_id ` set (waitlist t)
            \<and> int (length (players t)) < max_players t \<longrightarrow>
            fst ?j = Reply Seated
          \<and> stored_table (snd ?j) table_id
              = Some (clear_reason (populate_display_names resolve
                  (t\<lparr>players := players t @ [?e]\<rparr>)))"
  proof
    assume h: "user_id \<notin> player_id ` set (players t) \<and> user_id \<notin> player_id ` set (waitlist t)
            \<and> int (length (players t)) < max_players t"
    then have j: "?j = (Reply Seated,
        save_tables (typed_db (AList.update table_id
           (populate_display_names resolve (t\<lparr>players := players t @ [?e]\<rparr>)) active))
          (typed_db archived))"
      using join_seated [OF assms, of user_id name now resolve] by blast
    show "fst ?j = Reply Seated
          \<and> stored_table (snd ?j) table_id
              = Some (clear_reason (populate_display_names resolve
                  (t\<lparr>players := players t @ [?e]\<rparr>)))"
      using stored_after_update(2) [OF assms(1) refl] by (simp add: j)
  qed
  have c4: "user_id \<notin> player_id ` set (players t) \<and> user_id \<notin> player_id ` set (waitlist t)
            \<and> max_players t \<le> int (length (players t)) \<longrightarrow>
            fst ?j = Reply Waitlisted
          \<and> stored_table (snd ?j) table_id
              = Some (clear_reason (populate_display_names resolve
                  (t\<lparr>waitlist := waitlist t @ [?e]\<rparr>)))
          \<and> (sorted (map joined_at (waitlist t)) \<and> (\<forall>e \<in> set (waitlist t). joined_at e \<le> now)
              \<longrightarrow> sorted (map joined_at (map (populate_entry resolve) (waitlist t @ [?e]))))"
  proof
    assume h: "user_id \<notin> player_id ` set (players t) \<and> user_id \<notin> player_id ` set (waitlist t)
            \<and> max_players t \<le> int (length (players t))"
    then have j: "?j = (Reply Waitlisted,
        save_tables (typed_db (AList.update table_id
           (populate_display_names resolve (t\<lparr>waitlist := waitlist t @ [?e]\<rparr>)) active))
          (typed_db archived))"
      using join_waitlisted [OF assms, of user_id name now resolve] by blast
    have s: "sorted (map joined_at (waitlist t)) \<and> (\<forall>e \<in> set (waitlist t). joined_at e \<le> now)
              \<longrightarrow> sorted (map joined_at (map (populate_entry resolve) (waitlist t @ [?e])))"
      unfolding populate_keeps_ids using sorted_snoc_stamp [of "waitlist t" now user_id "Some name"]
      by blast
    show "fst ?j = Reply Waitlisted
          \<and> stored_table (snd ?j) table_id
              = Some (clear_reason (populate_display_names resolve
                  (t\<lparr>waitlist := waitlist t @ [?e]\<rparr>)))
          \<and> (sorted (map joined_at (waitlist t)) \<and> (\<forall>e \<in> set (waitlist t). joined_at e \<le> now)
              \<longrightarrow> sorted (map joined_at (map (populate_entry resolve) (waitlist t @ [?e]))))"
      using stored_after_update(2) [OF assms(1) refl] s by (simp add: j)
  qed
  have c5: "\<forall>joins. players t = [] \<and> waitlist t = [] \<and> 0 \<le> max_players t
              \<and> distinct (map fst joins) \<and> max_players t < int (length joins) \<longrightarrow>
            (\<exists>t'. stored_table (join_all table_id joins st) table_id = Some t'
               \<and> int (length (players t')) = max_players t
               \<and> map player_id (players t') = take (nat (max_players t)) (map fst joins)
               \<and> map player_id (waitlist t') = drop (nat (max_players t)) (map fst joins)
               \<and> map joined_at (waitlist t')
                   = drop (nat (max_players t)) (map (\<lambda>(u, n, now, res). now) joins)
               \<and> (sorted (map (\<lambda>(u, n, now, res). now) joins)
                    \<longrightarrow> sorted (map joined_at (waitlist t'))))"
    using joins_beyond_capacity [OF assms] by blast
  from c1 c2 c3 c4 c5 show ?thesis by blast
qed



lemma load_one_seat_store:
  "load_tables (save_tables (typed_db [(''table-1'', sample_table\<lparr>max_players := 1\<rparr>)])
       (typed_db []))
     = Inr (typed_db [(''table-1'', sample_table\<lparr>max_players := 1\<rparr>)], typed_db [])"
proof -
  have d1: "distinct (map fst [(''table-1'', sample_table\<lparr>max_players := 1\<rparr>)])" by simp
  have d2: "distinct (map fst ([] :: (string \<times> TableData) list))" by simp
  show ?thesis
    using load_save_typed [OF d1 d2]
    by (simp add: as_saved_def clear_reason_def sample_table_def)
qed

text \<open>
  C3 at two inputs. On the full one-seat table (user 1 seated, user 2 waiting since
  11:00), user 3 joins at 12:00 and is appended to the waitlist, which stays sorted. On
  an empty one-seat table, users 1 and 2 join in that order: user 1 is the roster and
  user 2 the waitlist.
\<close>

theorem join_seats_or_waitlists_witness:
  "fst (join_callback ''table-1'' 3 ''C'' ''2025-01-01T12:00:00+00:00'' Map.empty
          (save_tables (typed_db [(''table-1'', full_table)]) (typed_db [])))
     = Reply Waitlisted
   \<and> stored_table
       (snd (join_callback ''table-1'' 3 ''C'' ''2025-01-01T12:00:00+00:00'' Map.empty
          (save_tables (typed_db [(''table-1'', full_table)]) (typed_db []))))
       ''table-1''
     = Some (full_table\<lparr>waitlist :=
         [\<lparr>player_id = 2, joined_at = ''2025-01-01T11:00:00+00:00'', display_name = Some ''B''\<rparr>,
          \<lparr>player_id = 3, joined_at = ''2025-01-01T12:00:00+00:00'', display_name = Some ''C''\<rparr>]\<rparr>)
   \<and> sorted [''2025-01-01T11:00:00+00:00'', ''2025-01-01T12:00:00+00:00'']
   \<and> (\<exists>t'. stored_table
          (join_all ''table-1''
             [(1, ''A'', ''2025-01-01T10:00:00+00:00'', Map.empty),
              (2, ''B'', ''2025-01-01T11:00:00+00:00'', Map.empty)]
             (save_tables (typed_db [(''table-1'', sample_table\<lparr>max_players := 1\<rparr>)])
                (typed_db [])))
          ''table-1'' = Some t'
        \<and> length (players t') = 1
        \<and> map player_id (players t') = [1]
        \<and> map player_id (waitlist t') = [2]
        \<and> map joined_at (waitlist t') = [''2025-01-01T11:00:00+00:00''])"
proof -
  let ?st = "save_tables (typed_db [(''table-1'', full_table)]) (typed_db [])"
  let ?st1 = "save_tables (typed_db [(''table-1'', sample_table\<lparr>max_players := 1\<rparr>)])
                (typed_db [])"
  let ?joins = "[(1::int, ''A'', ''2025-01-01T10:00:00+00:00'', Map.empty :: int \<Rightarrow> string option),
              (2, ''B'', ''2025-01-01T11:00:00+00:00'', Map.empty)]"
  have m: "map_of [(''table-1'', full_table)] ''table-1'' = Some full_table" by simp
  have f: "(3::int) \<notin> player_id ` set (players full_table)"
    "(3::int) \<notin> player_id ` set (waitlist full_table)"
    "max_players full_table \<le> int (length (players full_table))"
    "sorted (map joined_at (waitlist full_table))"
    "\<forall>e \<in> set (waitlist full_table). joined_at e \<le> ''2025-01-01T12:00:00+00:00''"
    by (simp_all add: full_table_def)
  have a: "fst (join_callback ''table-1'' 3 ''C'' ''2025-01-01T12:00:00+00:00'' Map.empty ?st)
       = Reply Waitlisted
     \<and> stored_table
         (snd (join_callback ''table-1'' 3 ''C'' ''2025-01-01T12:00:00+00:00'' Map.empty ?st))
         ''table-1''
       = Some (full_table\<lparr>waitlist :=
         [\<lparr>player_id = 2, joined_at = ''2025-01-01T11:00:00+00:00'', display_name = Some ''B''\<rparr>,
          \<lparr>player_id = 3, joined_at = ''2025-01-01T12:00:00+00:00'', display_name = Some ''C''\<rparr>]\<rparr>)
     \<and> sorted [''2025-01-01T11:00:00+00:00'', ''2025-01-01T12:00:00+00:00'']"
    using join_seats_or_waitlists [OF load_full_store m,
        of 3 "''C''" "''2025-01-01T12:00:00+00:00''" Map.empty] f
    by (simp add: full_table_def sample_table_def clear_reason_def populate_display_names_def
        populate_entry_def)
  have m1: "map_of [(''table-1'', sample_table\<lparr>max_players := 1\<rparr>)] ''table-1''
      = Some (sample_table\<lparr>max_players := 1\<rparr>)" by simp
  have g: "players (sample_table\<lparr>max_players := 1\<rparr>) = []"
    "waitlist (sample_table\<lparr>max_players := 1\<rparr>) = []"
    "0 \<le> max_players (sample_table\<lparr>max_players := 1\<rparr>)"
    "distinct (map fst ?joins)"
    "max_players (sample_table\<lparr>max_players := 1\<rparr>) < int (length ?joins)"
    by (simp_all add: sample_table_def)
  have b: "\<exists>t'. stored_table (join_all ''table-1'' ?joins ?st1) ''table-1'' = Some t'
        \<and> length (players t') = 1
        \<and> map player_id (players t') = [1]
        \<and> map player_id (waitlist t') = [2]
        \<and> map joined_at (waitlist t') = [''2025-01-01T11:00:00+00:00'']"
  proof -
    from join_seats_or_waitlists [OF load_one_seat_store m1,
        of 0 "''''" "''''" Map.empty] g
    obtain t' where
      "stored_table (join_all ''table-1'' ?joins ?st1) ''table-1'' = Some t'"
      "int (length (players t')) = max_players (sample_table\<lparr>max_players := 1\<rparr>)"
      "map player_id (players t')
         = take (nat (max_players (sample_table\<lparr>max_players := 1\<rparr>))) (map fst ?joins)"
      "map player_id (waitlist t')
         = drop (nat (max_players (sample_table\<lparr>max_players := 1\<rparr>))) (map fst ?joins)"
      "map joined_at (waitlist t')
         = drop (nat (max_players (sample_table\<lparr>max_players := 1\<rparr>)))
             (map (\<lambda>(u, n, now, res). now) ?joins)"
      by blast
    then show ?thesis by (intro exI [of _ t']) simp
  qed
  from a b show ?thesis by blast
qed

text \<open>
  C3, as the specification states it, fails: on the full one-seat table, whose waitlist
  holds user 2 with stamp 11:00, a join by user 3 at a clock reading of 09:00 is appended
  behind user 2, and the stored waitlist is no longer sorted by \<open>joined_at\<close>.
\<close>

theorem join_can_leave_waitlist_unsorted:
  "fst (join_callback ''table-1'' 3 ''C'' ''2025-01-01T09:00:00+00:00'' (map_of [])
          (save_tables (typed_db [(''table-1'', full_table)]) (typed_db [])))
     = Reply Waitlisted
   \<and> stored_table
       (snd (join_callback ''table-1'' 3 ''C'' ''2025-01-01T09:00:00+00:00'' (map_of [])
          (save_tables (typed_db [(''table-1'', full_table)]) (typed_db []))))
       ''table-1''
     = Some (full_table\<lparr>waitlist :=
         [\<lparr>player_id = 2, joined_at = ''2025-01-01T11:00:00+00:00'', display_name = Some ''B''\<rparr>,
          \<lparr>player_id = 3, joined_at = ''2025-01-01T09:00:00+00:00'', display_name = Some ''C''\<rparr>]\<rparr>)
   \<and> sorted (map joined_at (waitlist full_table))
   \<and> \<not> sorted (map joined_at
         [\<lparr>player_id = 2, joined_at = ''2025-01-01T11:00:00+00:00'', display_name = Some ''B''\<rparr>,
          \<lparr>player_id = 3, joined_at = ''2025-01-01T09:00:00+00:00'', display_name = Some ''C''\<rparr>])"
proof -
  let ?st = "save_tables (typed_db [(''table-1'', full_table)]) (typed_db [])"
  have m: "map_of [(''table-1'', full_table)] ''table-1'' = Some full_table" by simp
  have f: "(3::int) \<notin> player_id ` set (players full_table)"
    "(3::int) \<notin> player_id ` set (waitlist full_table)"
    "max_players full_table \<le> int (length (players full_table))"
    by (simp_all add: full_table_def)
  note j = join_waitlisted [OF load_full_store m f,
      of "''C''" "''2025-01-01T09:00:00+00:00''" "map_of []"]
  have "stored_table
       (snd (join_callback ''table-1'' 3 ''C'' ''2025-01-01T09:00:00+00:00'' (map_of []) ?st))
       ''table-1''
     = Some (clear_reason (populate_display_names (map_of [])
         (full_table\<lparr>waitlist := waitlist full_table @
            [\<lparr>player_id = 3, joined_at = ''2025-01-01T09:00:00+00:00'',
              display_name = Some ''C''\<rparr>]\<rparr>)))"
    unfolding j snd_conv by (rule stored_after_update(2) [OF load_full_store refl])
  also have "clear_reason (populate_display_names (map_of [])
         (full_table\<lparr>waitlist := waitlist full_table @
            [\<lparr>player_id = 3, joined_at = ''2025-01-01T09:00:00+00:00'',
              display_name = Some ''C''\<rparr>]\<rparr>))
     = full_table\<lparr>waitlist :=
         [\<lparr>player_id = 2, joined_at = ''2025-01-01T11:00:00+00:00'', display_name = Some ''B''\<rparr>,
          \<lparr>player_id = 3, joined_at = ''2025-01-01T09:00:00+00:00'', display_name = Some ''C''\<rparr>]\<rparr>"
    by (simp add: full_table_def sample_table_def clear_reason_def populate_display_names_def
        populate_entry_def)
  finally have "stored_table
       (snd (join_callback ''table-1'' 3 ''C'' ''2025-01-01T09:00:00+00:00'' (map_of []) ?st))
       ''table-1''
     = Some (full_table\<lparr>waitlist :=
         [\<lparr>player_id = 2, joined_at = ''2025-01-01T11:00:00+00:00'', display_name = Some ''B''\<rparr>,
          \<lparr>player_id = 3, joined_at = ''2025-01-01T09:00:00+00:00'', display_name = Some ''C''\<rparr>]\<rparr>)" .
  moreover have "fst (join_callback ''table-1'' 3 ''C'' ''2025-01-01T09:00:00+00:00'' (map_of []) ?st)
      = Reply Waitlisted"
    by (simp only: j fst_conv)
  moreover have "sorted (map joined_at (waitlist full_table))" by (simp add: full_table_def)
  moreover have "\<not> sorted (map joined_at
         [\<lparr>player_id = 2, joined_at = ''2025-01-01T11:00:00+00:00'', display_name = Some ''B''\<rparr>,
          \<lparr>player_id = 3, joined_at = ''2025-01-01T09:00:00+00:00'', display_name = Some ''C''\<rparr>])"
    by simp
  ultimately show ?thesis by blast
qed


section \<open>Editing a table: results\<close>

lemma edit_demotes:
  assumes "validate_form system_value schedule_value infos_value max_players_input = Inr m"
    and "load_tables st = Inr (typed_db active, typed_db archived)"
    and "map_of active table_id = Some t"
    and "m < int (length (players t))"
  shows "fst (edit_on_submit table_id system_value schedule_value infos_value
                max_players_input st)
           = Reply (Updated (rev (drop (nat m) (players t))))"
    and "stored_table
           (snd (edit_on_submit table_id system_value schedule_value infos_value
                   max_players_input st)) table_id
           = Some (clear_reason
               (t\<lparr>system := system_value, schedule := schedule_value, infos := infos_value,
                  max_players := m, players := take (nat m) (players t),
                  waitlist := sort_key joined_at
                    (waitlist t @ rev (drop (nat m) (players t)))\<rparr>))"
proof -
  note e = edit_on_submit_typed [OF assms(1,2,3)]
  show "fst (edit_on_submit table_id system_value schedule_value infos_value
                max_players_input st)
           = Reply (Updated (rev (drop (nat m) (players t))))"
    by (simp add: e)
  show "stored_table
           (snd (edit_on_submit table_id system_value schedule_value infos_value
                   max_players_input st)) table_id
           = Some (clear_reason
               (t\<lparr>system := system_value, schedule := schedule_value, infos := infos_value,
                  max_players := m, players := take (nat m) (players t),
                  waitlist := sort_key joined_at
                    (waitlist t @ rev (drop (nat m) (players t)))\<rparr>))"
    using stored_after_update(2) [OF assms(2) refl] assms(4) by (simp add: e)
qed

lemma load_three_store:
  "load_tables (save_tables (typed_db [(''table-1'', three_table)]) (typed_db []))
     = Inr (typed_db [(''table-1'', three_table)], typed_db [])"
proof -
  have d1: "distinct (map fst [(''table-1'', three_table)])" by simp
  have d2: "distinct (map fst ([] :: (string \<times> TableData) list))" by simp
  show ?thesis
    using load_save_typed [OF d1 d2]
    by (simp add: as_saved_def clear_reason_def three_table_def sample_table_def)
qed

text \<open>
  The end of a roster that is in \<open>joined_at\<close> order holds its most recent entries: what
  is popped from the end is then what the specification's order asks for.
\<close>

lemma popped_of_sorted_roster:
  assumes "sorted (map f xs)"
  shows "sorted (rev (map f (rev (drop n xs))))"
    and "\<forall>k \<in> set (take n xs). \<forall>d \<in> set (rev (drop n xs)). f k \<le> f d"
proof -
  have "sorted (map f (take n xs @ drop n xs))" using assms by simp
  then have s: "sorted (map f (take n xs)) \<and> sorted (map f (drop n xs))
      \<and> (\<forall>k \<in> set (take n xs). \<forall>d \<in> set (drop n xs). f k \<le> f d)"
    unfolding map_append sorted_append by auto
  show "sorted (rev (map f (rev (drop n xs))))" using s by (simp add: rev_map)
  show "\<forall>k \<in> set (take n xs). \<forall>d \<in> set (rev (drop n xs)). f k \<le> f d" using s by simp
qed

lemma spec_demoted_of_sorted_roster:
  assumes "sorted (map joined_at roster)" and "0 \<le> m"
  shows "spec_demoted m roster = rev (drop (nat m) roster)"
proof -
  have "sort_key joined_at roster = roster"
    using assms(1) by (rule sort_key_id_if_sorted)
  moreover have "drop (length roster - (length roster - nat m)) roster = drop (nat m) roster"
    by (cases "nat m \<le> length roster") simp_all
  ultimately show ?thesis
    by (simp add: spec_demoted_def take_rev)
qed

text \<open>
  C4, as the code has it: on a store of typed records, for an active table and an edit
  that passes the form checks with a new capacity \<open>m\<close> below the roster length. The
  callback reports as demoted the entries after the first \<open>m\<close> of the roster list, last
  first (the order in which they are popped from the end); they are \<open>length roster - m\<close>
  many; the stored roster is the first \<open>m\<close> entries; the stored waitlist is the old
  waitlist followed by the demoted entries, stably sorted by \<open>joined_at\<close>: it is sorted
  and holds exactly the old waitlist entries and the demoted ones. The entries are taken
  by their position in the roster list, not by \<open>joined_at\<close>: they are the most recently
  joined ones, the most recent first, when the roster list is in \<open>joined_at\<close> order;
  then no entry that stays joined after a demoted one, and the demoted list is the one
  the specification describes. In particular, for roster \<open>[A, B, C]\<close> with \<open>B\<close> joined
  before \<open>C\<close>, an empty waitlist and \<open>m = 1\<close>, the demoted list is \<open>[C, B]\<close> and the
  stored waitlist is \<open>[B, C]\<close>.
\<close>

theorem edit_below_roster_size_demotes:
  assumes "validate_form system_value schedule_value infos_value max_players_input = Inr m"
    and "load_tables st = Inr (typed_db active, typed_db archived)"
    and "map_of active table_id = Some t"
    and "m < int (length (players t))"
    and "demoted = rev (drop (nat m) (players t))"
    and "st' = snd (edit_on_submit table_id system_value schedule_value infos_value
                     max_players_input st)"
  shows "fst (edit_on_submit table_id system_value schedule_value infos_value
                max_players_input st) = Reply (Updated demoted)
       \<and> int (length demoted) = int (length (players t)) - m
       \<and> players t = take (nat m) (players t) @ rev demoted
       \<and> stored_table st' table_id
           = Some (clear_reason
               (t\<lparr>system := system_value, schedule := schedule_value, infos := infos_value,
                  max_players := m, players := take (nat m) (players t),
                  waitlist := sort_key joined_at (waitlist t @ demoted)\<rparr>))
       \<and> sorted (map joined_at (sort_key joined_at (waitlist t @ demoted)))
       \<and> mset (sort_key joined_at (waitlist t @ demoted)) = mset (waitlist t) + mset demoted
       \<and> (sorted (map joined_at (players t)) \<longrightarrow>
            sorted (rev (map joined_at demoted))
          \<and> (\<forall>k \<in> set (take (nat m) (players t)). \<forall>d \<in> set demoted.
                joined_at k \<le> joined_at d)
          \<and> demoted = spec_demoted m (players t))
       \<and> (\<forall>A B C. players t = [A, B, C] \<and> waitlist t = [] \<and> m = 1
              \<and> joined_at B < joined_at C \<longrightarrow>
            demoted = [C, B]
          \<and> map_option waitlist (stored_table st' table_id) = Some [B, C])"
proof -
  from assms(1) have m: "1 \<le> m" using validate_form_range by fastforce
  have c1: "fst (edit_on_submit table_id system_value schedule_value infos_value
                max_players_input st) = Reply (Updated demoted)"
    unfolding assms(5) by (rule edit_demotes(1) [OF assms(1-4)])
  have c2: "int (length demoted) = int (length (players t)) - m"
    using assms(4) m by (simp add: assms(5))
  have c3: "players t = take (nat m) (players t) @ rev demoted"
    by (simp add: assms(5))
  have c4: "stored_table st' table_id
           = Some (clear_reason
               (t\<lparr>system := system_value, schedule := schedule_value, infos := infos_value,
                  max_players := m, players := take (nat m) (players t),
                  waitlist := sort_key joined_at (waitlist t @ demoted)\<rparr>))"
    unfolding assms(5,6) by (rule edit_demotes(2) [OF assms(1-4)])
  have c5: "sorted (map joined_at (sort_key joined_at (waitlist t @ demoted)))"
    by (rule sorted_sort_key)
  have c6: "mset (sort_key joined_at (waitlist t @ demoted)) = mset (waitlist t) + mset demoted"
    by simp
  have c7: "sorted (map joined_at (players t)) \<longrightarrow>
            sorted (rev (map joined_at demoted))
          \<and> (\<forall>k \<in> set (take (nat m) (players t)). \<forall>d \<in> set demoted.
                joined_at k \<le> joined_at d)
          \<and> demoted = spec_demoted m (players t)"
  proof
    assume s: "sorted (map joined_at (players t))"
    have m0: "0 \<le> m" using m by simp
    show "sorted (rev (map joined_at demoted))
          \<and> (\<forall>k \<in> set (take (nat m) (players t)). \<forall>d \<in> set demoted.
                joined_at k \<le> joined_at d)
          \<and> demoted = spec_demoted m (players t)"
      unfolding assms(5)
      using popped_of_sorted_roster [OF s, of "nat m"] spec_demoted_of_sorted_roster [OF s m0]
      by simp
  qed
  have c8: "\<forall>A B C. players t = [A, B, C] \<and> waitlist t = [] \<and> m = 1
              \<and> joined_at B < joined_at C \<longrightarrow>
            demoted = [C, B]
          \<and> map_option waitlist (stored_table st' table_id) = Some [B, C]"
  proof (intro allI impI)
    fix A B C
    assume h: "players t = [A, B, C] \<and> waitlist t = [] \<and> m = 1 \<and> joined_at B < joined_at C"
    then have d: "demoted = [C, B]" by (simp add: assms(5))
    from h have nle: "\<not> joined_at C \<le> joined_at B" by (simp add: not_le)
    from h have "sort_key joined_at (waitlist t @ demoted) = [B, C]"
      by (simp add: d nle)
    with c4 d show "demoted = [C, B]
          \<and> map_option waitlist (stored_table st' table_id) = Some [B, C]"
      by (simp add: clear_reason_def)
  qed
  from c1 c2 c3 c4 c5 c6 c7 c8 show ?thesis by blast
qed

text \<open>
  C4 at the specification's scenario: three seats taken by \<open>A\<close>, \<open>B\<close>, \<open>C\<close> in that
  order, edited to one seat.
\<close>

theorem edit_below_roster_size_demotes_witness:
  "fst (edit_on_submit ''table-1'' ''Test System'' ''Soon'' ''Test'' (Some 1)
          (save_tables (typed_db [(''table-1'', three_table)]) (typed_db [])))
     = Reply (Updated
         [\<lparr>player_id = 3, joined_at = ''2025-01-01T12:00:00+00:00'', display_name = Some ''C''\<rparr>,
          \<lparr>player_id = 2, joined_at = ''2025-01-01T11:00:00+00:00'', display_name = Some ''B''\<rparr>])
   \<and> stored_table
       (snd (edit_on_submit ''table-1'' ''Test System'' ''Soon'' ''Test'' (Some 1)
          (save_tables (typed_db [(''table-1'', three_table)]) (typed_db []))))
       ''table-1''
     = Some (three_table\<lparr>max_players := 1,
         players :=
           [\<lparr>player_id = 1, joined_at = ''2025-01-01T10:00:00+00:00'', display_name = Some ''A''\<rparr>],
         waitlist :=
           [\<lparr>player_id = 2, joined_at = ''2025-01-01T11:00:00+00:00'', display_name = Some ''B''\<rparr>,
            \<lparr>player_id = 3, joined_at = ''2025-01-01T12:00:00+00:00'',
             display_name = Some ''C''\<rparr>]\<rparr>)
   \<and> sorted (map joined_at (players three_table))
   \<and> spec_demoted 1 (players three_table)
     = [\<lparr>player_id = 3, joined_at = ''2025-01-01T12:00:00+00:00'', display_name = Some ''C''\<rparr>,
        \<lparr>player_id = 2, joined_at = ''2025-01-01T11:00:00+00:00'', display_name = Some ''B''\<rparr>]"
proof -
  have v: "validate_form ''Test System'' ''Soon'' ''Test'' (Some 1) = Inr 1"
    by (simp add: validate_form_def)
  have m: "map_of [(''table-1'', three_table)] ''table-1'' = Some three_table" by simp
  have l: "(1::int) < int (length (players three_table))" by (simp add: three_table_def)
  have s: "sorted (map joined_at (players three_table))" by (simp add: three_table_def)
  from edit_below_roster_size_demotes [OF v load_three_store m l refl refl] s
  show ?thesis
    by (simp add: three_table_def sample_table_def clear_reason_def)
qed


lemma load_one_table_step:
  assumes "load_tables st = Inr (typed_db [(k, t)], typed_db [])"
    and "st' = save_tables (typed_db (AList.update k t' [(k, t)])) (typed_db [])"
    and "clear_reason t' = t''"
  shows "load_tables st' = Inr (typed_db [(k, t'')], typed_db [])"
  using stored_after_update(1) [OF assms(1,2)] assms(3) by (simp add: as_saved_def)

lemma edit_without_demotion:
  assumes "validate_form system_value schedule_value infos_value max_players_input = Inr m"
    and "load_tables st = Inr (typed_db a, typed_db r)"
    and "map_of a table_id = Some t"
    and "int (length (players t)) \<le> m"
  shows "edit_on_submit table_id system_value schedule_value infos_value max_players_input st =
     (Reply (Updated []),
      save_tables
        (typed_db (AList.update table_id
           (t\<lparr>system := system_value, schedule := schedule_value, infos := infos_value,
              max_players := m\<rparr>) a))
        (typed_db r))"
  using assms(4) by (simp add: edit_on_submit_typed [OF assms(1,2,3)])

lemma leave_with_promotion:
  assumes "load_tables st = Inr (typed_db a, typed_db r)"
    and "map_of a table_id = Some t"
    and "user_id \<in> player_id ` set (players t)"
    and "waitlist t = p # rest"
  shows "leave_callback table_id user_id resolve st =
     (Reply (LeftTable (Some (populate_entry resolve p))),
      save_tables
        (typed_db (AList.update table_id
           (populate_display_names resolve
              (t\<lparr>players := filter (\<lambda>entry. player_id entry \<noteq> user_id) (players t) @ [p],
                 waitlist := rest\<rparr>))
           a))
        (typed_db r))"
  using assms(3,4) by (simp add: leave_callback_typed [OF assms(1,2)] list_ex_ids)

text \<open>The store of the run, and that the run is one of the bot.\<close>

lemma load_rejoined_store:
  "load_tables rejoined_store
     = Inr (typed_db [(''table-1'',
          \<lparr>system = ''Test System'', infos = ''Test'', schedule = ''Soon'',
           created_at = Some ''2025-01-01T00:00:00+00:00'', max_players = 3,
           players =
             [\<lparr>player_id = 3, joined_at = ''2025-01-01T12:00:00+00:00'',
               display_name = Some ''C''\<rparr>,
              \<lparr>player_id = 2, joined_at = ''2025-01-01T11:00:00+00:00'',
               display_name = Some ''B''\<rparr>],
           waitlist = [], creator_id = 123, message_id = 456, channel_id = 789,
           guild_id = 101112, archive_reason = None, archived_at = None,
           archived_by = None\<rparr>)], typed_db [])"
  and reachable_rejoined_store: "reachable rejoined_store"
proof -
  let ?A = "\<lparr>player_id = 1, joined_at = ''2025-01-01T10:00:00+00:00'', display_name = Some ''A''\<rparr>"
  let ?B = "\<lparr>player_id = 2, joined_at = ''2025-01-01T11:00:00+00:00'', display_name = Some ''B''\<rparr>"
  let ?C = "\<lparr>player_id = 3, joined_at = ''2025-01-01T12:00:00+00:00'', display_name = Some ''C''\<rparr>"
  let ?T0 = "\<lparr>system = ''Test System'', infos = ''Test'', schedule = ''Soon'',
            created_at = Some ''2025-01-01T00:00:00+00:00'', max_players = 1, players = [],
            waitlist = [], creator_id = 123, message_id = 456, channel_id = 789,
            guild_id = 101112, archive_reason = None, archived_at = None,
            archived_by = None\<rparr>"
  let ?T1 = "?T0\<lparr>players := [?A]\<rparr>"
  let ?T2 = "?T0\<lparr>players := [?A], waitlist := [?B]\<rparr>"
  let ?T3 = "?T0\<lparr>max_players := 3, players := [?A], waitlist := [?B]\<rparr>"
  let ?T4 = "?T0\<lparr>max_players := 3, players := [?A, ?C], waitlist := [?B]\<rparr>"
  let ?T5 = "?T0\<lparr>max_players := 3, players := [?C, ?B], waitlist := []\<rparr>"
  let ?st0 = "\<lparr>active_file = None, archived_file = None\<rparr>"
  let ?s1 = "snd (new_table_on_submit ''table-1'' 123 101112 ''2025-01-01T00:00:00+00:00''
           ''Test System'' ''Soon'' ''Test'' (Some 1) (Posted 456 789) ?st0)"
  let ?s2 = "snd (join_callback ''table-1'' 1 ''A'' ''2025-01-01T10:00:00+00:00'' (map_of []) ?s1)"
  let ?s3 = "snd (join_callback ''table-1'' 2 ''B'' ''2025-01-01T11:00:00+00:00'' (map_of []) ?s2)"
  let ?s4 = "snd (edit_on_submit ''table-1'' ''Test System'' ''Soon'' ''Test'' (Some 3) ?s3)"
  let ?s5 = "snd (join_callback ''table-1'' 3 ''C'' ''2025-01-01T12:00:00+00:00'' (map_of []) ?s4)"
  let ?s6 = "snd (leave_callback ''table-1'' 1 (map_of []) ?s5)"
  have e: "rejoined_store = ?s6" by (simp only: rejoined_store_def)
  have v1: "validate_form ''Test System'' ''Soon'' ''Test'' (Some 1) = Inr 1"
    by (simp add: validate_form_def)
  have v3: "validate_form ''Test System'' ''Soon'' ''Test'' (Some 3) = Inr 3"
    by (simp add: validate_form_def)
  have c: "?s1 = save_tables (typed_db (AList.update ''table-1'' ?T0 [])) (typed_db [])"
    by (simp only: new_table_on_submit_typed [OF v1 load_initial] snd_conv)
  have "load_tables ?s1
      = Inr (typed_db (as_saved (AList.update ''table-1'' ?T0 [])), typed_db [])"
    by (rule stored_after_update(1) [OF load_initial c])
  moreover have "as_saved (AList.update ''table-1'' ?T0 []) = [(''table-1'', ?T0)]"
    by (simp add: as_saved_def clear_reason_def)
  ultimately have l1: "load_tables ?s1 = Inr (typed_db [(''table-1'', ?T0)], typed_db [])"
    by simp
  have m0: "map_of [(''table-1'', ?T0)] ''table-1'' = Some ?T0" by simp
  have f0: "(1::int) \<notin> player_id ` set (players ?T0)"
    "(1::int) \<notin> player_id ` set (waitlist ?T0)"
    "int (length (players ?T0)) < max_players ?T0"
    by simp_all
  have j1: "?s2 = save_tables (typed_db (AList.update ''table-1''
      (populate_display_names (map_of [])
         (?T0\<lparr>players := players ?T0 @
            [\<lparr>player_id = 1, joined_at = ''2025-01-01T10:00:00+00:00'',
              display_name = Some ''A''\<rparr>]\<rparr>)) [(''table-1'', ?T0)])) (typed_db [])"
    by (simp only: join_seated [OF l1 m0 f0] snd_conv)
  have l2: "load_tables ?s2 = Inr (typed_db [(''table-1'', ?T1)], typed_db [])"
    by (rule load_one_table_step [OF l1 j1])
       (simp add: clear_reason_def populate_display_names_def populate_entry_def)
  have m1: "map_of [(''table-1'', ?T1)] ''table-1'' = Some ?T1" by simp
  have f1: "(2::int) \<notin> player_id ` set (players ?T1)"
    "(2::int) \<notin> player_id ` set (waitlist ?T1)"
    "max_players ?T1 \<le> int (length (players ?T1))"
    by simp_all
  have j2: "?s3 = save_tables (typed_db (AList.update ''table-1''
      (populate_display_names (map_of [])
         (?T1\<lparr>waitlist := waitlist ?T1 @
            [\<lparr>player_id = 2, joined_at = ''2025-01-01T11:00:00+00:00'',
              display_name = Some ''B''\<rparr>]\<rparr>)) [(''table-1'', ?T1)])) (typed_db [])"
    by (simp only: join_waitlisted [OF l2 m1 f1] snd_conv)
  have l3: "load_tables ?s3 = Inr (typed_db [(''table-1'', ?T2)], typed_db [])"
    by (rule load_one_table_step [OF l2 j2])
       (simp add: clear_reason_def populate_display_names_def populate_entry_def)
  have m2: "map_of [(''table-1'', ?T2)] ''table-1'' = Some ?T2" by simp
  have n2: "int (length (players ?T2)) \<le> 3" by simp
  have j3: "?s4 = save_tables (typed_db (AList.update ''table-1''
      (?T2\<lparr>system := ''Test System'', schedule := ''Soon'', infos := ''Test'',
            max_players := 3\<rparr>) [(''table-1'', ?T2)])) (typed_db [])"
    by (simp only: edit_without_demotion [OF v3 l3 m2 n2] snd_conv)
  have l4: "load_tables ?s4 = Inr (typed_db [(''table-1'', ?T3)], typed_db [])"
    by (rule load_one_table_step [OF l3 j3]) (simp add: clear_reason_def)
  have m3: "map_of [(''table-1'', ?T3)] ''table-1'' = Some ?T3" by simp
  have f3: "(3::int) \<notin> player_id ` set (players ?T3)"
    "(3::int) \<notin> player_id ` set (waitlist ?T3)"
    "int (length (players ?T3)) < max_players ?T3"
    by simp_all
  have j4: "?s5 = save_tables (typed_db (AList.update ''table-1''
      (populate_display_names (map_of [])
         (?T3\<lparr>players := players ?T3 @
            [\<lparr>player_id = 3, joined_at = ''2025-01-01T12:00:00+00:00'',
              display_name = Some ''C''\<rparr>]\<rparr>)) [(''table-1'', ?T3)])) (typed_db [])"
    by (simp only: join_seated [OF l4 m3 f3] snd_conv)
  have l5: "load_tables ?s5 = Inr (typed_db [(''table-1'', ?T4)], typed_db [])"
    by (rule load_one_table_step [OF l4 j4])
       (simp add: clear_reason_def populate_display_names_def populate_entry_def)
  have m4: "map_of [(''table-1'', ?T4)] ''table-1'' = Some ?T4" by simp
  have f4: "(1::int) \<in> player_id ` set (players ?T4)" by simp
  have w4: "waitlist ?T4 = ?B # []" by simp
  have j5: "?s6 = save_tables (typed_db (AList.update ''table-1''
      (populate_display_names (map_of [])
         (?T4\<lparr>players := filter (\<lambda>entry. player_id entry \<noteq> 1) (players ?T4) @ [?B],
               waitlist := []\<rparr>)) [(''table-1'', ?T4)])) (typed_db [])"
    by (simp only: leave_with_promotion [OF l5 m4 f4 w4] snd_conv)
  have l6: "load_tables ?s6 = Inr (typed_db [(''table-1'', ?T5)], typed_db [])"
    by (rule load_one_table_step [OF l5 j5])
       (simp add: clear_reason_def populate_display_names_def populate_entry_def)
  show "load_tables rejoined_store
     = Inr (typed_db [(''table-1'',
          \<lparr>system = ''Test System'', infos = ''Test'', schedule = ''Soon'',
           created_at = Some ''2025-01-01T00:00:00+00:00'', max_players = 3,
           players =
             [\<lparr>player_id = 3, joined_at = ''2025-01-01T12:00:00+00:00'',
               display_name = Some ''C''\<rparr>,
              \<lparr>player_id = 2, joined_at = ''2025-01-01T11:00:00+00:00'',
               display_name = Some ''B''\<rparr>],
           waitlist = [], creator_id = 123, message_id = 456, channel_id = 789,
           guild_id = 101112, archive_reason = None, archived_at = None,
           archived_by = None\<rparr>)], typed_db [])"
    unfolding e using l6 by simp
  have r0: "reachable ?st0" by (rule reachable.initial)
  have r1: "reachable ?s1" by (rule reachable.create [OF r0 prod.collapse [symmetric]])
  have r2: "reachable ?s2" by (rule reachable.join [OF r1 prod.collapse [symmetric]])
  have r3: "reachable ?s3" by (rule reachable.join [OF r2 prod.collapse [symmetric]])
  have r4: "reachable ?s4" by (rule reachable.edit [OF r3 prod.collapse [symmetric]])
  have r5: "reachable ?s5" by (rule reachable.join [OF r4 prod.collapse [symmetric]])
  have r6: "reachable ?s6" by (rule reachable.leave [OF r5 prod.collapse [symmetric]])
  show "reachable rejoined_store" unfolding e by (rule r6)
qed

text \<open>
  C4, as the specification states it, fails on a store the bot reaches: a table with one
  seat is created, user 1 joins at 10:00 and user 2 at 11:00 (waitlisted), the table is
  edited to three seats, user 3 joins at 12:00, and user 1 leaves, which promotes user 2
  to the end of the roster. The roster list is then user 3 (12:00), user 2 (11:00). An
  edit to one seat demotes user 2, the last of the list, who joined first, and keeps
  user 3, the most recently joined, whom the specification's order demotes.
\<close>

theorem edit_demotes_by_position_not_joined_at:
  "reachable rejoined_store
   \<and> map_option players (stored_table rejoined_store ''table-1'')
     = Some [\<lparr>player_id = 3, joined_at = ''2025-01-01T12:00:00+00:00'', display_name = Some ''C''\<rparr>,
             \<lparr>player_id = 2, joined_at = ''2025-01-01T11:00:00+00:00'', display_name = Some ''B''\<rparr>]
   \<and> fst (edit_on_submit ''table-1'' ''Test System'' ''Soon'' ''Test'' (Some 1) rejoined_store)
     = Reply (Updated
         [\<lparr>player_id = 2, joined_at = ''2025-01-01T11:00:00+00:00'', display_name = Some ''B''\<rparr>])
   \<and> map_option players
       (stored_table
          (snd (edit_on_submit ''table-1'' ''Test System'' ''Soon'' ''Test'' (Some 1)
                  rejoined_store))
          ''table-1'')
     = Some [\<lparr>player_id = 3, joined_at = ''2025-01-01T12:00:00+00:00'', display_name = Some ''C''\<rparr>]
   \<and> spec_demoted 1
       [\<lparr>player_id = 3, joined_at = ''2025-01-01T12:00:00+00:00'', display_name = Some ''C''\<rparr>,
        \<lparr>player_id = 2, joined_at = ''2025-01-01T11:00:00+00:00'', display_name = Some ''B''\<rparr>]
     = [\<lparr>player_id = 3, joined_at = ''2025-01-01T12:00:00+00:00'', display_name = Some ''C''\<rparr>]"
proof -
  let ?B = "\<lparr>player_id = 2, joined_at = ''2025-01-01T11:00:00+00:00'', display_name = Some ''B''\<rparr>"
  let ?C = "\<lparr>player_id = 3, joined_at = ''2025-01-01T12:00:00+00:00'', display_name = Some ''C''\<rparr>"
  let ?T = "\<lparr>system = ''Test System'', infos = ''Test'', schedule = ''Soon'',
           created_at = Some ''2025-01-01T00:00:00+00:00'', max_players = 3,
           players = [?C, ?B],
           waitlist = [], creator_id = 123, message_id = 456, channel_id = 789,
           guild_id = 101112, archive_reason = None, archived_at = None,
           archived_by = None\<rparr>"
  have v: "validate_form ''Test System'' ''Soon'' ''Test'' (Some 1) = Inr 1"
    by (simp add: validate_form_def)
  have l: "load_tables rejoined_store = Inr (typed_db [(''table-1'', ?T)], typed_db [])"
    by (rule load_rejoined_store)
  have m: "map_of [(''table-1'', ?T)] ''table-1'' = Some ?T" by simp
  have n: "(1::int) < int (length (players ?T))" by simp
  have a: "map_option players (stored_table rejoined_store ''table-1'') = Some [?C, ?B]"
    by (simp add: stored_typed [OF l])
  have b: "fst (edit_on_submit ''table-1'' ''Test System'' ''Soon'' ''Test'' (Some 1)
                  rejoined_store) = Reply (Updated [?B])"
    using edit_demotes(1) [OF v l m n] by simp
  have c: "map_option players
       (stored_table
          (snd (edit_on_submit ''table-1'' ''Test System'' ''Soon'' ''Test'' (Some 1)
                  rejoined_store))
          ''table-1'') = Some [?C]"
    using edit_demotes(2) [OF v l m n] by (simp add: clear_reason_def)
  have d: "spec_demoted 1 [?C, ?B] = [?C]"
    by (simp add: spec_demoted_def)
  from reachable_rejoined_store a b c d show ?thesis by blast
qed


section \<open>No user twice in a table: results\<close>

lemma set_update_cases:
  "(k', v') \<in> set (AList.update k v al) \<Longrightarrow> (k', v') = (k, v) \<or> (k', v') \<in> set al"
  by (induction al) (auto split: if_splits)

lemma set_as_saved:
  "(k, t) \<in> set (as_saved a) \<Longrightarrow> \<exists>t0. (k, t0) \<in> set a \<and> t = clear_reason t0"
  by (auto simp: as_saved_def)

lemma ids_clear_reason [simp]:
  "players (clear_reason t) = players t" "waitlist (clear_reason t) = waitlist t"
  by (simp_all add: clear_reason_def)

lemma ids_populate [simp]:
  "map player_id (players (populate_display_names resolve t)) = map player_id (players t)"
  "map player_id (waitlist (populate_display_names resolve t)) = map player_id (waitlist t)"
  by (simp_all add: populate_display_names_def)

text \<open>The invariant of the reachable stores.\<close>

lemma inv_after_update:
  assumes "load_tables st = Inr (typed_db a, typed_db r)"
    and "\<forall>(k, t) \<in> set a. no_double_signup t"
    and "no_double_signup t'"
    and "st' = save_tables (typed_db (AList.update table_id t' a)) (typed_db r)"
  shows "\<exists>a' r'. load_tables st' = Inr (typed_db a', typed_db r')
           \<and> (\<forall>(k, t) \<in> set a'. no_double_signup t)"
proof -
  have l: "load_tables st' = Inr (typed_db (as_saved (AList.update table_id t' a)), typed_db r)"
    by (rule stored_after_update(1) [OF assms(1,4)])
  have "no_double_signup t"
    if "(k, t) \<in> set (as_saved (AList.update table_id t' a))" for k t
  proof -
    from set_as_saved [OF that] obtain t0 where
      t0: "(k, t0) \<in> set (AList.update table_id t' a)" and t: "t = clear_reason t0" by blast
    from set_update_cases [OF t0] have "t0 = t' \<or> (k, t0) \<in> set a" by auto
    then have "no_double_signup t0"
      using assms(2,3) by auto
    then show ?thesis by (simp add: t no_double_signup_def)
  qed
  with l show ?thesis by blast
qed

lemma no_double_populate [simp]:
  "no_double_signup (populate_display_names resolve t) = no_double_signup t"
  by (simp add: no_double_signup_def)

lemma no_double_after_join:
  assumes "no_double_signup t"
    and "u \<notin> player_id ` set (players t)" and "u \<notin> player_id ` set (waitlist t)"
  shows "no_double_signup
           (t\<lparr>players := players t @ [\<lparr>player_id = u, joined_at = now, display_name = n\<rparr>]\<rparr>)"
    and "no_double_signup
           (t\<lparr>waitlist := waitlist t @ [\<lparr>player_id = u, joined_at = now, display_name = n\<rparr>]\<rparr>)"
  using assms by (auto simp: no_double_signup_def)

lemma distinct_map_filter: "distinct (map f xs) \<Longrightarrow> distinct (map f (filter P xs))"
  by (induction xs) auto

lemma no_double_after_leave:
  assumes "no_double_signup t"
  shows "no_double_signup
           (case waitlist t of
              [] \<Rightarrow> t\<lparr>players := filter (\<lambda>entry. player_id entry \<noteq> u) (players t)\<rparr>
            | p # rest \<Rightarrow>
                t\<lparr>players := filter (\<lambda>entry. player_id entry \<noteq> u) (players t) @ [p],
                  waitlist := rest\<rparr>)"
    and "no_double_signup
           (t\<lparr>waitlist := filter (\<lambda>entry. player_id entry \<noteq> u) (waitlist t)\<rparr>)"
proof -
  show "no_double_signup
           (case waitlist t of
              [] \<Rightarrow> t\<lparr>players := filter (\<lambda>entry. player_id entry \<noteq> u) (players t)\<rparr>
            | p # rest \<Rightarrow>
                t\<lparr>players := filter (\<lambda>entry. player_id entry \<noteq> u) (players t) @ [p],
                  waitlist := rest\<rparr>)"
    using assms
    by (cases "waitlist t") (auto simp: no_double_signup_def distinct_map_filter)
  show "no_double_signup
           (t\<lparr>waitlist := filter (\<lambda>entry. player_id entry \<noteq> u) (waitlist t)\<rparr>)"
    using assms by (auto simp: no_double_signup_def distinct_map_filter)
qed

lemma no_double_after_edit:
  assumes "no_double_signup t"
  shows "no_double_signup
           (t\<lparr>system := sy, schedule := sc, infos := i, max_players := m,
              players := take n (players t),
              waitlist := sort_key joined_at (waitlist t @ rev (drop n (players t)))\<rparr>)"
    and "no_double_signup (t\<lparr>system := sy, schedule := sc, infos := i, max_players := m\<rparr>)"
proof -
  have "mset (map player_id
           (take n (players t) @ sort_key joined_at (waitlist t @ rev (drop n (players t)))))
      = mset (map player_id (take n (players t) @ drop n (players t) @ waitlist t))"
    by (simp add: ac_simps)
  also have "\<dots> = mset (map player_id (players t @ waitlist t))"
    by (simp only: append_assoc [symmetric] append_take_drop_id)
  finally have "distinct (map player_id
           (take n (players t) @ sort_key joined_at (waitlist t @ rev (drop n (players t)))))"
    using assms mset_eq_imp_distinct_iff unfolding no_double_signup_def by blast
  then show "no_double_signup
           (t\<lparr>system := sy, schedule := sc, infos := i, max_players := m,
              players := take n (players t),
              waitlist := sort_key joined_at (waitlist t @ rev (drop n (players t)))\<rparr>)"
    by (simp add: no_double_signup_def)
  show "no_double_signup (t\<lparr>system := sy, schedule := sc, infos := i, max_players := m\<rparr>)"
    using assms by (simp add: no_double_signup_def)
qed



lemma lookup_in_set: "map_of a k = Some t \<Longrightarrow> (k, t) \<in> set a"
  by (rule map_of_SomeD)

lemma join_shape:
  assumes "load_tables st = Inr (typed_db a, typed_db r)"
    and "\<forall>(k, t) \<in> set a. no_double_signup t"
  shows "snd (join_callback table_id user_id name now resolve st) = st
       \<or> (\<exists>t'. no_double_signup t'
            \<and> snd (join_callback table_id user_id name now resolve st)
                = save_tables (typed_db (AList.update table_id t' a)) (typed_db r))"
proof (cases "map_of a table_id")
  case None
  then have "map_of (typed_db a) table_id = None" by (simp add: typed_lookup)
  from rejected_replies(1) [OF assms(1) this] show ?thesis by simp
next
  case (Some t)
  with assms(2) have q: "no_double_signup t" by (auto dest: lookup_in_set)
  note e = join_callback_typed [OF assms(1) Some, of user_id name now resolve]
  consider (a) "user_id \<in> player_id ` set (players t)"
    | (b) "user_id \<notin> player_id ` set (players t)" "user_id \<in> player_id ` set (waitlist t)"
    | (c) "user_id \<notin> player_id ` set (players t)" "user_id \<notin> player_id ` set (waitlist t)"
    by blast
  then show ?thesis
  proof cases
    case a
    then show ?thesis by (simp add: e list_ex_ids)
  next
    case b
    then show ?thesis by (simp add: e list_ex_ids)
  next
    case c
    note n = no_double_after_join [OF q c, of now "Some name"]
    show ?thesis
    proof (cases "max_players t \<le> int (length (players t))")
      case True
      have "snd (join_callback table_id user_id name now resolve st)
          = save_tables (typed_db (AList.update table_id
              (populate_display_names resolve
                 (t\<lparr>waitlist := waitlist t @
                    [\<lparr>player_id = user_id, joined_at = now, display_name = Some name\<rparr>]\<rparr>)) a))
              (typed_db r)"
        using c True by (simp add: e list_ex_ids)
      moreover have "no_double_signup (populate_display_names resolve
                 (t\<lparr>waitlist := waitlist t @
                    [\<lparr>player_id = user_id, joined_at = now, display_name = Some name\<rparr>]\<rparr>))"
        using n(2) by simp
      ultimately show ?thesis by blast
    next
      case False
      have "snd (join_callback table_id user_id name now resolve st)
          = save_tables (typed_db (AList.update table_id
              (populate_display_names resolve
                 (t\<lparr>players := players t @
                    [\<lparr>player_id = user_id, joined_at = now, display_name = Some name\<rparr>]\<rparr>)) a))
              (typed_db r)"
        using c False by (simp add: e list_ex_ids)
      moreover have "no_double_signup (populate_display_names resolve
                 (t\<lparr>players := players t @
                    [\<lparr>player_id = user_id, joined_at = now, display_name = Some name\<rparr>]\<rparr>))"
        using n(1) by simp
      ultimately show ?thesis by blast
    qed
  qed
qed

lemma leave_shape:
  assumes "load_tables st = Inr (typed_db a, typed_db r)"
    and "\<forall>(k, t) \<in> set a. no_double_signup t"
  shows "snd (leave_callback table_id user_id resolve st) = st
       \<or> (\<exists>t'. no_double_signup t'
            \<and> snd (leave_callback table_id user_id resolve st)
                = save_tables (typed_db (AList.update table_id t' a)) (typed_db r))"
proof (cases "map_of a table_id")
  case None
  then have "map_of (typed_db a) table_id = None" by (simp add: typed_lookup)
  from rejected_replies(1) [OF assms(1) this] show ?thesis by simp
next
  case (Some t)
  with assms(2) have q: "no_double_signup t" by (auto dest: lookup_in_set)
  note e = leave_callback_typed [OF assms(1) Some, of user_id resolve]
  note n = no_double_after_leave [OF q, of user_id]
  consider (a) "user_id \<in> player_id ` set (players t)"
    | (b) "user_id \<notin> player_id ` set (players t)" "user_id \<in> player_id ` set (waitlist t)"
    | (c) "user_id \<notin> player_id ` set (players t)" "user_id \<notin> player_id ` set (waitlist t)"
    by blast
  then show ?thesis
  proof cases
    case a
    have "snd (leave_callback table_id user_id resolve st)
        = save_tables (typed_db (AList.update table_id
            (populate_display_names resolve
               (case waitlist t of
                  [] \<Rightarrow> t\<lparr>players := filter (\<lambda>entry. player_id entry \<noteq> user_id) (players t)\<rparr>
                | p # rest \<Rightarrow>
                    t\<lparr>players := filter (\<lambda>entry. player_id entry \<noteq> user_id) (players t) @ [p],
                      waitlist := rest\<rparr>)) a))
            (typed_db r)"
      using a by (simp add: e list_ex_ids)
    moreover have "no_double_signup (populate_display_names resolve
               (case waitlist t of
                  [] \<Rightarrow> t\<lparr>players := filter (\<lambda>entry. player_id entry \<noteq> user_id) (players t)\<rparr>
                | p # rest \<Rightarrow>
                    t\<lparr>players := filter (\<lambda>entry. player_id entry \<noteq> user_id) (players t) @ [p],
                      waitlist := rest\<rparr>))"
      using n(1) by simp
    ultimately show ?thesis by blast
  next
    case b
    have "snd (leave_callback table_id user_id resolve st)
        = save_tables (typed_db (AList.update table_id
            (populate_display_names resolve
               (t\<lparr>waitlist := filter (\<lambda>entry. player_id entry \<noteq> user_id) (waitlist t)\<rparr>)) a))
            (typed_db r)"
      using b by (simp add: e list_ex_ids)
    moreover have "no_double_signup (populate_display_names resolve
               (t\<lparr>waitlist := filter (\<lambda>entry. player_id entry \<noteq> user_id) (waitlist t)\<rparr>))"
      using n(2) by simp
    ultimately show ?thesis by blast
  next
    case c
    then show ?thesis by (simp add: e list_ex_ids)
  qed
qed

lemma edit_shape:
  assumes "load_tables st = Inr (typed_db a, typed_db r)"
    and "\<forall>(k, t) \<in> set a. no_double_signup t"
  shows "snd (edit_on_submit table_id system_value schedule_value infos_value
                max_players_input st) = st
       \<or> (\<exists>t'. no_double_signup t'
            \<and> snd (edit_on_submit table_id system_value schedule_value infos_value
                      max_players_input st)
                = save_tables (typed_db (AList.update table_id t' a)) (typed_db r))"
proof (cases "validate_form system_value schedule_value infos_value max_players_input")
  case (Inl err)
  then show ?thesis by (simp add: edit_on_submit_def)
next
  case (Inr m)
  show ?thesis
  proof (cases "map_of a table_id")
    case None
    then have "map_of (typed_db a) table_id = None" by (simp add: typed_lookup)
    then show ?thesis by (simp add: edit_on_submit_def Inr assms(1))
  next
    case (Some t)
    with assms(2) have q: "no_double_signup t" by (auto dest: lookup_in_set)
    note e = edit_on_submit_typed [OF Inr assms(1) Some]
    note n = no_double_after_edit(1) [OF q, where sy = system_value and sc = schedule_value
        and i = infos_value and m = m and n = "nat m"]
      no_double_after_edit(2) [OF q, where sy = system_value and sc = schedule_value
        and i = infos_value and m = m]
    let ?t' = "if int (length (players t)) > m
            then t\<lparr>system := system_value, schedule := schedule_value, infos := infos_value,
                   max_players := m, players := take (nat m) (players t),
                   waitlist := sort_key joined_at (waitlist t @ rev (drop (nat m) (players t)))\<rparr>
            else t\<lparr>system := system_value, schedule := schedule_value, infos := infos_value,
                   max_players := m\<rparr>"
    have "no_double_signup ?t'" using n by simp
    moreover have "snd (edit_on_submit table_id system_value schedule_value infos_value
                      max_players_input st)
        = save_tables (typed_db (AList.update table_id ?t' a)) (typed_db r)"
      by (simp only: e snd_conv)
    ultimately show ?thesis by blast
  qed
qed

lemma create_shape:
  assumes "load_tables st = Inr (typed_db a, typed_db r)"
  shows "snd (new_table_on_submit table_id user_id guild now system_value schedule_value
                infos_value max_players_input posted st) = st
       \<or> (\<exists>t'. no_double_signup t'
            \<and> snd (new_table_on_submit table_id user_id guild now system_value schedule_value
                      infos_value max_players_input posted st)
                = save_tables (typed_db (AList.update table_id t' a)) (typed_db r))"
proof (cases "validate_form system_value schedule_value infos_value max_players_input")
  case (Inl err)
  then show ?thesis by (simp add: new_table_on_submit_def)
next
  case (Inr m)
  show ?thesis
  proof (cases posted)
    case NotTextChannel
    then show ?thesis by (simp add: new_table_on_submit_def Inr assms)
  next
    case SendFailed
    then show ?thesis by (simp add: new_table_on_submit_def Inr assms)
  next
    case (Posted message channel)
    let ?t' = "\<lparr>system = system_value, infos = infos_value, schedule = schedule_value,
            created_at = Some now, max_players = m, players = [], waitlist = [],
            creator_id = user_id, message_id = message, channel_id = channel,
            guild_id = guild, archive_reason = None, archived_at = None,
            archived_by = None\<rparr>"
    have "no_double_signup ?t'" by (simp add: no_double_signup_def)
    moreover have "snd (new_table_on_submit table_id user_id guild now system_value
                      schedule_value infos_value max_players_input posted st)
        = save_tables (typed_db (AList.update table_id ?t' a)) (typed_db r)"
      unfolding Posted
      by (simp only: new_table_on_submit_typed [OF Inr assms] snd_conv)
    ultimately show ?thesis by blast
  qed
qed

lemma reachable_typed:
  "reachable st \<Longrightarrow>
   \<exists>a r. load_tables st = Inr (typed_db a, typed_db r)
     \<and> (\<forall>(k, t) \<in> set a. no_double_signup t)"
proof (induction rule: reachable.induct)
  case initial
  have "\<forall>(k, t) \<in> set ([] :: (string \<times> TableData) list). no_double_signup t" by simp
  with load_initial show ?case by blast
next
  case (create st table_id user_id guild now system_value schedule_value infos_value
      max_players_input posted r st')
  from create.IH obtain a ar where l: "load_tables st = Inr (typed_db a, typed_db ar)"
    and q: "\<forall>(k, t) \<in> set a. no_double_signup t" by blast
  from create.hyps(2) have s: "st' = snd (new_table_on_submit table_id user_id guild now
      system_value schedule_value infos_value max_players_input posted st)" by simp
  from create_shape [OF l, of table_id user_id guild now system_value schedule_value
      infos_value max_players_input posted]
  show ?case
  proof
    assume "snd (new_table_on_submit table_id user_id guild now system_value schedule_value
      infos_value max_players_input posted st) = st"
    with s l q show ?thesis by auto
  next
    assume "\<exists>t'. no_double_signup t'
        \<and> snd (new_table_on_submit table_id user_id guild now system_value schedule_value
              infos_value max_players_input posted st)
            = save_tables (typed_db (AList.update table_id t' a)) (typed_db ar)"
    then obtain t' where "no_double_signup t'"
      "st' = save_tables (typed_db (AList.update table_id t' a)) (typed_db ar)"
      using s by auto
    from inv_after_update [OF l q this] show ?thesis .
  qed
next
  case (join st table_id user_id user_display_name now resolve r st')
  from join.IH obtain a ar where l: "load_tables st = Inr (typed_db a, typed_db ar)"
    and q: "\<forall>(k, t) \<in> set a. no_double_signup t" by blast
  from join.hyps(2) have s: "st' = snd (join_callback table_id user_id user_display_name now
      resolve st)" by simp
  from join_shape [OF l q, of table_id user_id user_display_name now resolve]
  show ?case
  proof
    assume "snd (join_callback table_id user_id user_display_name now resolve st) = st"
    with s l q show ?thesis by auto
  next
    assume "\<exists>t'. no_double_signup t'
        \<and> snd (join_callback table_id user_id user_display_name now resolve st)
            = save_tables (typed_db (AList.update table_id t' a)) (typed_db ar)"
    then obtain t' where "no_double_signup t'"
      "st' = save_tables (typed_db (AList.update table_id t' a)) (typed_db ar)"
      using s by auto
    from inv_after_update [OF l q this] show ?thesis .
  qed
next
  case (leave st table_id user_id resolve r st')
  from leave.IH obtain a ar where l: "load_tables st = Inr (typed_db a, typed_db ar)"
    and q: "\<forall>(k, t) \<in> set a. no_double_signup t" by blast
  from leave.hyps(2) have s: "st' = snd (leave_callback table_id user_id resolve st)" by simp
  from leave_shape [OF l q, of table_id user_id resolve]
  show ?case
  proof
    assume "snd (leave_callback table_id user_id resolve st) = st"
    with s l q show ?thesis by auto
  next
    assume "\<exists>t'. no_double_signup t'
        \<and> snd (leave_callback table_id user_id resolve st)
            = save_tables (typed_db (AList.update table_id t' a)) (typed_db ar)"
    then obtain t' where "no_double_signup t'"
      "st' = save_tables (typed_db (AList.update table_id t' a)) (typed_db ar)"
      using s by auto
    from inv_after_update [OF l q this] show ?thesis .
  qed
next
  case (edit st table_id system_value schedule_value infos_value max_players_input r st')
  from edit.IH obtain a ar where l: "load_tables st = Inr (typed_db a, typed_db ar)"
    and q: "\<forall>(k, t) \<in> set a. no_double_signup t" by blast
  from edit.hyps(2) have s: "st' = snd (edit_on_submit table_id system_value schedule_value
      infos_value max_players_input st)" by simp
  from edit_shape [OF l q, of table_id system_value schedule_value infos_value
      max_players_input]
  show ?case
  proof
    assume "snd (edit_on_submit table_id system_value schedule_value infos_value
      max_players_input st) = st"
    with s l q show ?thesis by auto
  next
    assume "\<exists>t'. no_double_signup t'
        \<and> snd (edit_on_submit table_id system_value schedule_value infos_value
              max_players_input st)
            = save_tables (typed_db (AList.update table_id t' a)) (typed_db ar)"
    then obtain t' where "no_double_signup t'"
      "st' = save_tables (typed_db (AList.update table_id t' a)) (typed_db ar)"
      using s by auto
    from inv_after_update [OF l q this] show ?thesis .
  qed
qed



text \<open>
  C7: in every store the bot can reach from its start by creating, joining, leaving and
  editing tables, each stored active table record has no user id twice in roster and
  waitlist taken together: none twice in the roster, none twice in the waitlist, and
  none in both.
\<close>

theorem reachable_tables_hold_each_user_once:
  assumes "reachable st" and "stored_table st table_id = Some t"
  shows "distinct (map player_id (players t @ waitlist t))
       \<and> distinct (map player_id (players t))
       \<and> distinct (map player_id (waitlist t))
       \<and> player_id ` set (players t) \<inter> player_id ` set (waitlist t) = {}"
proof -
  from reachable_typed [OF assms(1)] obtain a r where
    l: "load_tables st = Inr (typed_db a, typed_db r)"
    and q: "\<forall>(k, t) \<in> set a. no_double_signup t" by blast
  from assms(2) have "map_of a table_id = Some t" by (simp add: stored_typed [OF l])
  then have "(table_id, t) \<in> set a" by (rule map_of_SomeD)
  with q have "no_double_signup t" by auto
  then show ?thesis by (auto simp: no_double_signup_def)
qed

text \<open>
  C7 at a store reached by creating a one-seat table and one join: the stored record has
  user 1 in the roster and an empty waitlist.
\<close>

theorem reachable_tables_hold_each_user_once_witness:
  "reachable
     (snd (join_callback ''table-1'' 1 ''A'' ''2025-01-01T10:00:00+00:00'' Map.empty
        (snd (new_table_on_submit ''table-1'' 123 101112 ''2025-01-01T00:00:00+00:00''
           ''Test System'' ''Soon'' ''Test'' (Some 1) (Posted 456 789)
           \<lparr>active_file = None, archived_file = None\<rparr>))))
   \<and> map_option (map player_id \<circ> players)
       (stored_table
          (snd (join_callback ''table-1'' 1 ''A'' ''2025-01-01T10:00:00+00:00'' Map.empty
             (snd (new_table_on_submit ''table-1'' 123 101112 ''2025-01-01T00:00:00+00:00''
                ''Test System'' ''Soon'' ''Test'' (Some 1) (Posted 456 789)
                \<lparr>active_file = None, archived_file = None\<rparr>))))
          ''table-1'')
     = Some [1]
   \<and> map_option waitlist
       (stored_table
          (snd (join_callback ''table-1'' 1 ''A'' ''2025-01-01T10:00:00+00:00'' Map.empty
             (snd (new_table_on_submit ''table-1'' 123 101112 ''2025-01-01T00:00:00+00:00''
                ''Test System'' ''Soon'' ''Test'' (Some 1) (Posted 456 789)
                \<lparr>active_file = None, archived_file = None\<rparr>))))
          ''table-1'')
     = Some []
   \<and> distinct [1 :: int]"
proof -
  let ?st0 = "\<lparr>active_file = None, archived_file = None\<rparr>"
  let ?new = "\<lparr>system = ''Test System'', infos = ''Test'', schedule = ''Soon'',
            created_at = Some ''2025-01-01T00:00:00+00:00'', max_players = 1, players = [],
            waitlist = [], creator_id = 123, message_id = 456, channel_id = 789,
            guild_id = 101112, archive_reason = None, archived_at = None,
            archived_by = None\<rparr>"
  let ?c = "new_table_on_submit ''table-1'' 123 101112 ''2025-01-01T00:00:00+00:00''
           ''Test System'' ''Soon'' ''Test'' (Some 1) (Posted 456 789) ?st0"
  let ?j = "join_callback ''table-1'' 1 ''A'' ''2025-01-01T10:00:00+00:00'' Map.empty (snd ?c)"
  let ?t1 = "clear_reason (populate_display_names Map.empty
       (?new\<lparr>players := players ?new @
          [\<lparr>player_id = 1, joined_at = ''2025-01-01T10:00:00+00:00'',
            display_name = Some ''A''\<rparr>]\<rparr>))"
  have v: "validate_form ''Test System'' ''Soon'' ''Test'' (Some 1) = Inr 1"
    by (simp add: validate_form_def)
  have c: "snd ?c = save_tables (typed_db (AList.update ''table-1'' ?new [])) (typed_db [])"
    by (simp only: new_table_on_submit_typed [OF v load_initial] snd_conv)
  have l1: "load_tables (snd ?c)
      = Inr (typed_db (as_saved (AList.update ''table-1'' ?new [])), typed_db [])"
    by (rule stored_after_update(1) [OF load_initial c])
  have a1: "as_saved (AList.update ''table-1'' ?new []) = [(''table-1'', ?new)]"
    by (simp add: as_saved_def clear_reason_def)
  have l1': "load_tables (snd ?c) = Inr (typed_db [(''table-1'', ?new)], typed_db [])"
    using l1 unfolding a1 .
  have m: "map_of [(''table-1'', ?new)] ''table-1'' = Some ?new" by simp
  have f: "(1::int) \<notin> player_id ` set (players ?new)"
    "(1::int) \<notin> player_id ` set (waitlist ?new)"
    "int (length (players ?new)) < max_players ?new"
    by simp_all
  note js = join_seated [OF l1' m f, of "''A''" "''2025-01-01T10:00:00+00:00''" Map.empty]
  have s: "stored_table (snd ?j) ''table-1'' = Some ?t1"
    unfolding js snd_conv by (rule stored_after_update(2) [OF l1' refl])
  have r0: "reachable ?st0" by (rule reachable.initial)
  have r1: "reachable (snd ?c)"
    by (rule reachable.create [OF r0 prod.collapse [symmetric]])
  have r2: "reachable (snd ?j)"
    by (rule reachable.join [OF r1 prod.collapse [symmetric]])
  from reachable_tables_hold_each_user_once [OF r2 s]
  have "distinct (map player_id (players ?t1 @ waitlist ?t1))" by blast
  moreover have "map player_id (players ?t1) = [1]" "waitlist ?t1 = []"
    by (simp_all add: populate_display_names_def)
  ultimately show ?thesis
    using r2 s by simp
qed

end
